theory Spec2Isabelle
  imports Main "HOL-Library.Word" "HOL-Library.Multiset"
begin

section \<open>Array summation with OpenMP: the two programs of the repository\<close>

text \<open>
  The repository holds two C++ programs, \<^verbatim>\<open>main.cpp\<close> and
  \<^verbatim>\<open>SolucionSumaArreglosParalela_Oliver_Viveros.cpp\<close>. Each fills two arrays
  with random numbers, adds them element-wise in a sequential loop and again in an OpenMP
  \<^verbatim>\<open>parallel for\<close> loop, prints the arrays and prints two timings.

  The embedding keeps the programs as state transformers. A C++ \<^verbatim>\<open>int\<close> is a
  32-bit word whose \<open>+\<close> wraps around; every array access is checked, and an index outside
  the array is the error \<open>OutOfBounds\<close>. Loop counters never exceed the array length
  (at most 1000), so they are natural numbers. What is written to \<^verbatim>\<open>cout\<close> is a
  list of items, one per \<^verbatim>\<open><<\<close>.
\<close>

subsection \<open>Values, errors and checked arrays\<close>

type_synonym int32 = "32 word"

datatype error = OutOfBounds

definition ebind :: "error + 'a \<Rightarrow> ('a \<Rightarrow> error + 'b) \<Rightarrow> error + 'b" where
  "ebind m f = (case m of Inl e \<Rightarrow> Inl e | Inr x \<Rightarrow> f x)"

definition arr_get :: "int32 list \<Rightarrow> nat \<Rightarrow> error + int32" where
  "arr_get d i = (if i < length d then Inr (d ! i) else Inl OutOfBounds)"

definition arr_set :: "int32 list \<Rightarrow> nat \<Rightarrow> int32 \<Rightarrow> error + int32 list" where
  "arr_set d i v = (if i < length d then Inr (d[i := v]) else Inl OutOfBounds)"

text \<open>
  One item per operand of \<^verbatim>\<open><<\<close>: a string literal, an \<^verbatim>\<open>int\<close>, a
  \<^verbatim>\<open>double\<close> (the type \<open>'d\<close>: the programs only print the two they measure),
  \<^verbatim>\<open>endl\<close>, \<^verbatim>\<open>fixed\<close> and \<^verbatim>\<open>setprecision(p)\<close>.
\<close>

datatype 'd out_item = Str string | Num int32 | Dbl 'd | Endl | Fixed | SetPrecision nat

text \<open>
  The part of the state both programs have: the engine \<^verbatim>\<open>gen\<close> (its state is
  the type \<open>'g\<close>) and what has been written to \<^verbatim>\<open>cout\<close>.
\<close>

record ('g, 'd) process =
  gen :: 'g
  cout :: "'d out_item list"

definition print :: "'d out_item list \<Rightarrow> ('g, 'd, 'z) process_scheme \<Rightarrow> ('g, 'd, 'z) process_scheme" where
  "print items st = st\<lparr>cout := cout st @ items\<rparr>"

subsection \<open>The random distribution\<close>

text \<open>
  \<^verbatim>\<open>uniform_int_distribution<int> dist(a, b)\<close> belongs to the C++ standard library, not
  to the repository. It is a parameter \<open>uid\<close> of the model: \<open>uid a b g\<close> is the value that
  \<^verbatim>\<open>dist(gen)\<close> returns in engine state \<open>g\<close>, with the next engine state. The
  standard promises a value between \<open>a\<close> and \<open>b\<close> when \<open>a \<le> b\<close>; \<open>uid_contract\<close> says so.
\<close>

type_synonym 'g distribution = "'g \<Rightarrow> int32 \<times> 'g"

definition uid_contract :: "(int32 \<Rightarrow> int32 \<Rightarrow> 'g distribution) \<Rightarrow> bool" where
  "uid_contract uid \<longleftrightarrow>
     (\<forall>a b g. sint a \<le> sint b \<longrightarrow>
        sint a \<le> sint (fst (uid a b g)) \<and> sint (fst (uid a b g)) \<le> sint b)"

text \<open>A distribution to run the model with: it alternates between the two bounds.\<close>

definition ends_uid :: "int32 \<Rightarrow> int32 \<Rightarrow> nat distribution" where
  "ends_uid a b g = (if even g then a else b, Suc g)"

subsection \<open>Loops\<close>

text \<open>
  \<^verbatim>\<open>for (int i = i0; i < n; i++) body\<close>: the body is run for \<open>i0, i0 + 1, \<dots>\<close>
  and the loop stops at the first error.
\<close>

function for_loop :: "nat \<Rightarrow> nat \<Rightarrow> (nat \<Rightarrow> 's \<Rightarrow> error + 's) \<Rightarrow> 's \<Rightarrow> error + 's" where
  "for_loop i n body s =
     (if i < n then
        (case body i s of Inl e \<Rightarrow> Inl e | Inr s' \<Rightarrow> for_loop (Suc i) n body s')
      else Inr s)"
  by pat_completeness auto
termination
  by (relation "measure (\<lambda>(i, n, body, s). n - i)") auto

declare for_loop.simps [simp del]

subsection \<open>OpenMP: the work-sharing loop\<close>

text \<open>
  \<^verbatim>\<open>#pragma omp parallel for\<close> gives every iteration of the loop to exactly one
  thread of the team. \<open>team ! t\<close> is the list of iterations of thread \<open>t\<close>, in the order in
  which the thread runs them; \<open>assignment n team\<close> says that the iterations \<open>0, \<dots>, n - 1\<close>
  are dealt out, each one once.
\<close>

definition assignment :: "nat \<Rightarrow> nat list list \<Rightarrow> bool" where
  "assignment n team \<longleftrightarrow> mset (concat team) = mset [0..<n]"

text \<open>
  \<^verbatim>\<open>schedule(static, c)\<close> with \<open>T\<close> threads: the iterations are cut into chunks of
  \<open>c\<close> consecutive iterations (the last one may be shorter), and chunk \<open>k\<close> goes to thread
  \<open>k mod T\<close>.
\<close>

definition chunk_iters :: "nat \<Rightarrow> nat \<Rightarrow> nat \<Rightarrow> nat list" where
  "chunk_iters n c k = [k * c ..< min n (Suc k * c)]"

definition num_chunks :: "nat \<Rightarrow> nat \<Rightarrow> nat" where
  "num_chunks n c = (n + c - 1) div c"

definition thread_iters :: "nat \<Rightarrow> nat \<Rightarrow> nat \<Rightarrow> nat \<Rightarrow> nat list" where
  "thread_iters n c T t =
     concat (map (chunk_iters n c) (filter (\<lambda>k. k mod T = t) [0..<num_chunks n c]))"

definition static_schedule :: "nat \<Rightarrow> nat \<Rightarrow> nat \<Rightarrow> nat list list" where
  "static_schedule n c T = map (thread_iters n c T) [0..<T]"

text \<open>
  The threads run at the same time. The region is modelled twice. First, with every
  iteration run as one step: an execution of the team is then an order of whole
  iterations, any \<open>order\<close> that takes the iterations of each thread in that thread's
  order; \<open>interleaving team order\<close> says that \<open>order\<close> is one. The programs below are
  written with this model.
\<close>

fun interleaving :: "nat list list \<Rightarrow> nat list \<Rightarrow> bool" where
  "interleaving team [] = list_all (\<lambda>q. q = []) team"
| "interleaving team (i # order) =
     list_ex (\<lambda>t. case team ! t of [] \<Rightarrow> False
                    | j # rest \<Rightarrow> j = i \<and> interleaving (team[t := rest]) order)
       [0..<length team]"

text \<open>The iterations of the loop, run in the given order; the first error stops the region.\<close>

fun run_iters :: "(nat \<Rightarrow> 's \<Rightarrow> error + 's) \<Rightarrow> nat list \<Rightarrow> 's \<Rightarrow> error + 's" where
  "run_iters body [] s = Inr s"
| "run_iters body (i # order) s =
     (case body i s of Inl e \<Rightarrow> Inl e | Inr s' \<Rightarrow> run_iters body order s')"

text \<open>
  Second, with the threads preempted inside an iteration. An iteration of the loops below
  is a read (\<open>A[i]\<close> and \<open>B[i]\<close> are loaded and added) followed by a write (the sum is stored
  in element \<open>i\<close> of the result); between the two the thread holds the index and the sum.
  A thread is the list of its remaining iterations with what it holds. \<open>sched\<close> names the
  thread that takes the next step, a read or a write, again and again; a thread that has
  finished, or that the team does not have, takes no step. \<open>fair\<close> says that every thread
  is named often enough to finish: twice for each of its iterations.
\<close>

type_synonym 'v thread = "nat list \<times> (nat \<times> 'v) option"

definition team_start :: "nat list list \<Rightarrow> 'v thread list" where
  "team_start team = map (\<lambda>q. (q, None)) team"

definition team_finished :: "'v thread list \<Rightarrow> bool" where
  "team_finished ths = list_all (\<lambda>th. th = ([], None)) ths"

fun thread_step ::
  "(nat \<Rightarrow> 's \<Rightarrow> error + 'v) \<Rightarrow> (nat \<Rightarrow> 'v \<Rightarrow> 's \<Rightarrow> error + 's) \<Rightarrow> 'v thread \<Rightarrow> 's
     \<Rightarrow> error + ('v thread \<times> 's)"
where
  "thread_step load store (q, Some (i, v)) s = ebind (store i v s) (\<lambda>s'. Inr ((q, None), s'))"
| "thread_step load store (i # q, None) s = ebind (load i s) (\<lambda>v. Inr ((q, Some (i, v)), s))"
| "thread_step load store ([], None) s = Inr (([], None), s)"

fun team_run ::
  "(nat \<Rightarrow> 's \<Rightarrow> error + 'v) \<Rightarrow> (nat \<Rightarrow> 'v \<Rightarrow> 's \<Rightarrow> error + 's) \<Rightarrow> nat list \<Rightarrow> 'v thread list \<Rightarrow> 's
     \<Rightarrow> error + ('v thread list \<times> 's)"
where
  "team_run load store [] ths s = Inr (ths, s)"
| "team_run load store (t # sched) ths s =
     (if t < length ths then
        (case thread_step load store (ths ! t) s of Inl e \<Rightarrow> Inl e
         | Inr (th, s') \<Rightarrow> team_run load store sched (ths[t := th]) s')
      else team_run load store sched ths s)"

definition fair :: "nat list list \<Rightarrow> nat list \<Rightarrow> bool" where
  "fair team sched \<longleftrightarrow> (\<forall>t<length team. 2 * length (team ! t) \<le> count_list sched t)"

text \<open>
  For the proofs: the iterations a thread has not completed, the number of steps it still
  has to take, and the invariant of a run. In \<open>team_ok\<close>, \<open>sinv\<close> is what every state of the
  run satisfies, \<open>get\<close> reads the result array, \<open>val i\<close> is the value iteration \<open>i\<close>
  stores, \<open>I\<close> is the set of all iterations of the team and \<open>old\<close> the result array at the
  start.
\<close>

fun thread_todo :: "'v thread \<Rightarrow> nat set" where
  "thread_todo (q, None) = set q"
| "thread_todo (q, Some (i, v)) = insert i (set q)"

fun thread_left :: "'v thread \<Rightarrow> nat" where
  "thread_left (q, None) = 2 * length q"
| "thread_left (q, Some iv) = Suc (2 * length q)"

definition team_ok ::
  "('s \<Rightarrow> bool) \<Rightarrow> ('s \<Rightarrow> 'v list) \<Rightarrow> (nat \<Rightarrow> 'v) \<Rightarrow> nat set \<Rightarrow> 'v list \<Rightarrow> 'v thread list \<Rightarrow> 's \<Rightarrow> bool"
where
  "team_ok sinv get val I old ths s \<longleftrightarrow>
     sinv s
     \<and> (\<forall>th\<in>set ths. thread_todo th \<subseteq> I \<and> (\<forall>i v. snd th = Some (i, v) \<longrightarrow> v = val i))
     \<and> (\<forall>i\<in>I. (\<exists>th\<in>set ths. i \<in> thread_todo th) \<or> get s ! i = val i)
     \<and> (\<forall>i. i \<notin> I \<longrightarrow> get s ! i = old ! i)"

subsection \<open>State of the two programs\<close>

text \<open>
  \<^verbatim>\<open>vector<int> A(n), B(n), R(n), Rpar(n);\<close> of the second program, and
  \<^verbatim>\<open>int A[N], B[N], C_seq[N], C_par[N];\<close> of \<^verbatim>\<open>main.cpp\<close>. Both programs
  call their inputs \<open>A\<close> and \<open>B\<close>: the fields of the second program are written
  \<open>sol_state.A\<close> and \<open>sol_state.B\<close>.
\<close>

record ('g, 'd) sol_state = "('g, 'd) process" +
  A :: "int32 list"
  B :: "int32 list"
  R :: "int32 list"
  Rpar :: "int32 list"

record ('g, 'd) main_state = "('g, 'd) process" +
  A :: "int32 list"
  B :: "int32 list"
  C_seq :: "int32 list"
  C_par :: "int32 list"

text \<open>\<^verbatim>\<open>dist(gen)\<close>: a value, and the engine moves on.\<close>

definition draw :: "'g distribution \<Rightarrow> ('g, 'd, 'z) process_scheme \<Rightarrow> int32 \<times> ('g, 'd, 'z) process_scheme" where
  "draw dist st = (let (v, g) = dist (gen st) in (v, st\<lparr>gen := g\<rparr>))"

text \<open>
  Lines 95 to 97 of the second program and 125 to 127 of \<^verbatim>\<open>main.cpp\<close>, the same
  text in both: the two timings, after \<^verbatim>\<open>fixed << setprecision(4)\<close>.
\<close>

definition reporte_tiempos :: "'d \<Rightarrow> 'd \<Rightarrow> ('g, 'd, 'z) process_scheme \<Rightarrow> ('g, 'd, 'z) process_scheme" where
  "reporte_tiempos tiempo_secuencial tiempo_paralelo st =
     (let st = print [Fixed, SetPrecision 4] st;
          st = print [Str ''\<newline>Tiempo secuencial (ms): '', Dbl tiempo_secuencial, Endl] st
      in print [Str ''Tiempo paralelo   (ms): '', Dbl tiempo_paralelo, Endl] st)"

subsection \<open>\<^verbatim>\<open>main.cpp\<close>\<close>

definition N :: nat where "N = 1000"
definition chunk :: nat where "chunk = 100"
definition mostrar :: nat where "mostrar = 10"

text \<open>The four assignments \<^verbatim>\<open>A[i] = v\<close>, \<^verbatim>\<open>B[i] = v\<close>, \<^verbatim>\<open>C_seq[i] = v\<close>, \<^verbatim>\<open>C_par[i] = v\<close>.\<close>

definition A_set :: "nat \<Rightarrow> int32 \<Rightarrow> ('g, 'd) main_state \<Rightarrow> error + ('g, 'd) main_state" where
  "A_set i v st = ebind (arr_set (A st) i v) (\<lambda>d. Inr (st\<lparr>A := d\<rparr>))"

definition B_set :: "nat \<Rightarrow> int32 \<Rightarrow> ('g, 'd) main_state \<Rightarrow> error + ('g, 'd) main_state" where
  "B_set i v st = ebind (arr_set (B st) i v) (\<lambda>d. Inr (st\<lparr>B := d\<rparr>))"

definition C_seq_set :: "nat \<Rightarrow> int32 \<Rightarrow> ('g, 'd) main_state \<Rightarrow> error + ('g, 'd) main_state" where
  "C_seq_set i v st = ebind (arr_set (C_seq st) i v) (\<lambda>d. Inr (st\<lparr>C_seq := d\<rparr>))"

definition C_par_set :: "nat \<Rightarrow> int32 \<Rightarrow> ('g, 'd) main_state \<Rightarrow> error + ('g, 'd) main_state" where
  "C_par_set i v st = ebind (arr_set (C_par st) i v) (\<lambda>d. Inr (st\<lparr>C_par := d\<rparr>))"

text \<open>
  \<^verbatim>\<open>imprimeArreglo\<close>, lines 135 to 141. The parameter \<^verbatim>\<open>const int *d\<close> is the
  array it points to.
\<close>

definition imprimeArreglo :: "int32 list \<Rightarrow> string \<Rightarrow> ('g, 'd, 'z) process_scheme \<Rightarrow> error + ('g, 'd, 'z) process_scheme" where
  "imprimeArreglo d nombre st =
     (let st = print [Str ''Arreglo '', Str nombre, Str '' (primeros '', Num (of_nat mostrar), Str ''): ''] st
      in ebind (for_loop 0 mostrar
                 (\<lambda>x st. ebind (arr_get d x) (\<lambda>v. Inr (print [Num v, Str '' ''] st))) st)
           (\<lambda>st. Inr (print [Endl] st)))"

text \<open>
  Section 2 of \<^verbatim>\<open>main\<close>, lines 51 to 59: \<^verbatim>\<open>dist\<close> is
  \<^verbatim>\<open>uniform_int_distribution<int>(1, 1000)\<close>.
\<close>

definition inicializacion_iter :: "'g distribution \<Rightarrow> nat \<Rightarrow> ('g, 'd) main_state \<Rightarrow> error + ('g, 'd) main_state" where
  "inicializacion_iter dist i st =
     (let (a, st) = draw dist st in
      ebind (A_set i a st) (\<lambda>st.
        let (b, st) = draw dist st in
        ebind (B_set i b st) (\<lambda>st.
          ebind (C_seq_set i 0 st) (\<lambda>st.
            C_par_set i 0 st))))"

definition inicializacion :: "(int32 \<Rightarrow> int32 \<Rightarrow> 'g distribution) \<Rightarrow> nat \<Rightarrow> ('g, 'd) main_state \<Rightarrow> error + ('g, 'd) main_state" where
  "inicializacion uid n st = for_loop 0 n (inicializacion_iter (uid 1 1000)) st"

text \<open>Section 3, lines 68 to 70.\<close>

definition suma_secuencial_iter :: "nat \<Rightarrow> ('g, 'd) main_state \<Rightarrow> error + ('g, 'd) main_state" where
  "suma_secuencial_iter i st =
     ebind (arr_get (A st) i) (\<lambda>a. ebind (arr_get (B st) i) (\<lambda>b. C_seq_set i (a + b) st))"

definition suma_secuencial :: "nat \<Rightarrow> ('g, 'd) main_state \<Rightarrow> error + ('g, 'd) main_state" where
  "suma_secuencial n st = for_loop 0 n suma_secuencial_iter st"

text \<open>
  Section 4, lines 83 to 91. The loop is run by a team of \<open>T\<close> threads under
  \<^verbatim>\<open>schedule(static, pedazos)\<close> with \<^verbatim>\<open>pedazos = chunk\<close>; \<open>order\<close> is the order in
  which the team happens to run the iterations, and \<open>omp_main_for\<close> says what orders
  the pragma allows for a range of \<open>n\<close> iterations cut into chunks of \<open>pedazos\<close>.
\<close>

definition suma_paralela_iter :: "nat \<Rightarrow> ('g, 'd) main_state \<Rightarrow> error + ('g, 'd) main_state" where
  "suma_paralela_iter i st =
     ebind (arr_get (A st) i) (\<lambda>a. ebind (arr_get (B st) i) (\<lambda>b. C_par_set i (a + b) st))"

definition suma_paralela :: "nat list \<Rightarrow> ('g, 'd) main_state \<Rightarrow> error + ('g, 'd) main_state" where
  "suma_paralela order st = run_iters suma_paralela_iter order st"

definition omp_main_for :: "nat \<Rightarrow> nat \<Rightarrow> nat \<Rightarrow> nat list \<Rightarrow> bool" where
  "omp_main_for n pedazos T order \<longleftrightarrow>
     1 \<le> pedazos \<and> 1 \<le> T \<and> interleaving (static_schedule n pedazos T) order"

text \<open>
  The same loop with its threads preempted inside an iteration: the read of line 90 and
  its write, and the region run by \<open>team\<close> under the step schedule \<open>sched\<close>.
\<close>

definition suma_paralela_load :: "nat \<Rightarrow> ('g, 'd) main_state \<Rightarrow> error + int32" where
  "suma_paralela_load i st =
     ebind (arr_get (A st) i) (\<lambda>a. ebind (arr_get (B st) i) (\<lambda>b. Inr (a + b)))"

definition suma_paralela_team ::
  "nat list list \<Rightarrow> nat list \<Rightarrow> ('g, 'd) main_state
     \<Rightarrow> error + (int32 thread list \<times> ('g, 'd) main_state)"
where
  "suma_paralela_team team sched st =
     team_run suma_paralela_load C_par_set sched (team_start team) st"

text \<open>Section 5, lines 102 to 104: the first \<^verbatim>\<open>mostrar\<close> elements of three arrays.\<close>

definition vista_previa :: "('g, 'd) main_state \<Rightarrow> error + ('g, 'd) main_state" where
  "vista_previa st =
     ebind (imprimeArreglo (A st) ''A'' st) (\<lambda>st.
       ebind (imprimeArreglo (B st) ''B'' st) (\<lambda>st.
         imprimeArreglo (C_par st) ''C (paralelo)'' st))"

text \<open>
  Lines 106 to 116: the comparison loop with its \<^verbatim>\<open>break\<close>. The result is the final
  value of \<^verbatim>\<open>correcto\<close>.
\<close>

function comparacion :: "nat \<Rightarrow> nat \<Rightarrow> ('g, 'd) main_state \<Rightarrow> error + (bool \<times> ('g, 'd) main_state)" where
  "comparacion i n st =
     (if i < n then
        (case arr_get (C_seq st) i of Inl e \<Rightarrow> Inl e
         | Inr s \<Rightarrow>
            (case arr_get (C_par st) i of Inl e \<Rightarrow> Inl e
             | Inr p \<Rightarrow>
                if s \<noteq> p then
                  Inr (False,
                       print [Str ''\<newline>[ERROR] Diferencia en i='', Num (of_nat i),
                              Str '' C_seq='', Num s, Str '' C_par='', Num p, Endl] st)
                else comparacion (Suc i) n st))
      else Inr (True, st))"
  by pat_completeness auto
termination
  by (relation "measure (\<lambda>(i, n, st). n - i)") auto

declare comparacion.simps [simp del]

text \<open>Lines 106 to 118: the comparison and the status line.\<close>

definition verificacion :: "nat \<Rightarrow> ('g, 'd) main_state \<Rightarrow> error + (bool \<times> ('g, 'd) main_state)" where
  "verificacion n st =
     ebind (comparacion 0 n st) (\<lambda>(correcto, st).
       Inr (correcto,
            print [Str ''\<newline>Verificacion (C_seq == C_par): '',
                   Str (if correcto then ''OK'' else ''FALLO''), Endl] st))"

text \<open>
  Lines 102 to 129, from the previews to \<^verbatim>\<open>return 0\<close>. The two timings are
  inputs: they come from the clock.
\<close>

definition main_informe :: "'d \<Rightarrow> 'd \<Rightarrow> ('g, 'd) main_state \<Rightarrow> error + (('g, 'd) main_state \<times> int32)" where
  "main_informe tiempo_secuencial tiempo_paralelo st =
     ebind (vista_previa st) (\<lambda>st.
       ebind (verificacion N st) (\<lambda>(correcto, st).
         Inr (reporte_tiempos tiempo_secuencial tiempo_paralelo st, 0)))"

text \<open>
  \<^verbatim>\<open>main\<close> of \<^verbatim>\<open>main.cpp\<close>. \<open>st0\<close> is the state at entry: the four arrays are
  declared without initialiser, so their contents are whatever \<open>st0\<close> holds, and
  \<^verbatim>\<open>gen\<close> is seeded from \<^verbatim>\<open>random_device\<close>. \<open>main_entry\<close> says that the arrays have
  \<open>N\<close> elements.
\<close>

definition main_entry :: "('g, 'd) main_state \<Rightarrow> bool" where
  "main_entry st \<longleftrightarrow>
     length (A st) = N \<and> length (B st) = N \<and> length (C_seq st) = N \<and> length (C_par st) = N"

definition main_cpp :: "(int32 \<Rightarrow> int32 \<Rightarrow> 'g distribution) \<Rightarrow> nat list \<Rightarrow> 'd \<Rightarrow> 'd \<Rightarrow> ('g, 'd) main_state \<Rightarrow> error + (('g, 'd) main_state \<times> int32)" where
  "main_cpp uid order tiempo_secuencial tiempo_paralelo st0 =
     (let st = print [Str ''Sumando Arreglos en Paralelo (OpenMP)\<newline>''] st0
      in ebind (inicializacion uid N st) (\<lambda>st.
           ebind (suma_secuencial N st) (\<lambda>st.
             ebind (suma_paralela order st) (\<lambda>st.
               main_informe tiempo_secuencial tiempo_paralelo st))))"

subsection \<open>\<^verbatim>\<open>SolucionSumaArreglosParalela_Oliver_Viveros.cpp\<close>\<close>

text \<open>\<^verbatim>\<open>const int n = 10;\<close>\<close>

definition n_sol :: nat where "n_sol = 10"

text \<open>The four assignments \<^verbatim>\<open>A[i] = v\<close>, \<^verbatim>\<open>B[i] = v\<close>, \<^verbatim>\<open>R[i] = v\<close>, \<^verbatim>\<open>Rpar[i] = v\<close>.\<close>

definition sol_A_set :: "nat \<Rightarrow> int32 \<Rightarrow> ('g, 'd) sol_state \<Rightarrow> error + ('g, 'd) sol_state" where
  "sol_A_set i v st = ebind (arr_set (sol_state.A st) i v) (\<lambda>d. Inr (st\<lparr>sol_state.A := d\<rparr>))"

definition sol_B_set :: "nat \<Rightarrow> int32 \<Rightarrow> ('g, 'd) sol_state \<Rightarrow> error + ('g, 'd) sol_state" where
  "sol_B_set i v st = ebind (arr_set (sol_state.B st) i v) (\<lambda>d. Inr (st\<lparr>sol_state.B := d\<rparr>))"

definition R_set :: "nat \<Rightarrow> int32 \<Rightarrow> ('g, 'd) sol_state \<Rightarrow> error + ('g, 'd) sol_state" where
  "R_set i v st = ebind (arr_set (R st) i v) (\<lambda>d. Inr (st\<lparr>R := d\<rparr>))"

definition Rpar_set :: "nat \<Rightarrow> int32 \<Rightarrow> ('g, 'd) sol_state \<Rightarrow> error + ('g, 'd) sol_state" where
  "Rpar_set i v st = ebind (arr_set (Rpar st) i v) (\<lambda>d. Inr (st\<lparr>Rpar := d\<rparr>))"

text \<open>Lines 36 to 43: \<^verbatim>\<open>dist\<close> is \<^verbatim>\<open>uniform_int_distribution<int>(1, 1000)\<close>.\<close>

definition sol_generacion_iter :: "'g distribution \<Rightarrow> nat \<Rightarrow> ('g, 'd) sol_state \<Rightarrow> error + ('g, 'd) sol_state" where
  "sol_generacion_iter dist i st =
     (let (a, st) = draw dist st in
      ebind (sol_A_set i a st) (\<lambda>st.
        let (b, st) = draw dist st in
        sol_B_set i b st))"

definition sol_generacion :: "(int32 \<Rightarrow> int32 \<Rightarrow> 'g distribution) \<Rightarrow> nat \<Rightarrow> ('g, 'd) sol_state \<Rightarrow> error + ('g, 'd) sol_state" where
  "sol_generacion uid n st = for_loop 0 n (sol_generacion_iter (uid 1 1000)) st"

text \<open>Lines 55 to 57.\<close>

definition sol_suma_secuencial_iter :: "nat \<Rightarrow> ('g, 'd) sol_state \<Rightarrow> error + ('g, 'd) sol_state" where
  "sol_suma_secuencial_iter i st =
     ebind (arr_get (sol_state.A st) i) (\<lambda>a.
       ebind (arr_get (sol_state.B st) i) (\<lambda>b. R_set i (a + b) st))"

definition sol_suma_secuencial :: "nat \<Rightarrow> ('g, 'd) sol_state \<Rightarrow> error + ('g, 'd) sol_state" where
  "sol_suma_secuencial n st = for_loop 0 n sol_suma_secuencial_iter st"

text \<open>
  Lines 68 to 71, after \<^verbatim>\<open>omp_set_num_threads(2)\<close> on line 48. The pragma has no
  \<^verbatim>\<open>schedule\<close> clause, so how the iterations are dealt out to the two threads is left
  to the OpenMP runtime: \<open>omp_sol_for\<close> allows every assignment \<open>team\<close> of the \<open>n\<close>
  iterations to two threads, and every order in which the two may run theirs.
\<close>

definition sol_suma_paralela_iter :: "nat \<Rightarrow> ('g, 'd) sol_state \<Rightarrow> error + ('g, 'd) sol_state" where
  "sol_suma_paralela_iter i st =
     ebind (arr_get (sol_state.A st) i) (\<lambda>a.
       ebind (arr_get (sol_state.B st) i) (\<lambda>b. Rpar_set i (a + b) st))"

definition sol_suma_paralela :: "nat list \<Rightarrow> ('g, 'd) sol_state \<Rightarrow> error + ('g, 'd) sol_state" where
  "sol_suma_paralela order st = run_iters sol_suma_paralela_iter order st"

definition omp_sol_for :: "nat \<Rightarrow> nat list list \<Rightarrow> nat list \<Rightarrow> bool" where
  "omp_sol_for n team order \<longleftrightarrow>
     length team = 2 \<and> assignment n team \<and> interleaving team order"

text \<open>The read and the write of line 70, and the region run by \<open>team\<close> under \<open>sched\<close>.\<close>

definition sol_suma_paralela_load :: "nat \<Rightarrow> ('g, 'd) sol_state \<Rightarrow> error + int32" where
  "sol_suma_paralela_load i st =
     ebind (arr_get (sol_state.A st) i) (\<lambda>a. ebind (arr_get (sol_state.B st) i) (\<lambda>b. Inr (a + b)))"

definition sol_suma_paralela_team ::
  "nat list list \<Rightarrow> nat list \<Rightarrow> ('g, 'd) sol_state
     \<Rightarrow> error + (int32 thread list \<times> ('g, 'd) sol_state)"
where
  "sol_suma_paralela_team team sched st =
     team_run sol_suma_paralela_load Rpar_set sched (team_start team) st"

text \<open>
  Lines 80 to 90 print three arrays with the same three statements each: a label, the
  loop over all \<open>n\<close> elements, \<^verbatim>\<open>endl\<close>.
\<close>

definition sol_linea :: "string \<Rightarrow> int32 list \<Rightarrow> nat \<Rightarrow> ('g, 'd, 'z) process_scheme \<Rightarrow> error + ('g, 'd, 'z) process_scheme" where
  "sol_linea etiqueta d n st =
     (let st = print [Str etiqueta] st
      in ebind (for_loop 0 n
                 (\<lambda>i st. ebind (arr_get d i) (\<lambda>v. Inr (print [Num v, Str '' ''] st))) st)
           (\<lambda>st. Inr (print [Endl] st)))"

definition sol_impresion :: "nat \<Rightarrow> ('g, 'd) sol_state \<Rightarrow> error + ('g, 'd) sol_state" where
  "sol_impresion n st =
     ebind (sol_linea ''Arreglo A: '' (sol_state.A st) n st) (\<lambda>st.
       ebind (sol_linea ''Arreglo B: '' (sol_state.B st) n st) (\<lambda>st.
         sol_linea ''Arreglo Resultado (Paralelo): '' (Rpar st) n st))"

text \<open>
  \<^verbatim>\<open>main\<close> of the second program. The vectors are built with \<open>n\<close> zeros, the engine
  is seeded from \<^verbatim>\<open>random_device\<close> (the seeded engine is \<open>g0\<close>), nothing has been printed.
\<close>

definition sol_entry :: "'g \<Rightarrow> nat \<Rightarrow> ('g, 'd) sol_state" where
  "sol_entry g0 n =
     \<lparr>gen = g0, cout = [], sol_state.A = replicate n 0, sol_state.B = replicate n 0,
      R = replicate n 0, Rpar = replicate n 0\<rparr>"

definition sol_main :: "(int32 \<Rightarrow> int32 \<Rightarrow> 'g distribution) \<Rightarrow> 'g \<Rightarrow> nat list \<Rightarrow> 'd \<Rightarrow> 'd \<Rightarrow> error + (('g, 'd) sol_state \<times> int32)" where
  "sol_main uid g0 order tiempo_secuencial tiempo_paralelo =
     (let st = sol_entry g0 n_sol
      in ebind (sol_generacion uid n_sol st) (\<lambda>st.
           ebind (sol_suma_secuencial n_sol st) (\<lambda>st.
             ebind (sol_suma_paralela order st) (\<lambda>st.
               ebind (sol_impresion n_sol st) (\<lambda>st.
                 Inr (reporte_tiempos tiempo_secuencial tiempo_paralelo st, 0))))))"

subsection \<open>The specified result, and states to run the model on\<close>

text \<open>
  The result sequence in the words of the specification: \<open>R[i] = A[i] + B[i]\<close> for every
  \<open>i\<close> in \<open>[0, n)\<close>.
\<close>

definition spec_sum :: "int32 list \<Rightarrow> int32 list \<Rightarrow> nat \<Rightarrow> int32 list" where
  "spec_sum a b n = map (\<lambda>j. a ! j + b ! j) [0..<n]"

definition ejemplo_main :: "(nat, nat) main_state" where
  "ejemplo_main =
     \<lparr>gen = 0, cout = [], A = [1, 2, 1000, 4], B = [10, 1000, 30, 40],
      C_seq = [0, 0, 0, 0], C_par = [7, 7, 7, 7]\<rparr>"

definition ejemplo_sol :: "(nat, nat) sol_state" where
  "ejemplo_sol =
     \<lparr>gen = 0, cout = [], sol_state.A = [5, 6, 7], sol_state.B = [1, 1, 1000],
      R = [0, 0, 0], Rpar = [0, 0, 0]\<rparr>"

definition ejemplo_fallo :: "(nat, nat) main_state" where
  "ejemplo_fallo =
     \<lparr>gen = 0, cout = [], A = [1, 2, 1000, 4], B = [10, 1000, 30, 40],
      C_seq = [11, 1002, 1030, 44], C_par = [11, 1002, 999, 43]\<rparr>"

text \<open>What the printing loops write for the elements \<open>d\<close>: each one, followed by a space.\<close>

definition elements_out :: "int32 list \<Rightarrow> 'd out_item list" where
  "elements_out d = concat (map (\<lambda>v. [Num v, Str '' '']) d)"

text \<open>
  The lines of output, item by item: a preview line of \<^verbatim>\<open>imprimeArreglo\<close>, an array
  line of the second program, the report of a mismatch at index \<open>k\<close>, the status line and
  the two timing lines.
\<close>

definition preview_line :: "string \<Rightarrow> int32 list \<Rightarrow> 'd out_item list" where
  "preview_line nombre d =
     [Str ''Arreglo '', Str nombre, Str '' (primeros '', Num 10, Str ''): '']
     @ elements_out (take 10 d) @ [Endl]"

definition array_line :: "string \<Rightarrow> int32 list \<Rightarrow> 'd out_item list" where
  "array_line etiqueta d = [Str etiqueta] @ elements_out d @ [Endl]"

definition mismatch_report :: "nat \<Rightarrow> int32 \<Rightarrow> int32 \<Rightarrow> 'd out_item list" where
  "mismatch_report k s p =
     [Str ''\<newline>[ERROR] Diferencia en i='', Num (of_nat k), Str '' C_seq='', Num s,
      Str '' C_par='', Num p, Endl]"

definition status_line :: "bool \<Rightarrow> 'd out_item list" where
  "status_line correcto =
     [Str ''\<newline>Verificacion (C_seq == C_par): '', Str (if correcto then ''OK'' else ''FALLO''), Endl]"

definition timing_lines :: "'d \<Rightarrow> 'd \<Rightarrow> 'd out_item list" where
  "timing_lines tiempo_secuencial tiempo_paralelo =
     [Fixed, SetPrecision 4,
      Str ''\<newline>Tiempo secuencial (ms): '', Dbl tiempo_secuencial, Endl,
      Str ''Tiempo paralelo   (ms): '', Dbl tiempo_paralelo, Endl]"

text \<open>States of \<^verbatim>\<open>main.cpp\<close> with arrays of \<open>N\<close> elements: one whose results agree, one whose results differ at index 5.\<close>

definition ejemplo_N :: "(nat, nat) main_state" where
  "ejemplo_N =
     \<lparr>gen = 0, cout = [], A = replicate N 1, B = replicate N 1,
      C_seq = replicate N 2, C_par = replicate N 2\<rparr>"

definition ejemplo_N_fallo :: "(nat, nat) main_state" where
  "ejemplo_N_fallo = ejemplo_N\<lparr>C_par := (replicate N 2)[5 := 3]\<rparr>"


definition has_status :: "'d out_item list \<Rightarrow> bool" where
  "has_status out \<longleftrightarrow> Str ''OK'' \<in> set out \<or> Str ''FALLO'' \<in> set out"

section \<open>Properties of the model\<close>

subsection \<open>Errors, loops and printing\<close>

lemma ebind_Inr [simp]: "ebind (Inr x) f = f x" by (simp add: ebind_def)
lemma ebind_Inl [simp]: "ebind (Inl e) f = Inl e" by (simp add: ebind_def)

lemma for_loop_run_iters: "for_loop i n body s = run_iters body [i..<n] s"
proof (induction i n body s rule: for_loop.induct)
  case (1 i n body s)
  show ?case
  proof (cases "i < n")
    case True
    then have "[i..<n] = i # [Suc i..<n]" by (simp add: upt_conv_Cons)
    with True 1 show ?thesis
      by (subst for_loop.simps) (simp split: sum.splits)
  next
    case False
    then show ?thesis by (subst for_loop.simps) simp
  qed
qed

lemma concat_chunks: "concat (map (chunk_iters n c) [0..<m]) = [0..<min n (m * c)]"
proof (induction m)
  case 0 show ?case by simp
next
  case (Suc m)
  have "[0..<min n (m * c)] @ [m * c..<min n (Suc m * c)] = [0..<min n (Suc m * c)]"
  proof (cases "m * c \<le> n")
    case True
    then have "min n (m * c) = m * c" by simp
    moreover have "m * c \<le> min n (Suc m * c)" using True by simp
    ultimately show ?thesis
      using upt_add_eq_append [of 0 "m * c" "min n (Suc m * c) - m * c"] by simp
  next
    case False
    then have "min n (m * c) = n" "min n (Suc m * c) = n" by auto
    with False show ?thesis by simp
  qed
  with Suc show ?case by (simp add: chunk_iters_def)
qed

lemma num_chunks_covers: "1 \<le> c \<Longrightarrow> n \<le> num_chunks n c * c"
proof -
  assume c: "1 \<le> c"
  have "(n + c - 1) mod c \<le> c - 1" using c by (simp add: Suc_le_eq less_Suc_eq_le[symmetric] del: One_nat_def) 
  moreover have "(n + c - 1) div c * c + (n + c - 1) mod c = n + c - 1" by simp
  ultimately show ?thesis unfolding num_chunks_def using c by linarith
qed

lemma all_chunks: "1 \<le> c \<Longrightarrow> concat (map (chunk_iters n c) [0..<num_chunks n c]) = [0..<n]"
  using num_chunks_covers [of c n] by (simp add: concat_chunks min_def)

lemma mset_residues:
  assumes "1 \<le> T"
  shows "mset (concat (map (\<lambda>t. concat (map f (filter (\<lambda>k. k mod T = t) ks))) [0..<T])) = mset (concat (map f ks))"
proof -
  have split: "mset (concat (map g [0..<T])) = (\<Sum>t = 0..<T. mset (g t))" for g :: "nat \<Rightarrow> 'a list"
    by (simp add: mset_concat interv_sum_list_conv_sum_set_nat comp_def)
  have "(\<Sum>t = 0..<T. mset (concat (map f (filter (\<lambda>k. k mod T = t) ks)))) = mset (concat (map f ks))"
  proof (induction ks)
    case Nil
    show ?case by simp
  next
    case (Cons k ks)
    have "k mod T \<in> {0..<T}" using assms by simp
    then have one: "(\<Sum>t = 0..<T. if k mod T = t then mset (f k) else {#}) = mset (f k)"
      by simp
    have "(\<Sum>t = 0..<T. mset (concat (map f (filter (\<lambda>j. j mod T = t) (k # ks)))))
        = (\<Sum>t = 0..<T. (if k mod T = t then mset (f k) else {#})
              + mset (concat (map f (filter (\<lambda>j. j mod T = t) ks))))"
      by (rule sum.cong) auto
    also have "\<dots> = mset (f k) + mset (concat (map f ks))"
      by (simp only: sum.distrib one Cons.IH)
    finally show ?case by simp
  qed
  then show ?thesis by (simp only: split)
qed

lemma static_schedule_assignment:
  assumes "1 \<le> c" and "1 \<le> T"
  shows "assignment n (static_schedule n c T)"
proof -
  have "mset (concat (static_schedule n c T))
      = mset (concat (map (chunk_iters n c) [0..<num_chunks n c]))"
    unfolding static_schedule_def thread_iters_def
    using mset_residues [OF assms(2), of "chunk_iters n c" "[0..<num_chunks n c]"]
    by (simp add: thread_iters_def [abs_def])
  then show ?thesis
    by (simp add: assignment_def all_chunks [OF assms(1)])
qed

lemma concat_update:
  assumes "t < length team" and "team ! t = i # rest"
  shows "mset (concat team) = add_mset i (mset (concat (team[t := rest])))"
proof -
  have "concat team = concat (take t team @ (i # rest) # drop (Suc t) team)"
    using assms by (metis id_take_nth_drop)
  then have "mset (concat team) = mset (concat (take t team)) + add_mset i (mset rest)
      + mset (concat (drop (Suc t) team))"
    by simp
  moreover have "team[t := rest] = take t team @ rest # drop (Suc t) team"
    using assms by (simp add: upd_conv_take_nth_drop)
  then have "mset (concat (team[t := rest])) = mset (concat (take t team)) + mset rest
      + mset (concat (drop (Suc t) team))"
    by simp
  ultimately show ?thesis by simp
qed

lemma interleaving_mset: "interleaving team order \<Longrightarrow> mset order = mset (concat team)"
proof (induction order arbitrary: team)
  case Nil
  then have "\<forall>q\<in>set team. q = []" by (simp add: list_all_iff)
  then have "concat team = []" by simp
  then show ?case by simp
next
  case (Cons i order)
  from Cons.prems obtain t where "t < length team"
    and c: "case team ! t of [] \<Rightarrow> False | j # rest \<Rightarrow> j = i \<and> interleaving (team[t := rest]) order"
    by (auto simp: list_ex_iff)
  then obtain rest where t: "t < length team" "team ! t = i # rest"
    and rest: "interleaving (team[t := rest]) order"
    by (cases "team ! t") auto
  from Cons.IH [OF rest] concat_update [OF t] show ?case by simp
qed

lemma interleaving_set:
  "assignment n team \<Longrightarrow> interleaving team order \<Longrightarrow> set order = {0..<n}"
  by (metis assignment_def interleaving_mset set_mset_mset set_upt)

lemma interleaving_concat_aux: "interleaving (replicate k [] @ team) (concat team)"
proof (induction team arbitrary: k)
  case Nil
  show ?case by (simp add: list_all_iff)
next
  case (Cons q team)
  show ?case
  proof (induction q)
    case Nil
    from Cons.IH [of "Suc k"] show ?case
      by (simp add: replicate_app_Cons_same)
  next
    case (Cons i q)
    have "(replicate k [] @ (i # q) # team) ! k = i # q"
      by (simp add: nth_append)
    moreover have "(replicate k [] @ (i # q) # team)[k := q] = replicate k [] @ q # team"
      by (simp add: list_update_append)
    moreover have "k \<in> set [0..<length (replicate k [] @ (i # q) # team)]" by simp
    ultimately show ?case using Cons.IH
      by (auto simp: list_ex_iff intro!: bexI [of _ k])
  qed
qed

lemma interleaving_concat: "interleaving team (concat team)"
  using interleaving_concat_aux [of 0 team] by simp

lemma for_loop_invariant:
  assumes "I i s" and "i \<le> n"
    and "\<And>j s. i \<le> j \<Longrightarrow> j < n \<Longrightarrow> I j s \<Longrightarrow> \<exists>s'. body j s = Inr s' \<and> I (Suc j) s'"
  shows "\<exists>s'. for_loop i n body s = Inr s' \<and> I n s'"
  using assms
proof (induction i n body s rule: for_loop.induct)
  case (1 i n body s)
  show ?case
  proof (cases "i < n")
    case True
    with 1(2,4) obtain s' where s': "body i s = Inr s'" "I (Suc i) s'" by blast
    have "\<exists>s''. for_loop (Suc i) n body s' = Inr s'' \<and> I n s''"
      using True s' 1(4) by (intro 1(1)) auto
    then show ?thesis using True s' by (subst for_loop.simps) simp
  next
    case False
    with 1(2,3) show ?thesis by (subst for_loop.simps) simp
  qed
qed

lemma run_iters_preserves:
  assumes "\<And>j s s'. body j s = Inr s' \<Longrightarrow> f s' = f s"
  shows "run_iters body order s = Inr s' \<Longrightarrow> f s' = f s"
proof (induction order arbitrary: s)
  case Nil then show ?case by simp
next
  case (Cons i order)
  then show ?case using assms by (fastforce split: sum.splits)
qed

lemma for_loop_preserves:
  assumes "\<And>j s s'. body j s = Inr s' \<Longrightarrow> f s' = f s"
  shows "for_loop i n body s = Inr s' \<Longrightarrow> f s' = f s"
  unfolding for_loop_run_iters using assms by (rule run_iters_preserves)

lemma print_print [simp]: "print ys (print xs st) = print (xs @ ys) st"
  by (simp add: print_def)

lemma print_Nil [simp]: "print [] st = st"
  by (simp add: print_def)

lemma arr_get_Inr [simp]: "i < length d \<Longrightarrow> arr_get d i = Inr (d ! i)"
  by (simp add: arr_get_def)

lemma arr_set_Inr [simp]: "i < length d \<Longrightarrow> arr_set d i v = Inr (d[i := v])"
  by (simp add: arr_set_def)

lemma update_pointwise:
  assumes "length d = n" and "i < n"
  shows "map (\<lambda>j. if j \<in> S then f j else d[i := f i] ! j) [0..<n]
       = map (\<lambda>j. if j \<in> insert i S then f j else d ! j) [0..<n]"
  using assms by (auto simp: nth_list_update)

lemma suma_paralela_result:
  assumes "length (A st) = n" and "length (B st) = n" and "length (C_par st) = n"
    and "\<forall>i\<in>set order. i < n"
  shows "suma_paralela order st =
           Inr (st\<lparr>C_par := map (\<lambda>j. if j \<in> set order then A st ! j + B st ! j else C_par st ! j) [0..<n]\<rparr>)"
  using assms
proof (induction order arbitrary: st)
  case Nil
  then show ?case using map_nth [of "C_par st"] by (simp add: suma_paralela_def)
next
  case (Cons i order)
  let ?st = "st\<lparr>C_par := (C_par st)[i := A st ! i + B st ! i]\<rparr>"
  have step: "suma_paralela_iter i st = Inr ?st"
    using Cons.prems by (simp add: suma_paralela_iter_def C_par_set_def)
  have "suma_paralela order ?st =
          Inr (?st\<lparr>C_par := map (\<lambda>j. if j \<in> set order then A ?st ! j + B ?st ! j else C_par ?st ! j) [0..<n]\<rparr>)"
    using Cons.prems by (intro Cons.IH) simp_all
  then show ?case
    using Cons.prems step update_pointwise [of "C_par st" n i "set order" "\<lambda>j. A st ! j + B st ! j"]
    by (simp add: suma_paralela_def)
qed

lemma suma_secuencial_order:
  assumes "length (A st) = n" and "length (B st) = n" and "length (C_seq st) = n"
    and "\<forall>i\<in>set order. i < n"
  shows "run_iters suma_secuencial_iter order st =
           Inr (st\<lparr>C_seq := map (\<lambda>j. if j \<in> set order then A st ! j + B st ! j else C_seq st ! j) [0..<n]\<rparr>)"
  using assms
proof (induction order arbitrary: st)
  case Nil
  then show ?case using map_nth [of "C_seq st"] by simp
next
  case (Cons i order)
  let ?st = "st\<lparr>C_seq := (C_seq st)[i := A st ! i + B st ! i]\<rparr>"
  have step: "suma_secuencial_iter i st = Inr ?st"
    using Cons.prems by (simp add: suma_secuencial_iter_def C_seq_set_def)
  have "run_iters suma_secuencial_iter order ?st =
          Inr (?st\<lparr>C_seq := map (\<lambda>j. if j \<in> set order then A ?st ! j + B ?st ! j else C_seq ?st ! j) [0..<n]\<rparr>)"
    using Cons.prems by (intro Cons.IH) simp_all
  then show ?case
    using Cons.prems step update_pointwise [of "C_seq st" n i "set order" "\<lambda>j. A st ! j + B st ! j"]
    by simp
qed

lemma sol_suma_secuencial_order:
  assumes "length (sol_state.A st) = n" and "length (sol_state.B st) = n" and "length (R st) = n"
    and "\<forall>i\<in>set order. i < n"
  shows "run_iters sol_suma_secuencial_iter order st =
           Inr (st\<lparr>R := map (\<lambda>j. if j \<in> set order then sol_state.A st ! j + sol_state.B st ! j else R st ! j) [0..<n]\<rparr>)"
  using assms
proof (induction order arbitrary: st)
  case Nil
  then show ?case using map_nth [of "R st"] by simp
next
  case (Cons i order)
  let ?st = "st\<lparr>R := (R st)[i := sol_state.A st ! i + sol_state.B st ! i]\<rparr>"
  have step: "sol_suma_secuencial_iter i st = Inr ?st"
    using Cons.prems by (simp add: sol_suma_secuencial_iter_def R_set_def)
  have "run_iters sol_suma_secuencial_iter order ?st =
          Inr (?st\<lparr>R := map (\<lambda>j. if j \<in> set order then sol_state.A ?st ! j + sol_state.B ?st ! j else R ?st ! j) [0..<n]\<rparr>)"
    using Cons.prems by (intro Cons.IH) simp_all
  then show ?case
    using Cons.prems step update_pointwise [of "R st" n i "set order" "\<lambda>j. sol_state.A st ! j + sol_state.B st ! j"]
    by simp
qed

lemma sol_suma_paralela_result:
  assumes "length (sol_state.A st) = n" and "length (sol_state.B st) = n" and "length (Rpar st) = n"
    and "\<forall>i\<in>set order. i < n"
  shows "sol_suma_paralela order st =
           Inr (st\<lparr>Rpar := map (\<lambda>j. if j \<in> set order then sol_state.A st ! j + sol_state.B st ! j else Rpar st ! j) [0..<n]\<rparr>)"
  using assms
proof (induction order arbitrary: st)
  case Nil
  then show ?case using map_nth [of "Rpar st"] by (simp add: sol_suma_paralela_def)
next
  case (Cons i order)
  let ?st = "st\<lparr>Rpar := (Rpar st)[i := sol_state.A st ! i + sol_state.B st ! i]\<rparr>"
  have step: "sol_suma_paralela_iter i st = Inr ?st"
    using Cons.prems by (simp add: sol_suma_paralela_iter_def Rpar_set_def)
  have "sol_suma_paralela order ?st =
          Inr (?st\<lparr>Rpar := map (\<lambda>j. if j \<in> set order then sol_state.A ?st ! j + sol_state.B ?st ! j else Rpar ?st ! j) [0..<n]\<rparr>)"
    using Cons.prems by (intro Cons.IH) simp_all
  then show ?case
    using Cons.prems step update_pointwise [of "Rpar st" n i "set order" "\<lambda>j. sol_state.A st ! j + sol_state.B st ! j"]
    by (simp add: sol_suma_paralela_def)
qed

lemma suma_secuencial_eq:
  assumes "length (A st) = n" and "length (B st) = n" and "length (C_seq st) = n"
  shows "suma_secuencial n st = Inr (st\<lparr>C_seq := spec_sum (A st) (B st) n\<rparr>)"
  using suma_secuencial_order [OF assms, of "[0..<n]"]
  by (simp add: suma_secuencial_def for_loop_run_iters spec_sum_def)

lemma suma_paralela_eq:
  assumes "length (A st) = n" and "length (B st) = n" and "length (C_par st) = n"
    and "set order = {0..<n}"
  shows "suma_paralela order st = Inr (st\<lparr>C_par := spec_sum (A st) (B st) n\<rparr>)"
  using suma_paralela_result [OF assms(1-3), of order] assms(4)
  by (simp add: spec_sum_def)

lemma sol_suma_secuencial_eq:
  assumes "length (sol_state.A st) = n" and "length (sol_state.B st) = n" and "length (R st) = n"
  shows "sol_suma_secuencial n st = Inr (st\<lparr>R := spec_sum (sol_state.A st) (sol_state.B st) n\<rparr>)"
  using sol_suma_secuencial_order [OF assms, of "[0..<n]"]
  by (simp add: sol_suma_secuencial_def for_loop_run_iters spec_sum_def)

lemma sol_suma_paralela_eq:
  assumes "length (sol_state.A st) = n" and "length (sol_state.B st) = n" and "length (Rpar st) = n"
    and "set order = {0..<n}"
  shows "sol_suma_paralela order st = Inr (st\<lparr>Rpar := spec_sum (sol_state.A st) (sol_state.B st) n\<rparr>)"
  using sol_suma_paralela_result [OF assms(1-3), of order] assms(4)
  by (simp add: spec_sum_def)

lemma omp_main_for_set: "omp_main_for n c T order \<Longrightarrow> set order = {0..<n}"
  unfolding omp_main_for_def
  using static_schedule_assignment interleaving_set by blast

lemma omp_sol_for_set: "omp_sol_for n team order \<Longrightarrow> set order = {0..<n}"
  unfolding omp_sol_for_def using interleaving_set by blast

lemma spec_sum_nth: "i < n \<Longrightarrow> spec_sum a b n ! i = a ! i + b ! i"
  by (simp add: spec_sum_def)

lemma length_spec_sum: "length (spec_sum a b n) = n"
  by (simp add: spec_sum_def)

subsection \<open>Generation and exact sums\<close>

lemma sint_sum_exact:
  fixes x y :: int32
  assumes "1 \<le> sint x" "sint x \<le> 1000" "1 \<le> sint y" "sint y \<le> 1000"
  shows "sint (x + y) = sint x + sint y"
proof -
  have "- (2 ^ 31) \<le> sint x + sint y" "sint x + sint y < 2 ^ 31"
    using assms by simp_all
  then show ?thesis
    by (simp add: sint_word_add signed_take_bit_int_eq_self)
qed

lemma inicializacion_iter_eq:
  assumes "j < length (A s)" "j < length (B s)" "j < length (C_seq s)" "j < length (C_par s)"
  shows "inicializacion_iter dist j s =
     Inr (s\<lparr>gen := snd (dist (snd (dist (gen s)))),
            A := (A s)[j := fst (dist (gen s))],
            B := (B s)[j := fst (dist (snd (dist (gen s))))],
            C_seq := (C_seq s)[j := 0], C_par := (C_par s)[j := 0]\<rparr>)"
  using assms
  by (simp add: inicializacion_iter_def draw_def A_set_def B_set_def C_seq_set_def C_par_set_def
      split_def Let_def)

lemma sol_generacion_iter_eq:
  assumes "j < length (sol_state.A s)" "j < length (sol_state.B s)"
  shows "sol_generacion_iter dist j s =
     Inr (s\<lparr>gen := snd (dist (snd (dist (gen s)))),
            sol_state.A := (sol_state.A s)[j := fst (dist (gen s))],
            sol_state.B := (sol_state.B s)[j := fst (dist (snd (dist (gen s))))]\<rparr>)"
  using assms
  by (simp add: sol_generacion_iter_def draw_def sol_A_set_def sol_B_set_def split_def Let_def)

lemma inicializacion_loop:
  fixes st :: "('g, 'd) main_state"
  assumes len: "length (A st) = n" "length (B st) = n" "length (C_seq st) = n" "length (C_par st) = n"
    and P: "\<And>g. P (fst (dist g))"
  shows "\<exists>s. for_loop 0 n (inicializacion_iter dist) st = Inr s
            \<and> length (A s) = n \<and> length (B s) = n \<and> length (C_seq s) = n \<and> length (C_par s) = n
            \<and> cout s = cout st \<and> (\<forall>k<n. P (A s ! k) \<and> P (B s ! k))"
proof -
  let ?I = "\<lambda>j (s :: ('g, 'd) main_state). length (A s) = n \<and> length (B s) = n \<and> length (C_seq s) = n \<and> length (C_par s) = n
            \<and> cout s = cout st \<and> (\<forall>k<j. P (A s ! k) \<and> P (B s ! k))"
  have "\<exists>s. for_loop 0 n (inicializacion_iter dist) st = Inr s \<and> ?I n s"
  proof (rule for_loop_invariant [where I = ?I])
    show "?I 0 st" using len by simp
    show "0 \<le> n" by simp
    fix j and s :: "('g, 'd) main_state" assume "j < n" "?I j s"
    then show "\<exists>s'. inicializacion_iter dist j s = Inr s' \<and> ?I (Suc j) s'"
      using P by (simp add: inicializacion_iter_eq nth_list_update less_Suc_eq)
  qed
  then show ?thesis by blast
qed

lemma sol_generacion_loop:
  fixes st :: "('g, 'd) sol_state"
  assumes len: "length (sol_state.A st) = n" "length (sol_state.B st) = n"
    and P: "\<And>g. P (fst (dist g))"
  shows "\<exists>s. for_loop 0 n (sol_generacion_iter dist) st = Inr s
            \<and> length (sol_state.A s) = n \<and> length (sol_state.B s) = n
            \<and> R s = R st \<and> Rpar s = Rpar st
            \<and> cout s = cout st \<and> (\<forall>k<n. P (sol_state.A s ! k) \<and> P (sol_state.B s ! k))"
proof -
  let ?I = "\<lambda>j (s :: ('g, 'd) sol_state). length (sol_state.A s) = n \<and> length (sol_state.B s) = n
            \<and> R s = R st \<and> Rpar s = Rpar st
            \<and> cout s = cout st \<and> (\<forall>k<j. P (sol_state.A s ! k) \<and> P (sol_state.B s ! k))"
  have "\<exists>s. for_loop 0 n (sol_generacion_iter dist) st = Inr s \<and> ?I n s"
  proof (rule for_loop_invariant [where I = ?I])
    show "?I 0 st" using len by simp
    show "0 \<le> n" by simp
    fix j and s :: "('g, 'd) sol_state" assume "j < n" "?I j s"
    then show "\<exists>s'. sol_generacion_iter dist j s = Inr s' \<and> ?I (Suc j) s'"
      using P by (simp add: sol_generacion_iter_eq nth_list_update less_Suc_eq)
  qed
  then show ?thesis by blast
qed

lemma spec_sum_range:
  assumes "i < n" and "1 \<le> sint (a ! i)" and "sint (a ! i) \<le> 1000"
    and "1 \<le> sint (b ! i)" and "sint (b ! i) \<le> 1000"
  shows "sint (spec_sum a b n ! i) = sint (a ! i) + sint (b ! i)
      \<and> 2 \<le> sint (a ! i) + sint (b ! i) \<and> sint (a ! i) + sint (b ! i) \<le> 2000"
  using assms by (simp add: spec_sum_nth sint_sum_exact)

subsection \<open>The verifier\<close>

lemma comparacion_all_equal:
  "(\<forall>j. i \<le> j \<and> j < n \<longrightarrow> j < length (C_seq st) \<and> j < length (C_par st) \<and> C_seq st ! j = C_par st ! j)
   \<Longrightarrow> comparacion i n st = Inr (True, st)"
proof (induction i n st rule: comparacion.induct)
  case (1 i n st)
  show ?case
  proof (cases "i < n")
    case True
    with "1.prems" have here: "i < length (C_seq st)" "i < length (C_par st)" "C_seq st ! i = C_par st ! i"
      by auto
    have "comparacion (Suc i) n st = Inr (True, st)"
      using True here "1.prems" by (intro "1.IH") auto
    with True here show ?thesis
      by (subst comparacion.simps) simp
  next
    case False
    then show ?thesis by (subst comparacion.simps) simp
  qed
qed

lemma comparacion_mismatch:
  "i \<le> k \<Longrightarrow> k < n \<Longrightarrow> k < length (C_seq st) \<Longrightarrow> k < length (C_par st)
   \<Longrightarrow> C_seq st ! k \<noteq> C_par st ! k
   \<Longrightarrow> (\<forall>j. i \<le> j \<and> j < k \<longrightarrow> C_seq st ! j = C_par st ! j)
   \<Longrightarrow> comparacion i n st =
         Inr (False, print [Str ''\<newline>[ERROR] Diferencia en i='', Num (of_nat k),
                            Str '' C_seq='', Num (C_seq st ! k), Str '' C_par='', Num (C_par st ! k), Endl] st)"
proof (induction i n st rule: comparacion.induct)
  case (1 i n st)
  show ?case
  proof (cases "i = k")
    case True
    with "1.prems" show ?thesis
      by (subst comparacion.simps) simp
  next
    case False
    with "1.prems" have lt: "i < k" "i < n" "i < length (C_seq st)" "i < length (C_par st)"
      and eq: "C_seq st ! i = C_par st ! i"
      by auto
    have "comparacion (Suc i) n st =
         Inr (False, print [Str ''\<newline>[ERROR] Diferencia en i='', Num (of_nat k),
                            Str '' C_seq='', Num (C_seq st ! k), Str '' C_par='', Num (C_par st ! k), Endl] st)"
      using lt eq "1.prems" by (intro "1.IH") auto
    with lt eq show ?thesis
      by (subst comparacion.simps) simp
  qed
qed

lemma first_mismatch:
  fixes xs ys :: "'a list"
  assumes "\<exists>i<n. xs ! i \<noteq> ys ! i"
  shows "\<exists>k<n. xs ! k \<noteq> ys ! k \<and> (\<forall>i<k. xs ! i = ys ! i)"
proof -
  let ?k = "LEAST i. i < n \<and> xs ! i \<noteq> ys ! i"
  from assms have "?k < n \<and> xs ! ?k \<noteq> ys ! ?k"
    by (metis (mono_tags, lifting) LeastI)
  moreover have "\<forall>i<?k. xs ! i = ys ! i"
    using calculation by (metis (mono_tags, lifting) not_less_Least less_trans)
  ultimately show ?thesis by blast
qed

lemma verificacion_ok:
  assumes "length (C_seq st) = n" and "length (C_par st) = n"
    and "\<forall>i<n. C_seq st ! i = C_par st ! i"
  shows "verificacion n st =
     Inr (True, print [Str ''\<newline>Verificacion (C_seq == C_par): '', Str ''OK'', Endl] st)"
  using assms by (simp add: verificacion_def comparacion_all_equal)

lemma verificacion_fallo:
  assumes "k < n" and "k < length (C_seq st)" and "k < length (C_par st)"
    and "C_seq st ! k \<noteq> C_par st ! k" and "\<forall>i<k. C_seq st ! i = C_par st ! i"
  shows "verificacion n st =
     Inr (False, print [Str ''\<newline>[ERROR] Diferencia en i='', Num (of_nat k),
                        Str '' C_seq='', Num (C_seq st ! k), Str '' C_par='', Num (C_par st ! k), Endl,
                        Str ''\<newline>Verificacion (C_seq == C_par): '', Str ''FALLO'', Endl] st)"
  using assms by (simp add: verificacion_def comparacion_mismatch [of 0 k])

subsection \<open>Printing\<close>

lemma main_fields_print [simp]:
  "A (print xs st) = A st" "B (print xs st) = B st"
  "C_seq (print xs st) = C_seq st" "C_par (print xs st) = C_par st"
  by (simp_all add: print_def)

lemma sol_fields_print [simp]:
  "sol_state.A (print xs ss) = sol_state.A ss" "sol_state.B (print xs ss) = sol_state.B ss"
  "R (print xs ss) = R ss" "Rpar (print xs ss) = Rpar ss"
  by (simp_all add: print_def)

lemma process_fields_print [simp]:
  "cout (print xs st) = cout st @ xs" "gen (print xs st) = gen st"
  by (simp_all add: print_def)

lemma print_order:
  assumes "\<forall>x\<in>set order. x < length d"
  shows "run_iters (\<lambda>x st. ebind (arr_get d x) (\<lambda>v. Inr (print [Num v, Str '' ''] st))) order st
       = Inr (print (elements_out (map ((!) d) order)) st)"
  using assms
proof (induction order arbitrary: st)
  case Nil
  show ?case by (simp add: elements_out_def)
next
  case (Cons x order)
  then show ?case by (simp add: elements_out_def)
qed

lemma take_as_map: "n \<le> length d \<Longrightarrow> map ((!) d) [0..<n] = take n d"
proof -
  assume n: "n \<le> length d"
  have "take n d = take n (map ((!) d) [0..<length d])" by (simp add: map_nth)
  also have "\<dots> = map ((!) d) [0..<n]" using n by (simp add: take_map)
  finally show ?thesis by simp
qed

lemma print_loop:
  assumes "n \<le> length d"
  shows "for_loop 0 n (\<lambda>x st. ebind (arr_get d x) (\<lambda>v. Inr (print [Num v, Str '' ''] st))) st
       = Inr (print (elements_out (take n d)) st)"
  using assms print_order [of "[0..<n]" d st]
  by (simp add: for_loop_run_iters take_as_map)

lemma run_iters_append:
  "run_iters body (xs @ ys) s =
     (case run_iters body xs s of Inl e \<Rightarrow> Inl e | Inr s' \<Rightarrow> run_iters body ys s')"
  by (induction xs arbitrary: s) (simp_all split: sum.splits)

lemma print_loop_short:
  fixes st :: "('g, 'd, 'z) process_scheme"
  assumes "length d < n"
  shows "for_loop 0 n (\<lambda>x st. ebind (arr_get d x) (\<lambda>v. Inr (print [Num v, Str '' ''] st))) st
       = Inl OutOfBounds"
proof -
  let ?body = "\<lambda>x st. ebind (arr_get d x) (\<lambda>v. Inr (print [Num v, Str '' ''] st))"
  have "[0..<n] = [0..<length d] @ [length d..<n]"
    using assms upt_add_eq_append [of 0 "length d" "n - length d"] by simp
  also have "[length d..<n] = length d # [Suc (length d)..<n]"
    using assms by (simp add: upt_conv_Cons)
  finally have split: "[0..<n] = [0..<length d] @ length d # [Suc (length d)..<n]" .
  have before: "run_iters ?body [0..<length d] st
       = Inr (print (elements_out (map ((!) d) [0..<length d])) st)"
    by (rule print_order) simp
  have stop: "run_iters ?body (length d # rest) s = Inl OutOfBounds"
    for rest and s :: "('g, 'd, 'z) process_scheme"
    by (simp add: arr_get_def)
  show ?thesis
    by (simp only: for_loop_run_iters split run_iters_append before stop sum.case)
qed

lemma imprimeArreglo_eq:
  assumes "mostrar \<le> length d"
  shows "imprimeArreglo d nombre st =
     Inr (print ([Str ''Arreglo '', Str nombre, Str '' (primeros '', Num 10, Str ''): '']
                 @ elements_out (take 10 d) @ [Endl]) st)"
  using assms by (simp add: imprimeArreglo_def print_loop Let_def mostrar_def)

lemma imprimeArreglo_short:
  "length d < mostrar \<Longrightarrow> imprimeArreglo d nombre st = Inl OutOfBounds"
  by (simp add: imprimeArreglo_def print_loop_short Let_def)

lemma sol_linea_eq:
  assumes "n \<le> length d"
  shows "sol_linea etiqueta d n st =
     Inr (print ([Str etiqueta] @ elements_out (take n d) @ [Endl]) st)"
  using assms by (simp add: sol_linea_def print_loop Let_def)

lemma vista_previa_eq:
  assumes "mostrar \<le> length (A st)" and "mostrar \<le> length (B st)" and "mostrar \<le> length (C_par st)"
  shows "vista_previa st =
     Inr (print ([Str ''Arreglo '', Str ''A'', Str '' (primeros '', Num 10, Str ''): '']
                 @ elements_out (take 10 (A st)) @ [Endl]
                 @ [Str ''Arreglo '', Str ''B'', Str '' (primeros '', Num 10, Str ''): '']
                 @ elements_out (take 10 (B st)) @ [Endl]
                 @ [Str ''Arreglo '', Str ''C (paralelo)'', Str '' (primeros '', Num 10, Str ''): '']
                 @ elements_out (take 10 (C_par st)) @ [Endl]) st)"
  using assms by (simp add: vista_previa_def imprimeArreglo_eq)

lemma sol_impresion_eq:
  assumes "n \<le> length (sol_state.A ss)" and "n \<le> length (sol_state.B ss)" and "n \<le> length (Rpar ss)"
  shows "sol_impresion n ss =
     Inr (print ([Str ''Arreglo A: ''] @ elements_out (take n (sol_state.A ss)) @ [Endl]
                 @ [Str ''Arreglo B: ''] @ elements_out (take n (sol_state.B ss)) @ [Endl]
                 @ [Str ''Arreglo Resultado (Paralelo): ''] @ elements_out (take n (Rpar ss)) @ [Endl]) ss)"
  using assms by (simp add: sol_impresion_def sol_linea_eq)

lemma reporte_tiempos_eq:
  "reporte_tiempos ts tp st =
     print [Fixed, SetPrecision 4, Str ''\<newline>Tiempo secuencial (ms): '', Dbl ts, Endl,
            Str ''Tiempo paralelo   (ms): '', Dbl tp, Endl] st"
  by (simp add: reporte_tiempos_def Let_def)

subsection \<open>The programs as a whole\<close>

lemma main_entry_mostrar:
  "main_entry st \<Longrightarrow> mostrar \<le> length (A st) \<and> mostrar \<le> length (B st) \<and> mostrar \<le> length (C_par st)"
  by (simp add: main_entry_def N_def mostrar_def)

lemma vista_previa_lines:
  assumes "main_entry st"
  shows "vista_previa st =
     Inr (print (preview_line ''A'' (A st) @ preview_line ''B'' (B st)
                 @ preview_line ''C (paralelo)'' (C_par st)) st)"
  using main_entry_mostrar [OF assms] by (simp add: vista_previa_eq preview_line_def)

lemma main_informe_ok:
  assumes "main_entry st" and "C_seq st = C_par st"
  shows "main_informe ts tp st =
     Inr (print (preview_line ''A'' (A st) @ preview_line ''B'' (B st)
                 @ preview_line ''C (paralelo)'' (C_par st)
                 @ status_line True @ timing_lines ts tp) st, 0)"
proof -
  let ?st = "print (preview_line ''A'' (A st) @ preview_line ''B'' (B st)
                 @ preview_line ''C (paralelo)'' (C_par st)) st"
  have "verificacion N ?st = Inr (True, print (status_line True) ?st)"
    unfolding status_line_def using assms
    by (intro verificacion_ok [THEN trans]) (simp_all add: main_entry_def)
  then show ?thesis
    by (simp add: main_informe_def vista_previa_lines [OF assms(1)] reporte_tiempos_eq
        timing_lines_def)
qed

lemma main_informe_fallo:
  assumes "main_entry st" and "k < N" and "C_seq st ! k \<noteq> C_par st ! k"
    and "\<forall>i<k. C_seq st ! i = C_par st ! i"
  shows "main_informe ts tp st =
     Inr (print (preview_line ''A'' (A st) @ preview_line ''B'' (B st)
                 @ preview_line ''C (paralelo)'' (C_par st)
                 @ mismatch_report k (C_seq st ! k) (C_par st ! k)
                 @ status_line False @ timing_lines ts tp) st, 0)"
proof -
  let ?st = "print (preview_line ''A'' (A st) @ preview_line ''B'' (B st)
                 @ preview_line ''C (paralelo)'' (C_par st)) st"
  have "verificacion N ?st =
      Inr (False, print (mismatch_report k (C_seq st ! k) (C_par st ! k) @ status_line False) ?st)"
    unfolding status_line_def mismatch_report_def using assms
    by (intro verificacion_fallo [of k, THEN trans]) (simp_all add: main_entry_def)
  then show ?thesis
    by (simp add: main_informe_def vista_previa_lines [OF assms(1)] reporte_tiempos_eq
        timing_lines_def)
qed

lemma main_cpp_eq:
  fixes st0 :: "('g, 'd) main_state"
  assumes "main_entry st0" and "omp_main_for N chunk T order"
  shows "\<exists>st1. inicializacion uid N (print [Str ''Sumando Arreglos en Paralelo (OpenMP)\<newline>''] st0) = Inr st1
          \<and> main_entry st1
          \<and> cout st1 = cout st0 @ [Str ''Sumando Arreglos en Paralelo (OpenMP)\<newline>'']
          \<and> main_cpp uid order ts tp st0 =
              Inr (print (preview_line ''A'' (A st1) @ preview_line ''B'' (B st1)
                          @ preview_line ''C (paralelo)'' (spec_sum (A st1) (B st1) N)
                          @ status_line True @ timing_lines ts tp)
                     (st1\<lparr>C_seq := spec_sum (A st1) (B st1) N,
                          C_par := spec_sum (A st1) (B st1) N\<rparr>), 0)"
proof -
  let ?st = "print [Str ''Sumando Arreglos en Paralelo (OpenMP)\<newline>''] st0"
  have len: "length (A ?st) = N" "length (B ?st) = N" "length (C_seq ?st) = N" "length (C_par ?st) = N"
    using assms(1) by (simp_all add: main_entry_def)
  from inicializacion_loop [where P = "\<lambda>_. True" and dist = "uid 1 1000", OF len]
  obtain st1 where st1: "inicializacion uid N ?st = Inr st1"
    and len1: "length (A st1) = N" "length (B st1) = N" "length (C_seq st1) = N" "length (C_par st1) = N"
    and out1: "cout st1 = cout ?st"
    unfolding inicializacion_def by auto
  let ?S = "spec_sum (A st1) (B st1) N"
  let ?st2 = "st1\<lparr>C_seq := ?S\<rparr>"
  let ?st3 = "st1\<lparr>C_seq := ?S, C_par := ?S\<rparr>"
  have seq: "suma_secuencial N st1 = Inr ?st2"
    using len1(1-3) by (rule suma_secuencial_eq)
  have par: "suma_paralela order ?st2 = Inr ?st3"
    using suma_paralela_eq [of ?st2 N order] len1 omp_main_for_set [OF assms(2)] by simp
  have "main_entry ?st3"
    using len1 by (simp add: main_entry_def length_spec_sum)
  then have inf: "main_informe ts tp ?st3 =
     Inr (print (preview_line ''A'' (A ?st3) @ preview_line ''B'' (B ?st3)
                 @ preview_line ''C (paralelo)'' (C_par ?st3)
                 @ status_line True @ timing_lines ts tp) ?st3, 0)"
    by (rule main_informe_ok) simp
  have "main_cpp uid order ts tp st0 = main_informe ts tp ?st3"
    by (simp add: main_cpp_def Let_def st1 seq par)
  with inf st1 len1 out1 show ?thesis
    by (simp add: main_entry_def)
qed

lemma sol_main_eq:
  assumes "omp_sol_for n_sol team order"
  shows "\<exists>ss1. sol_generacion uid n_sol (sol_entry g0 n_sol) = Inr ss1
          \<and> length (sol_state.A ss1) = n_sol \<and> length (sol_state.B ss1) = n_sol
          \<and> cout ss1 = []
          \<and> sol_main uid g0 order ts tp =
              Inr (print (array_line ''Arreglo A: '' (sol_state.A ss1)
                          @ array_line ''Arreglo B: '' (sol_state.B ss1)
                          @ array_line ''Arreglo Resultado (Paralelo): ''
                              (spec_sum (sol_state.A ss1) (sol_state.B ss1) n_sol)
                          @ timing_lines ts tp)
                     (ss1\<lparr>R := spec_sum (sol_state.A ss1) (sol_state.B ss1) n_sol,
                          Rpar := spec_sum (sol_state.A ss1) (sol_state.B ss1) n_sol\<rparr>), 0)"
proof -
  let ?ss = "sol_entry g0 n_sol :: ('a, 'b) sol_state"
  have len: "length (sol_state.A ?ss) = n_sol" "length (sol_state.B ?ss) = n_sol"
    by (simp_all add: sol_entry_def)
  from sol_generacion_loop [where P = "\<lambda>_. True" and dist = "uid 1 1000", OF len]
  obtain ss1 where ss1: "sol_generacion uid n_sol ?ss = Inr ss1"
    and len1: "length (sol_state.A ss1) = n_sol" "length (sol_state.B ss1) = n_sol"
    and rest: "R ss1 = R ?ss" "Rpar ss1 = Rpar ?ss" "cout ss1 = cout ?ss"
    unfolding sol_generacion_def by auto
  have len2: "length (R ss1) = n_sol" "length (Rpar ss1) = n_sol" "cout ss1 = []"
    using rest by (simp_all add: sol_entry_def)
  let ?S = "spec_sum (sol_state.A ss1) (sol_state.B ss1) n_sol"
  let ?ss2 = "ss1\<lparr>R := ?S\<rparr>"
  let ?ss3 = "ss1\<lparr>R := ?S, Rpar := ?S\<rparr>"
  have seq: "sol_suma_secuencial n_sol ss1 = Inr ?ss2"
    using len1 len2(1) by (rule sol_suma_secuencial_eq)
  have par: "sol_suma_paralela order ?ss2 = Inr ?ss3"
    using sol_suma_paralela_eq [of ?ss2 n_sol order] len1 len2 omp_sol_for_set [OF assms] by simp
  have imp: "sol_impresion n_sol ?ss3 =
     Inr (print (array_line ''Arreglo A: '' (sol_state.A ss1)
                 @ array_line ''Arreglo B: '' (sol_state.B ss1)
                 @ array_line ''Arreglo Resultado (Paralelo): '' ?S) ?ss3)"
    using len1 by (simp add: sol_impresion_eq array_line_def length_spec_sum)
  have "sol_main uid g0 order ts tp =
      Inr (reporte_tiempos ts tp (print (array_line ''Arreglo A: '' (sol_state.A ss1)
                 @ array_line ''Arreglo B: '' (sol_state.B ss1)
                 @ array_line ''Arreglo Resultado (Paralelo): '' ?S) ?ss3), 0)"
    by (simp add: sol_main_def Let_def ss1 seq par imp)
  with ss1 len1 len2 show ?thesis
    by (simp add: reporte_tiempos_eq timing_lines_def)
qed

lemma verificacion_total:
  fixes st :: "('g, 'd) main_state"
  assumes "length (C_seq st) = n" and "length (C_par st) = n"
  shows "\<exists>r. verificacion n st = Inr r"
proof (cases "C_seq st = C_par st")
  case True
  with assms have "verificacion n st =
     Inr (True, print [Str ''\<newline>Verificacion (C_seq == C_par): '', Str ''OK'', Endl] st)"
    by (intro verificacion_ok) simp_all
  then show ?thesis by (rule exI)
next
  case False
  with assms have "\<exists>i<n. C_seq st ! i \<noteq> C_par st ! i"
    by (auto simp: list_eq_iff_nth_eq)
  then obtain k where "k < n" "C_seq st ! k \<noteq> C_par st ! k" "\<forall>i<k. C_seq st ! i = C_par st ! i"
    using first_mismatch by blast
  with assms have "verificacion n st =
     Inr (False, print [Str ''\<newline>[ERROR] Diferencia en i='', Num (of_nat k),
                        Str '' C_seq='', Num (C_seq st ! k), Str '' C_par='', Num (C_par st ! k), Endl,
                        Str ''\<newline>Verificacion (C_seq == C_par): '', Str ''FALLO'', Endl] st)"
    by (intro verificacion_fallo) simp_all
  then show ?thesis by (rule exI)
qed

subsection \<open>What the phases leave unchanged\<close>

lemma suma_secuencial_iter_frame:
  "suma_secuencial_iter i st = Inr st' \<Longrightarrow> A st' = A st \<and> B st' = B st"
  by (auto simp: suma_secuencial_iter_def C_seq_set_def ebind_def arr_get_def arr_set_def
      split: if_splits)

lemma suma_paralela_iter_frame:
  "suma_paralela_iter i st = Inr st' \<Longrightarrow> A st' = A st \<and> B st' = B st"
  by (auto simp: suma_paralela_iter_def C_par_set_def ebind_def arr_get_def arr_set_def
      split: if_splits)

lemma sol_suma_secuencial_iter_frame:
  "sol_suma_secuencial_iter i ss = Inr ss' \<Longrightarrow> sol_state.A ss' = sol_state.A ss \<and> sol_state.B ss' = sol_state.B ss"
  by (auto simp: sol_suma_secuencial_iter_def R_set_def ebind_def arr_get_def arr_set_def
      split: if_splits)

lemma sol_suma_paralela_iter_frame:
  "sol_suma_paralela_iter i ss = Inr ss' \<Longrightarrow> sol_state.A ss' = sol_state.A ss \<and> sol_state.B ss' = sol_state.B ss"
  by (auto simp: sol_suma_paralela_iter_def Rpar_set_def ebind_def arr_get_def arr_set_def
      split: if_splits)

lemma suma_secuencial_frame:
  assumes "suma_secuencial n st = Inr st'"
  shows "A st' = A st \<and> B st' = B st"
proof -
  have "(A st', B st') = (A st, B st)"
    using assms unfolding suma_secuencial_def
    by (rule for_loop_preserves [rotated]) (simp add: suma_secuencial_iter_frame)
  then show ?thesis by simp
qed

lemma suma_paralela_frame:
  assumes "suma_paralela order st = Inr st'"
  shows "A st' = A st \<and> B st' = B st"
proof -
  have "(A st', B st') = (A st, B st)"
    using assms unfolding suma_paralela_def
    by (rule run_iters_preserves [rotated]) (simp add: suma_paralela_iter_frame)
  then show ?thesis by simp
qed

lemma sol_suma_secuencial_frame:
  assumes "sol_suma_secuencial n ss = Inr ss'"
  shows "sol_state.A ss' = sol_state.A ss \<and> sol_state.B ss' = sol_state.B ss"
proof -
  have "(sol_state.A ss', sol_state.B ss') = (sol_state.A ss, sol_state.B ss)"
    using assms unfolding sol_suma_secuencial_def
    by (rule for_loop_preserves [rotated]) (simp add: sol_suma_secuencial_iter_frame)
  then show ?thesis by simp
qed

lemma sol_suma_paralela_frame:
  assumes "sol_suma_paralela order ss = Inr ss'"
  shows "sol_state.A ss' = sol_state.A ss \<and> sol_state.B ss' = sol_state.B ss"
proof -
  have "(sol_state.A ss', sol_state.B ss') = (sol_state.A ss, sol_state.B ss)"
    using assms unfolding sol_suma_paralela_def
    by (rule run_iters_preserves [rotated]) (simp add: sol_suma_paralela_iter_frame)
  then show ?thesis by simp
qed

lemma print_loop_frame:
  assumes "for_loop 0 n (\<lambda>x st. ebind (arr_get d x) (\<lambda>v. Inr (print [Num v, Str '' ''] st))) st = Inr st'"
  shows "process.more st' = process.more st"
  using assms
  by (rule for_loop_preserves [rotated])
    (auto simp: ebind_def arr_get_def print_def split: if_splits)

lemma imprimeArreglo_frame:
  assumes "imprimeArreglo d nombre st = Inr st'"
  shows "process.more st' = process.more st"
proof -
  let ?st = "print [Str ''Arreglo '', Str nombre, Str '' (primeros '', Num (of_nat mostrar), Str ''): ''] st"
  from assms obtain s where s: "for_loop 0 mostrar
      (\<lambda>x st. ebind (arr_get d x) (\<lambda>v. Inr (print [Num v, Str '' ''] st))) ?st = Inr s"
    and st': "st' = print [Endl] s"
    by (auto simp: imprimeArreglo_def Let_def ebind_def split: sum.splits)
  from print_loop_frame [OF s] st' show ?thesis by (simp add: print_def)
qed

lemma sol_linea_frame:
  assumes "sol_linea etiqueta d n st = Inr st'"
  shows "process.more st' = process.more st"
proof -
  from assms obtain s where s: "for_loop 0 n
      (\<lambda>x st. ebind (arr_get d x) (\<lambda>v. Inr (print [Num v, Str '' ''] st))) (print [Str etiqueta] st) = Inr s"
    and st': "st' = print [Endl] s"
    by (auto simp: sol_linea_def Let_def ebind_def split: sum.splits)
  from print_loop_frame [OF s] st' show ?thesis by (simp add: print_def)
qed

lemma main_arrays_more:
  fixes st st' :: "('g, 'd) main_state"
  assumes "process.more st' = process.more st"
  shows "A st' = A st \<and> B st' = B st \<and> C_seq st' = C_seq st \<and> C_par st' = C_par st"
  using assms by (cases st, cases st') simp

lemma sol_arrays_more:
  fixes ss ss' :: "('g, 'd) sol_state"
  assumes "process.more ss' = process.more ss"
  shows "sol_state.A ss' = sol_state.A ss \<and> sol_state.B ss' = sol_state.B ss
      \<and> R ss' = R ss \<and> Rpar ss' = Rpar ss"
  using assms by (cases ss, cases ss') simp

lemma vista_previa_frame:
  assumes "vista_previa st = Inr st'"
  shows "A st' = A st \<and> B st' = B st"
proof -
  obtain s1 where 1: "imprimeArreglo (A st) ''A'' st = Inr s1"
    using assms by (cases "imprimeArreglo (A st) ''A'' st") (simp_all add: vista_previa_def)
  obtain s2 where 2: "imprimeArreglo (B s1) ''B'' s1 = Inr s2"
    using assms 1 by (cases "imprimeArreglo (B s1) ''B'' s1") (simp_all add: vista_previa_def)
  have 3: "imprimeArreglo (C_par s2) ''C (paralelo)'' s2 = Inr st'"
    using assms 1 2 by (simp add: vista_previa_def)
  have "process.more s1 = process.more st" "process.more s2 = process.more s1"
    "process.more st' = process.more s2"
    by (rule imprimeArreglo_frame [OF 1], rule imprimeArreglo_frame [OF 2],
        rule imprimeArreglo_frame [OF 3])
  then have "process.more st' = process.more st" by (simp only:)
  from main_arrays_more [OF this] show ?thesis by blast
qed

lemma sol_impresion_frame:
  assumes "sol_impresion n ss = Inr ss'"
  shows "sol_state.A ss' = sol_state.A ss \<and> sol_state.B ss' = sol_state.B ss"
proof -
  obtain s1 where 1: "sol_linea ''Arreglo A: '' (sol_state.A ss) n ss = Inr s1"
    using assms
    by (cases "sol_linea ''Arreglo A: '' (sol_state.A ss) n ss") (simp_all add: sol_impresion_def)
  obtain s2 where 2: "sol_linea ''Arreglo B: '' (sol_state.B s1) n s1 = Inr s2"
    using assms 1
    by (cases "sol_linea ''Arreglo B: '' (sol_state.B s1) n s1") (simp_all add: sol_impresion_def)
  have 3: "sol_linea ''Arreglo Resultado (Paralelo): '' (Rpar s2) n s2 = Inr ss'"
    using assms 1 2 by (simp add: sol_impresion_def)
  have "process.more s1 = process.more ss" "process.more s2 = process.more s1"
    "process.more ss' = process.more s2"
    by (rule sol_linea_frame [OF 1], rule sol_linea_frame [OF 2], rule sol_linea_frame [OF 3])
  then have "process.more ss' = process.more ss" by (simp only:)
  from sol_arrays_more [OF this] show ?thesis by blast
qed

lemma comparacion_frame:
  "comparacion i n st = Inr (c, st') \<Longrightarrow> A st' = A st \<and> B st' = B st"
proof (induction i n st rule: comparacion.induct)
  case (1 i n st)
  from "1.prems" show ?case
    by (subst (asm) comparacion.simps)
      (auto simp: arr_get_def dest: "1.IH" [rotated -1] split: if_splits)
qed

lemma verificacion_frame:
  assumes "verificacion n st = Inr (c, st')"
  shows "A st' = A st \<and> B st' = B st"
proof -
  from assms obtain s where "comparacion 0 n st = Inr (c, s)"
    and "st' = print [Str ''\<newline>Verificacion (C_seq == C_par): '',
                   Str (if c then ''OK'' else ''FALLO''), Endl] s"
    by (auto simp: verificacion_def ebind_def split: sum.splits)
  with comparacion_frame [of 0 n st c s] show ?thesis by simp
qed

subsection \<open>Where a status can be printed\<close>


lemma has_status_append [simp]: "has_status (xs @ ys) \<longleftrightarrow> has_status xs \<or> has_status ys"
  by (auto simp: has_status_def)

lemma has_status_Cons [simp]:
  "has_status (x # xs) \<longleftrightarrow> x = Str ''OK'' \<or> x = Str ''FALLO'' \<or> has_status xs"
  by (auto simp: has_status_def)


lemma no_status_timing [simp]: "\<not> has_status (timing_lines ts tp)"
  by (simp add: has_status_def timing_lines_def)


lemma has_status_status_line [simp]: "has_status (status_line c)"
  by (simp add: has_status_def status_line_def)

subsection \<open>Threads preempted inside an iteration\<close>

lemma set_update_cases:
  assumes "th \<in> set ths" and "t < length ths"
  shows "th = ths ! t \<or> th \<in> set (ths[t := x])"
proof -
  from assms(1) obtain k where k: "k < length ths" "ths ! k = th"
    by (auto simp: in_set_conv_nth)
  show ?thesis
  proof (cases "k = t")
    case True with k show ?thesis by simp
  next
    case False
    with k assms(2) have "ths[t := x] ! k = th" by simp
    with k show ?thesis by (metis length_list_update nth_mem)
  qed
qed

lemma set_update_in:
  assumes "th \<in> set (ths[t := x])"
  shows "th = x \<or> th \<in> set ths"
  using assms set_update_subset_insert [of ths t x] by auto

lemma thread_step_ok:
  assumes L: "\<And>i s. i \<in> I \<Longrightarrow> sinv s \<Longrightarrow> load i s = Inr (val i)"
    and S: "\<And>i v s. i \<in> I \<Longrightarrow> sinv s \<Longrightarrow>
              \<exists>s'. store i v s = Inr s' \<and> sinv s' \<and> i < length (get s) \<and> get s' = (get s)[i := v]"
    and ok: "team_ok sinv get val I old ths s" and t: "t < length ths"
  shows "\<exists>th s'. thread_step load store (ths ! t) s = Inr (th, s')
           \<and> team_ok sinv get val I old (ths[t := th]) s'"
proof -
  from ok have sinv: "sinv s"
    and todo: "\<And>th. th \<in> set ths \<Longrightarrow> thread_todo th \<subseteq> I"
    and held: "\<And>th i v. th \<in> set ths \<Longrightarrow> snd th = Some (i, v) \<Longrightarrow> v = val i"
    and fin: "\<And>i. i \<in> I \<Longrightarrow> (\<exists>th\<in>set ths. i \<in> thread_todo th) \<or> get s ! i = val i"
    and rest: "\<And>i. i \<notin> I \<Longrightarrow> get s ! i = old ! i"
    by (auto simp: team_ok_def)
  from t have mem: "ths ! t \<in> set ths" by simp
  obtain q p where th: "ths ! t = (q, p)" by (cases "ths ! t")
  show ?thesis
  proof (cases p)
    case None
    show ?thesis
    proof (cases q)
      case Nil
      with None th have "ths[t := ([], None)] = ths" by (metis list_update_id)
      with None Nil th ok show ?thesis by simp
    next
      case (Cons i q')
      with None th todo [OF mem] have iI: "i \<in> I" by simp
      let ?th = "(q', Some (i, val i))"
      have step: "thread_step load store (ths ! t) s = Inr (?th, s)"
        using th None Cons L [OF iI sinv] by simp
      have same: "thread_todo ?th = thread_todo (ths ! t)"
        using th None Cons by simp
      have "team_ok sinv get val I old (ths[t := ?th]) s"
        unfolding team_ok_def
      proof (intro conjI ballI allI impI)
        show "sinv s" by (rule sinv)
      next
        fix x assume "x \<in> set (ths[t := ?th])"
        then have "x = ?th \<or> x \<in> set ths" by (rule set_update_in)
        then show "thread_todo x \<subseteq> I"
        proof
          assume "x = ?th"
          with same todo [OF mem] show ?thesis by simp
        next
          assume "x \<in> set ths"
          then show ?thesis by (rule todo)
        qed
      next
        fix x j v assume "x \<in> set (ths[t := ?th])" "snd x = Some (j, v)"
        moreover from this(1) have "x = ?th \<or> x \<in> set ths" by (rule set_update_in)
        ultimately show "v = val j" using held [of x j v] by auto
      next
        fix j assume "j \<in> I"
        from fin [OF this] show "(\<exists>x\<in>set (ths[t := ?th]). j \<in> thread_todo x) \<or> get s ! j = val j"
        proof
          assume "\<exists>x\<in>set ths. j \<in> thread_todo x"
          then obtain x where x: "x \<in> set ths" "j \<in> thread_todo x" by blast
          from set_update_cases [OF x(1) t, of ?th]
          have "\<exists>y\<in>set (ths[t := ?th]). j \<in> thread_todo y"
          proof
            assume "x = ths ! t"
            with x(2) same have "j \<in> thread_todo ?th" by simp
            moreover have "?th \<in> set (ths[t := ?th])" using t by (simp add: set_update_memI)
            ultimately show ?thesis by blast
          next
            assume "x \<in> set (ths[t := ?th])"
            with x(2) show ?thesis by blast
          qed
          then show ?thesis by blast
        next
          assume "get s ! j = val j"
          then show ?thesis by blast
        qed
      next
        fix j assume "j \<notin> I"
        then show "get s ! j = old ! j" by (rule rest)
      qed
      with step show ?thesis by blast
    qed
  next
    case (Some iv)
    obtain i v where iv: "iv = (i, v)" by (cases iv)
    from th Some iv todo [OF mem] have iI: "i \<in> I" and qI: "set q \<subseteq> I" by simp_all
    from th Some iv held [OF mem] have v: "v = val i" by simp
    from S [OF iI sinv, of v] obtain s' where s': "store i v s = Inr s'" "sinv s'"
      "i < length (get s)" "get s' = (get s)[i := v]" by blast
    let ?th = "(q, None) :: 'b thread"
    have step: "thread_step load store (ths ! t) s = Inr (?th, s')"
      using th Some iv s'(1) by simp
    have "team_ok sinv get val I old (ths[t := ?th]) s'"
      unfolding team_ok_def
    proof (intro conjI ballI allI impI)
      show "sinv s'" by (rule s'(2))
    next
      fix x assume "x \<in> set (ths[t := ?th])"
      then have "x = ?th \<or> x \<in> set ths" by (rule set_update_in)
      then show "thread_todo x \<subseteq> I"
      proof
        assume "x = ?th"
        with qI show ?thesis by simp
      next
        assume "x \<in> set ths"
        then show ?thesis by (rule todo)
      qed
    next
      fix x j w assume "x \<in> set (ths[t := ?th])" "snd x = Some (j, w)"
      moreover from this(1) have "x = ?th \<or> x \<in> set ths" by (rule set_update_in)
      ultimately show "w = val j" using held [of x j w] by auto
    next
      fix j assume jI: "j \<in> I"
      show "(\<exists>x\<in>set (ths[t := ?th]). j \<in> thread_todo x) \<or> get s' ! j = val j"
      proof (cases "j = i")
        case True
        with s'(3,4) v show ?thesis by simp
      next
        case False
        from fin [OF jI] show ?thesis
        proof
          assume "\<exists>x\<in>set ths. j \<in> thread_todo x"
          then obtain x where x: "x \<in> set ths" "j \<in> thread_todo x" by blast
          from set_update_cases [OF x(1) t, of ?th]
          have "\<exists>y\<in>set (ths[t := ?th]). j \<in> thread_todo y"
          proof
            assume "x = ths ! t"
            with x(2) th Some iv False have "j \<in> thread_todo ?th" by simp
            moreover have "?th \<in> set (ths[t := ?th])" using t by (simp add: set_update_memI)
            ultimately show ?thesis by blast
          next
            assume "x \<in> set (ths[t := ?th])"
            with x(2) show ?thesis by blast
          qed
          then show ?thesis by blast
        next
          assume "get s ! j = val j"
          with False s'(4) show ?thesis by simp
        qed
      qed
    next
      fix j assume "j \<notin> I"
      with iI have "j \<noteq> i" by blast
      with s'(4) rest [OF \<open>j \<notin> I\<close>] show "get s' ! j = old ! j" by simp
    qed
    with step show ?thesis by blast
  qed
qed

lemma team_run_ok:
  assumes L: "\<And>i s. i \<in> I \<Longrightarrow> sinv s \<Longrightarrow> load i s = Inr (val i)"
    and S: "\<And>i v s. i \<in> I \<Longrightarrow> sinv s \<Longrightarrow>
              \<exists>s'. store i v s = Inr s' \<and> sinv s' \<and> i < length (get s) \<and> get s' = (get s)[i := v]"
  shows "team_ok sinv get val I old ths s \<Longrightarrow>
     \<exists>ths' s'. team_run load store sched ths s = Inr (ths', s') \<and> team_ok sinv get val I old ths' s'"
proof (induction sched arbitrary: ths s)
  case Nil
  then show ?case by simp
next
  case (Cons t sched)
  show ?case
  proof (cases "t < length ths")
    case True
    from thread_step_ok [where load = load and store = store, OF L S Cons.prems True]
    obtain th s' where step: "thread_step load store (ths ! t) s = Inr (th, s')"
      and ok: "team_ok sinv get val I old (ths[t := th]) s'"
      by blast
    from Cons.IH [OF ok] step True show ?thesis by simp
  next
    case False
    with Cons.IH [OF Cons.prems] show ?thesis by simp
  qed
qed

lemma team_finished_result:
  assumes "team_ok sinv get val I old ths s" and "team_finished ths" and "i \<in> I"
  shows "get s ! i = val i"
proof -
  from assms(2) have "\<forall>th\<in>set ths. thread_todo th = {}"
    by (auto simp: team_finished_def list_all_iff)
  with assms(1,3) show ?thesis by (auto simp: team_ok_def)
qed

lemma team_start_ok:
  assumes "sinv s" and "I = set (concat team)"
  shows "team_ok sinv get val I (get s) (team_start team) s"
  using assms by (auto simp: team_ok_def team_start_def)

lemma thread_step_left:
  "thread_step load store th s = Inr (th', s') \<Longrightarrow> thread_left th' = thread_left th - 1"
  by (induction load store th s rule: thread_step.induct)
    (auto simp: ebind_def split: sum.splits)

lemma thread_left_0: "thread_left th = 0 \<longleftrightarrow> th = ([], None)"
  by (cases th rule: thread_left.cases) simp_all

lemma team_run_finishes:
  "team_run load store sched ths s = Inr (ths', s')
   \<Longrightarrow> (\<forall>t<length ths. thread_left (ths ! t) \<le> count_list sched t)
   \<Longrightarrow> team_finished ths'"
proof (induction sched arbitrary: ths s)
  case Nil
  then have "ths' = ths" and "\<forall>t<length ths. ths ! t = ([], None)"
    by (simp_all add: thread_left_0)
  then show ?case
    by (auto simp: team_finished_def list_all_length)
next
  case (Cons t sched)
  show ?case
  proof (cases "t < length ths")
    case True
    with Cons.prems(1) obtain th s1 where step: "thread_step load store (ths ! t) s = Inr (th, s1)"
      and run: "team_run load store sched (ths[t := th]) s1 = Inr (ths', s')"
      by (auto split: sum.splits)
    have "thread_left (ths[t := th] ! k) \<le> count_list sched k" if "k < length (ths[t := th])" for k
    proof (cases "k = t")
      case True
      with that thread_step_left [OF step] Cons.prems(2) [rule_format, of t] show ?thesis
        by simp
    next
      case False
      with that Cons.prems(2) [rule_format, of k] show ?thesis by simp
    qed
    then show ?thesis using Cons.IH [OF run] by blast
  next
    case False
    with Cons.prems(1) have run: "team_run load store sched ths s = Inr (ths', s')" by simp
    have "thread_left (ths ! k) \<le> count_list sched k" if "k < length ths" for k
      using that False Cons.prems(2) [rule_format, of k] by auto
    then show ?thesis using Cons.IH [OF run] by blast
  qed
qed

lemma team_run_fair:
  assumes "team_run load store sched (team_start team) s = Inr (ths', s')" and "fair team sched"
  shows "team_finished ths'"
  using team_run_finishes [OF assms(1)] assms(2)
  by (simp add: fair_def team_start_def)

lemma suma_paralela_iter_split:
  "suma_paralela_iter i st = ebind (suma_paralela_load i st) (\<lambda>v. C_par_set i v st)"
  by (simp add: suma_paralela_iter_def suma_paralela_load_def ebind_def split: sum.splits)

lemma sol_suma_paralela_iter_split:
  "sol_suma_paralela_iter i st = ebind (sol_suma_paralela_load i st) (\<lambda>v. Rpar_set i v st)"
  by (simp add: sol_suma_paralela_iter_def sol_suma_paralela_load_def ebind_def split: sum.splits)

lemma assignment_set: "assignment n team \<Longrightarrow> set (concat team) = {0..<n}"
  by (metis assignment_def set_mset_mset set_upt)

lemma spec_sum_eqI:
  assumes "length c = n" and "\<And>i. i < n \<Longrightarrow> c ! i = a ! i + b ! i"
  shows "c = spec_sum a b n"
  using assms by (intro nth_equalityI) (simp_all add: spec_sum_def)

lemma suma_paralela_team_result:
  fixes st :: "('g, 'd) main_state"
  assumes len: "length (A st) = n" "length (B st) = n" "length (C_par st) = n"
    and team: "assignment n team"
  shows "\<exists>ths c. suma_paralela_team team sched st = Inr (ths, st\<lparr>C_par := c\<rparr>)
           \<and> (team_finished ths \<longrightarrow> c = spec_sum (A st) (B st) n)"
proof -
  let ?sinv = "\<lambda>s :: ('g, 'd) main_state. \<exists>c. s = st\<lparr>C_par := c\<rparr> \<and> length c = n"
  let ?val = "\<lambda>i. A st ! i + B st ! i"
  let ?I = "{0..<n}"
  have L: "suma_paralela_load i s = Inr (?val i)" if "i \<in> ?I" "?sinv s" for i s
    using that len by (auto simp: suma_paralela_load_def)
  have S: "\<exists>s'. C_par_set i v s = Inr s' \<and> ?sinv s' \<and> i < length (C_par s)
            \<and> C_par s' = (C_par s)[i := v]" if "i \<in> ?I" "?sinv s" for i v s
  proof -
    from that obtain c where c: "s = st\<lparr>C_par := c\<rparr>" "length c = n" and i: "i < n" by auto
    let ?s' = "st\<lparr>C_par := c[i := v]\<rparr>"
    have "C_par_set i v s = Inr ?s'" using c i by (simp add: C_par_set_def)
    moreover have "?sinv ?s'" using c by (intro exI [of _ "c[i := v]"]) simp
    moreover have "i < length (C_par s)" "C_par ?s' = (C_par s)[i := v]" using c i by simp_all
    ultimately show ?thesis by blast
  qed
  have "?sinv st" using len(3) by (intro exI [of _ "C_par st"]) simp
  then have "team_ok ?sinv C_par ?val ?I (C_par st) (team_start team) st"
    using assignment_set [OF team] by (intro team_start_ok) simp_all
  from team_run_ok [where load = suma_paralela_load and store = C_par_set and sched = sched,
      OF L S this]
  obtain ths s' where run: "team_run suma_paralela_load C_par_set sched (team_start team) st = Inr (ths, s')"
    and ok: "team_ok ?sinv C_par ?val ?I (C_par st) ths s'"
    by blast
  from ok obtain c where c: "s' = st\<lparr>C_par := c\<rparr>" "length c = n"
    by (auto simp: team_ok_def)
  have "c = spec_sum (A st) (B st) n" if "team_finished ths"
  proof (rule spec_sum_eqI [OF c(2)])
    fix i assume "i < n"
    then have "i \<in> ?I" by simp
    from team_finished_result [OF ok that this] c(1) show "c ! i = A st ! i + B st ! i" by simp
  qed
  with run c(1) show ?thesis by (auto simp: suma_paralela_team_def)
qed

lemma sol_suma_paralela_team_result:
  fixes st :: "('g, 'd) sol_state"
  assumes len: "length (sol_state.A st) = n" "length (sol_state.B st) = n" "length (Rpar st) = n"
    and team: "assignment n team"
  shows "\<exists>ths c. sol_suma_paralela_team team sched st = Inr (ths, st\<lparr>Rpar := c\<rparr>)
           \<and> (team_finished ths \<longrightarrow> c = spec_sum (sol_state.A st) (sol_state.B st) n)"
proof -
  let ?sinv = "\<lambda>s :: ('g, 'd) sol_state. \<exists>c. s = st\<lparr>Rpar := c\<rparr> \<and> length c = n"
  let ?val = "\<lambda>i. sol_state.A st ! i + sol_state.B st ! i"
  let ?I = "{0..<n}"
  have L: "sol_suma_paralela_load i s = Inr (?val i)" if "i \<in> ?I" "?sinv s" for i s
    using that len by (auto simp: sol_suma_paralela_load_def)
  have S: "\<exists>s'. Rpar_set i v s = Inr s' \<and> ?sinv s' \<and> i < length (Rpar s)
            \<and> Rpar s' = (Rpar s)[i := v]" if "i \<in> ?I" "?sinv s" for i v s
  proof -
    from that obtain c where c: "s = st\<lparr>Rpar := c\<rparr>" "length c = n" and i: "i < n" by auto
    let ?s' = "st\<lparr>Rpar := c[i := v]\<rparr>"
    have "Rpar_set i v s = Inr ?s'" using c i by (simp add: Rpar_set_def)
    moreover have "?sinv ?s'" using c by (intro exI [of _ "c[i := v]"]) simp
    moreover have "i < length (Rpar s)" "Rpar ?s' = (Rpar s)[i := v]" using c i by simp_all
    ultimately show ?thesis by blast
  qed
  have "?sinv st" using len(3) by (intro exI [of _ "Rpar st"]) simp
  then have "team_ok ?sinv Rpar ?val ?I (Rpar st) (team_start team) st"
    using assignment_set [OF team] by (intro team_start_ok) simp_all
  from team_run_ok [where load = sol_suma_paralela_load and store = Rpar_set and sched = sched,
      OF L S this]
  obtain ths s' where run: "team_run sol_suma_paralela_load Rpar_set sched (team_start team) st = Inr (ths, s')"
    and ok: "team_ok ?sinv Rpar ?val ?I (Rpar st) ths s'"
    by blast
  from ok obtain c where c: "s' = st\<lparr>Rpar := c\<rparr>" "length c = n"
    by (auto simp: team_ok_def)
  have "c = spec_sum (sol_state.A st) (sol_state.B st) n" if "team_finished ths"
  proof (rule spec_sum_eqI [OF c(2)])
    fix i assume "i < n"
    then have "i \<in> ?I" by simp
    from team_finished_result [OF ok that this] c(1)
    show "c ! i = sol_state.A st ! i + sol_state.B st ! i" by simp
  qed
  with run c(1) show ?thesis by (auto simp: sol_suma_paralela_team_def)
qed

section \<open>The claims\<close>

text \<open>
  C1. For arrays \<open>A\<close>, \<open>B\<close> of length \<open>n\<close>, the parallel pass leaves in its result array
  what the sequential pass leaves in its own, at every index. For \<^verbatim>\<open>main.cpp\<close>
  this holds for every chunk size \<open>pedazos \<ge> 1\<close>, every number \<open>T \<ge> 1\<close> of threads and
  every order in which the team runs its iterations; for the second program, for every way
  the runtime deals the iterations out to its two threads and every order in which they
  run. It also holds when the threads are preempted between the read and the write of an
  iteration: under every step schedule the region runs without error and changes only the
  result array, under a fair one every thread finishes, and when the threads have finished
  the state is the one the first model gives.
\<close>

theorem parallel_pass_equals_sequential:
  assumes "length (A st) = n" and "length (B st) = n"
    and "length (C_seq st) = n" and "length (C_par st) = n"
    and "omp_main_for n pedazos T order"
    and "length (sol_state.A ss) = m" and "length (sol_state.B ss) = m"
    and "length (R ss) = m" and "length (Rpar ss) = m"
    and "omp_sol_for m team order'"
  shows "(\<exists>st1 st2. suma_secuencial n st = Inr st1 \<and> suma_paralela order st1 = Inr st2
            \<and> (\<forall>i<n. C_par st2 ! i = C_seq st2 ! i) \<and> C_par st2 = C_seq st2
            \<and> (\<exists>ths c. suma_paralela_team (static_schedule n pedazos T) sched st1
                          = Inr (ths, st1\<lparr>C_par := c\<rparr>)
                  \<and> (fair (static_schedule n pedazos T) sched \<longrightarrow> team_finished ths)
                  \<and> (team_finished ths \<longrightarrow> st1\<lparr>C_par := c\<rparr> = st2)))
       \<and> (\<exists>ss1 ss2. sol_suma_secuencial m ss = Inr ss1 \<and> sol_suma_paralela order' ss1 = Inr ss2
            \<and> (\<forall>i<m. Rpar ss2 ! i = R ss2 ! i) \<and> Rpar ss2 = R ss2
            \<and> (\<exists>ths c. sol_suma_paralela_team team sched' ss1 = Inr (ths, ss1\<lparr>Rpar := c\<rparr>)
                  \<and> (fair team sched' \<longrightarrow> team_finished ths)
                  \<and> (team_finished ths \<longrightarrow> ss1\<lparr>Rpar := c\<rparr> = ss2)))"
proof
  let ?S = "spec_sum (A st) (B st) n"
  let ?st1 = "st\<lparr>C_seq := ?S\<rparr>"
  let ?st2 = "st\<lparr>C_seq := ?S, C_par := ?S\<rparr>"
  let ?team = "static_schedule n pedazos T"
  have seq: "suma_secuencial n st = Inr ?st1"
    using assms(1-3) by (rule suma_secuencial_eq)
  have par: "suma_paralela order ?st1 = Inr ?st2"
    using suma_paralela_eq [of ?st1 n order] assms(1,2,4) omp_main_for_set [OF assms(5)] by simp
  have team: "assignment n ?team"
    using assms(5) by (simp add: omp_main_for_def static_schedule_assignment)
  from suma_paralela_team_result [of ?st1 n ?team sched] assms(1,2,4) team
  obtain ths c where run: "suma_paralela_team ?team sched ?st1 = Inr (ths, ?st1\<lparr>C_par := c\<rparr>)"
    and fin: "team_finished ths \<longrightarrow> c = ?S"
    by auto
  have "fair ?team sched \<longrightarrow> team_finished ths"
    using run team_run_fair [of suma_paralela_load C_par_set sched ?team ?st1 ths]
    by (simp add: suma_paralela_team_def)
  with run fin have "\<exists>ths c. suma_paralela_team ?team sched ?st1 = Inr (ths, ?st1\<lparr>C_par := c\<rparr>)
                  \<and> (fair ?team sched \<longrightarrow> team_finished ths)
                  \<and> (team_finished ths \<longrightarrow> ?st1\<lparr>C_par := c\<rparr> = ?st2)"
    by auto
  with seq par show "\<exists>st1 st2. suma_secuencial n st = Inr st1 \<and> suma_paralela order st1 = Inr st2
            \<and> (\<forall>i<n. C_par st2 ! i = C_seq st2 ! i) \<and> C_par st2 = C_seq st2
            \<and> (\<exists>ths c. suma_paralela_team (static_schedule n pedazos T) sched st1
                          = Inr (ths, st1\<lparr>C_par := c\<rparr>)
                  \<and> (fair (static_schedule n pedazos T) sched \<longrightarrow> team_finished ths)
                  \<and> (team_finished ths \<longrightarrow> st1\<lparr>C_par := c\<rparr> = st2))"
    by (intro exI [of _ ?st1] exI [of _ ?st2]) simp
next
  let ?S = "spec_sum (sol_state.A ss) (sol_state.B ss) m"
  let ?ss1 = "ss\<lparr>R := ?S\<rparr>"
  let ?ss2 = "ss\<lparr>R := ?S, Rpar := ?S\<rparr>"
  have seq: "sol_suma_secuencial m ss = Inr ?ss1"
    using assms(6-8) by (rule sol_suma_secuencial_eq)
  have par: "sol_suma_paralela order' ?ss1 = Inr ?ss2"
    using sol_suma_paralela_eq [of ?ss1 m order'] assms(6,7,9) omp_sol_for_set [OF assms(10)]
    by simp
  have team: "assignment m team"
    using assms(10) by (simp add: omp_sol_for_def)
  from sol_suma_paralela_team_result [of ?ss1 m team sched'] assms(6,7,9) team
  obtain ths c where run: "sol_suma_paralela_team team sched' ?ss1 = Inr (ths, ?ss1\<lparr>Rpar := c\<rparr>)"
    and fin: "team_finished ths \<longrightarrow> c = ?S"
    by auto
  have "fair team sched' \<longrightarrow> team_finished ths"
    using run team_run_fair [of sol_suma_paralela_load Rpar_set sched' team ?ss1 ths]
    by (simp add: sol_suma_paralela_team_def)
  with run fin have "\<exists>ths c. sol_suma_paralela_team team sched' ?ss1 = Inr (ths, ?ss1\<lparr>Rpar := c\<rparr>)
                  \<and> (fair team sched' \<longrightarrow> team_finished ths)
                  \<and> (team_finished ths \<longrightarrow> ?ss1\<lparr>Rpar := c\<rparr> = ?ss2)"
    by auto
  with seq par show "\<exists>ss1 ss2. sol_suma_secuencial m ss = Inr ss1 \<and> sol_suma_paralela order' ss1 = Inr ss2
            \<and> (\<forall>i<m. Rpar ss2 ! i = R ss2 ! i) \<and> Rpar ss2 = R ss2
            \<and> (\<exists>ths c. sol_suma_paralela_team team sched' ss1 = Inr (ths, ss1\<lparr>Rpar := c\<rparr>)
                  \<and> (fair team sched' \<longrightarrow> team_finished ths)
                  \<and> (team_finished ths \<longrightarrow> ss1\<lparr>Rpar := c\<rparr> = ss2))"
    by (intro exI [of _ ?ss1] exI [of _ ?ss2]) simp
qed

theorem parallel_pass_equals_sequential_witness:
  "omp_main_for 4 1 2 [1, 0, 3, 2] \<and> omp_sol_for 3 [[0, 1], [2]] [2, 0, 1]
   \<and> fair (static_schedule 4 1 2) [0, 1, 1, 0, 0, 1, 1, 0] \<and> fair [[0, 1], [2]] [1, 0, 0, 1, 0, 0]
   \<and> (\<exists>st1 st2. suma_secuencial 4 ejemplo_main = Inr st1 \<and> suma_paralela [1, 0, 3, 2] st1 = Inr st2
         \<and> (\<forall>i<4. C_par st2 ! i = C_seq st2 ! i) \<and> C_par st2 = C_seq st2
         \<and> (\<exists>ths c. suma_paralela_team (static_schedule 4 1 2) [0, 1, 1, 0, 0, 1, 1, 0] st1
                       = Inr (ths, st1\<lparr>C_par := c\<rparr>)
               \<and> (fair (static_schedule 4 1 2) [0, 1, 1, 0, 0, 1, 1, 0] \<longrightarrow> team_finished ths)
               \<and> (team_finished ths \<longrightarrow> st1\<lparr>C_par := c\<rparr> = st2)))
   \<and> (\<exists>ss1 ss2. sol_suma_secuencial 3 ejemplo_sol = Inr ss1 \<and> sol_suma_paralela [2, 0, 1] ss1 = Inr ss2
         \<and> (\<forall>i<3. Rpar ss2 ! i = R ss2 ! i) \<and> Rpar ss2 = R ss2
         \<and> (\<exists>ths c. sol_suma_paralela_team [[0, 1], [2]] [1, 0, 0, 1, 0, 0] ss1
                       = Inr (ths, ss1\<lparr>Rpar := c\<rparr>)
               \<and> (fair [[0, 1], [2]] [1, 0, 0, 1, 0, 0] \<longrightarrow> team_finished ths)
               \<and> (team_finished ths \<longrightarrow> ss1\<lparr>Rpar := c\<rparr> = ss2)))"
proof -
  have h1: "omp_main_for 4 1 2 [1, 0, 3, 2]" by code_simp
  have h2: "omp_sol_for 3 [[0, 1], [2]] [2, 0, 1]" by code_simp
  have f1: "fair (static_schedule 4 1 2) [0, 1, 1, 0, 0, 1, 1, 0]" by code_simp
  have f2: "fair [[0, 1], [2]] [1, 0, 0, 1, 0, 0]" by code_simp
  have l1: "length (A ejemplo_main) = 4" "length (B ejemplo_main) = 4"
    "length (C_seq ejemplo_main) = 4" "length (C_par ejemplo_main) = 4"
    by (simp_all add: ejemplo_main_def)
  have l2: "length (sol_state.A ejemplo_sol) = 3" "length (sol_state.B ejemplo_sol) = 3"
    "length (R ejemplo_sol) = 3" "length (Rpar ejemplo_sol) = 3"
    by (simp_all add: ejemplo_sol_def)
  note r = parallel_pass_equals_sequential [OF l1 h1 l2 h2,
      where sched = "[0, 1, 1, 0, 0, 1, 1, 0]" and sched' = "[1, 0, 0, 1, 0, 0]"]
  show ?thesis
    by (intro conjI)
      (rule h1, rule h2, rule f1, rule f2, rule conjunct1 [OF r], rule conjunct2 [OF r])
qed

text \<open>
  C2. For arrays \<open>A\<close>, \<open>B\<close> and a result array of length \<open>n\<close>, the sequential pass
  returns, and element \<open>i\<close> of its result is \<open>A[i] + B[i]\<close> (the addition of
  \<^verbatim>\<open>int\<close>) for every \<open>i < n\<close>. The result is a function of \<open>A\<close> and \<open>B\<close> alone: a
  second run from a state with the same \<open>A\<close> and \<open>B\<close>, whatever else it holds, gives the
  same result array. Both programs.
\<close>

theorem sequential_sum_correct:
  assumes "length (A st) = n" and "length (B st) = n" and "length (C_seq st) = n"
    and "A st' = A st" and "B st' = B st" and "length (C_seq st') = n"
    and "length (sol_state.A ss) = m" and "length (sol_state.B ss) = m" and "length (R ss) = m"
    and "sol_state.A ss' = sol_state.A ss" and "sol_state.B ss' = sol_state.B ss"
    and "length (R ss') = m"
  shows "(\<exists>r r'. suma_secuencial n st = Inr r \<and> suma_secuencial n st' = Inr r'
            \<and> length (C_seq r) = n \<and> (\<forall>i<n. C_seq r ! i = A st ! i + B st ! i)
            \<and> C_seq r = spec_sum (A st) (B st) n \<and> C_seq r' = C_seq r)
       \<and> (\<exists>r r'. sol_suma_secuencial m ss = Inr r \<and> sol_suma_secuencial m ss' = Inr r'
            \<and> length (R r) = m \<and> (\<forall>i<m. R r ! i = sol_state.A ss ! i + sol_state.B ss ! i)
            \<and> R r = spec_sum (sol_state.A ss) (sol_state.B ss) m \<and> R r' = R r)"
proof
  have "suma_secuencial n st = Inr (st\<lparr>C_seq := spec_sum (A st) (B st) n\<rparr>)"
    using assms(1-3) by (rule suma_secuencial_eq)
  moreover have "suma_secuencial n st' = Inr (st'\<lparr>C_seq := spec_sum (A st') (B st') n\<rparr>)"
    using assms(1,2,4-6) by (intro suma_secuencial_eq) simp_all
  ultimately show "\<exists>r r'. suma_secuencial n st = Inr r \<and> suma_secuencial n st' = Inr r'
            \<and> length (C_seq r) = n \<and> (\<forall>i<n. C_seq r ! i = A st ! i + B st ! i)
            \<and> C_seq r = spec_sum (A st) (B st) n \<and> C_seq r' = C_seq r"
    using assms(4,5) by (simp add: spec_sum_nth length_spec_sum)
next
  have "sol_suma_secuencial m ss = Inr (ss\<lparr>R := spec_sum (sol_state.A ss) (sol_state.B ss) m\<rparr>)"
    using assms(7-9) by (rule sol_suma_secuencial_eq)
  moreover have "sol_suma_secuencial m ss' =
      Inr (ss'\<lparr>R := spec_sum (sol_state.A ss') (sol_state.B ss') m\<rparr>)"
    using assms(7,8,10-12) by (intro sol_suma_secuencial_eq) simp_all
  ultimately show "\<exists>r r'. sol_suma_secuencial m ss = Inr r \<and> sol_suma_secuencial m ss' = Inr r'
            \<and> length (R r) = m \<and> (\<forall>i<m. R r ! i = sol_state.A ss ! i + sol_state.B ss ! i)
            \<and> R r = spec_sum (sol_state.A ss) (sol_state.B ss) m \<and> R r' = R r"
    using assms(10,11) by (simp add: spec_sum_nth length_spec_sum)
qed

theorem sequential_sum_correct_witness:
  "(\<exists>r r'. suma_secuencial 4 ejemplo_main = Inr r
        \<and> suma_secuencial 4 (ejemplo_main\<lparr>cout := [Endl], C_seq := [9, 9, 9, 9]\<rparr>) = Inr r'
        \<and> length (C_seq r) = 4 \<and> (\<forall>i<4. C_seq r ! i = A ejemplo_main ! i + B ejemplo_main ! i)
        \<and> C_seq r = spec_sum (A ejemplo_main) (B ejemplo_main) 4 \<and> C_seq r' = C_seq r)
   \<and> (\<exists>r r'. sol_suma_secuencial 3 ejemplo_sol = Inr r
        \<and> sol_suma_secuencial 3 (ejemplo_sol\<lparr>R := [8, 8, 8], Rpar := [1, 2, 3]\<rparr>) = Inr r'
        \<and> length (R r) = 3 \<and> (\<forall>i<3. R r ! i = sol_state.A ejemplo_sol ! i + sol_state.B ejemplo_sol ! i)
        \<and> R r = spec_sum (sol_state.A ejemplo_sol) (sol_state.B ejemplo_sol) 3 \<and> R r' = R r)"
  by (rule sequential_sum_correct) (simp_all add: ejemplo_main_def ejemplo_sol_def)

text \<open>
  C3. The verifier of \<^verbatim>\<open>main.cpp\<close> compares \<open>C_seq\<close> and \<open>C_par\<close> index by index, and
  what it reports is what it appends to standard output. When all \<open>n\<close> indices agree the
  output grows by the status line with \<open>OK\<close>, and by nothing else. When \<open>k\<close> is the first
  index that differs the output grows by the error line, which holds \<open>k\<close> and both values
  \<open>C_seq[k]\<close> and \<open>C_par[k]\<close>, then by the status line with \<open>FALLO\<close>: this needs nothing of
  the indices after \<open>k\<close>, not even that the arrays have them, so no later index is read,
  and two states that agree up to \<open>k\<close> and on the output so far end with the same output.
  Whenever the two arrays of length \<open>n\<close> differ there is such a first index, and the
  output ends with that report and \<open>FALLO\<close>.
\<close>

theorem verifier_reports_first_mismatch:
  fixes st st' :: "('g, 'd) main_state"
  shows
  "(length (C_seq st) = n \<and> length (C_par st) = n \<and> (\<forall>i<n. C_seq st ! i = C_par st ! i)
      \<longrightarrow> (\<exists>r. verificacion n st = Inr (True, r)
             \<and> cout r = cout st @ [Str ''\<newline>Verificacion (C_seq == C_par): '', Str ''OK'', Endl]))
   \<and> (k < n \<and> k < length (C_seq st) \<and> k < length (C_par st)
        \<and> C_seq st ! k \<noteq> C_par st ! k \<and> (\<forall>i<k. C_seq st ! i = C_par st ! i)
      \<longrightarrow> (\<exists>r. verificacion n st = Inr (False, r)
             \<and> cout r = cout st @ [Str ''\<newline>[ERROR] Diferencia en i='', Num (of_nat k),
                                    Str '' C_seq='', Num (C_seq st ! k),
                                    Str '' C_par='', Num (C_par st ! k), Endl,
                                    Str ''\<newline>Verificacion (C_seq == C_par): '', Str ''FALLO'', Endl]))
   \<and> (k < n \<and> k < length (C_seq st) \<and> k < length (C_par st)
        \<and> C_seq st ! k \<noteq> C_par st ! k \<and> (\<forall>i<k. C_seq st ! i = C_par st ! i)
        \<and> take (Suc k) (C_seq st') = take (Suc k) (C_seq st)
        \<and> take (Suc k) (C_par st') = take (Suc k) (C_par st) \<and> cout st' = cout st
      \<longrightarrow> (\<exists>r r'. verificacion n st = Inr (False, r) \<and> verificacion n st' = Inr (False, r')
             \<and> cout r' = cout r
             \<and> cout r = cout st @ [Str ''\<newline>[ERROR] Diferencia en i='', Num (of_nat k),
                                    Str '' C_seq='', Num (C_seq st ! k),
                                    Str '' C_par='', Num (C_par st ! k), Endl,
                                    Str ''\<newline>Verificacion (C_seq == C_par): '', Str ''FALLO'', Endl]))
   \<and> (length (C_seq st) = n \<and> length (C_par st) = n \<and> C_seq st \<noteq> C_par st
      \<longrightarrow> (\<exists>j<n. C_seq st ! j \<noteq> C_par st ! j \<and> (\<forall>i<j. C_seq st ! i = C_par st ! i)
              \<and> (\<exists>r. verificacion n st = Inr (False, r)
                   \<and> cout r = cout st @ [Str ''\<newline>[ERROR] Diferencia en i='', Num (of_nat j),
                                          Str '' C_seq='', Num (C_seq st ! j),
                                          Str '' C_par='', Num (C_par st ! j), Endl,
                                          Str ''\<newline>Verificacion (C_seq == C_par): '', Str ''FALLO'', Endl])))"
proof (intro conjI impI)
  assume "length (C_seq st) = n \<and> length (C_par st) = n \<and> (\<forall>i<n. C_seq st ! i = C_par st ! i)"
  then have "verificacion n st =
            Inr (True, print [Str ''\<newline>Verificacion (C_seq == C_par): '', Str ''OK'', Endl] st)"
    by (intro verificacion_ok) simp_all
  then show "\<exists>r. verificacion n st = Inr (True, r)
             \<and> cout r = cout st @ [Str ''\<newline>Verificacion (C_seq == C_par): '', Str ''OK'', Endl]"
    by simp
next
  assume "k < n \<and> k < length (C_seq st) \<and> k < length (C_par st)
        \<and> C_seq st ! k \<noteq> C_par st ! k \<and> (\<forall>i<k. C_seq st ! i = C_par st ! i)"
  then have "verificacion n st =
            Inr (False, print [Str ''\<newline>[ERROR] Diferencia en i='', Num (of_nat k),
                               Str '' C_seq='', Num (C_seq st ! k),
                               Str '' C_par='', Num (C_par st ! k), Endl,
                               Str ''\<newline>Verificacion (C_seq == C_par): '', Str ''FALLO'', Endl] st)"
    by (intro verificacion_fallo) simp_all
  then show "\<exists>r. verificacion n st = Inr (False, r)
             \<and> cout r = cout st @ [Str ''\<newline>[ERROR] Diferencia en i='', Num (of_nat k),
                                    Str '' C_seq='', Num (C_seq st ! k),
                                    Str '' C_par='', Num (C_par st ! k), Endl,
                                    Str ''\<newline>Verificacion (C_seq == C_par): '', Str ''FALLO'', Endl]"
    by simp
next
  assume a: "k < n \<and> k < length (C_seq st) \<and> k < length (C_par st)
        \<and> C_seq st ! k \<noteq> C_par st ! k \<and> (\<forall>i<k. C_seq st ! i = C_par st ! i)
        \<and> take (Suc k) (C_seq st') = take (Suc k) (C_seq st)
        \<and> take (Suc k) (C_par st') = take (Suc k) (C_par st) \<and> cout st' = cout st"
  then have ts: "take (Suc k) (C_seq st') = take (Suc k) (C_seq st)"
    and tp: "take (Suc k) (C_par st') = take (Suc k) (C_par st)" by simp_all
  from a have k: "k < length (C_seq st)" "k < length (C_par st)" by simp_all
  have "min (length (C_seq st')) (Suc k) = min (length (C_seq st)) (Suc k)"
    using arg_cong [OF ts, of length] by simp
  with k have ls: "k < length (C_seq st')" by linarith
  have "min (length (C_par st')) (Suc k) = min (length (C_par st)) (Suc k)"
    using arg_cong [OF tp, of length] by simp
  with k have lp: "k < length (C_par st')" by linarith
  have ns: "C_seq st' ! i = C_seq st ! i" if "i \<le> k" for i
    using that arg_cong [OF ts, of "\<lambda>xs. xs ! i"] by simp
  have np: "C_par st' ! i = C_par st ! i" if "i \<le> k" for i
    using that arg_cong [OF tp, of "\<lambda>xs. xs ! i"] by simp
  have 1: "verificacion n st =
            Inr (False, print [Str ''\<newline>[ERROR] Diferencia en i='', Num (of_nat k),
                               Str '' C_seq='', Num (C_seq st ! k),
                               Str '' C_par='', Num (C_par st ! k), Endl,
                               Str ''\<newline>Verificacion (C_seq == C_par): '', Str ''FALLO'', Endl] st)"
    using a by (intro verificacion_fallo) simp_all
  have 2: "verificacion n st' =
            Inr (False, print [Str ''\<newline>[ERROR] Diferencia en i='', Num (of_nat k),
                               Str '' C_seq='', Num (C_seq st' ! k),
                               Str '' C_par='', Num (C_par st' ! k), Endl,
                               Str ''\<newline>Verificacion (C_seq == C_par): '', Str ''FALLO'', Endl] st')"
    using a ls lp ns np by (intro verificacion_fallo) simp_all
  show "\<exists>r r'. verificacion n st = Inr (False, r) \<and> verificacion n st' = Inr (False, r')
             \<and> cout r' = cout r
             \<and> cout r = cout st @ [Str ''\<newline>[ERROR] Diferencia en i='', Num (of_nat k),
                                    Str '' C_seq='', Num (C_seq st ! k),
                                    Str '' C_par='', Num (C_par st ! k), Endl,
                                    Str ''\<newline>Verificacion (C_seq == C_par): '', Str ''FALLO'', Endl]"
    using a by (simp add: 1 2 ns np)
next
  assume a: "length (C_seq st) = n \<and> length (C_par st) = n \<and> C_seq st \<noteq> C_par st"
  then have "\<exists>i<n. C_seq st ! i \<noteq> C_par st ! i"
    by (auto simp: list_eq_iff_nth_eq)
  then obtain j where j: "j < n" "C_seq st ! j \<noteq> C_par st ! j" "\<forall>i<j. C_seq st ! i = C_par st ! i"
    using first_mismatch by blast
  with a have "verificacion n st =
                Inr (False, print [Str ''\<newline>[ERROR] Diferencia en i='', Num (of_nat j),
                                   Str '' C_seq='', Num (C_seq st ! j),
                                   Str '' C_par='', Num (C_par st ! j), Endl,
                                   Str ''\<newline>Verificacion (C_seq == C_par): '', Str ''FALLO'', Endl] st)"
    by (intro verificacion_fallo) simp_all
  then have "\<exists>r. verificacion n st = Inr (False, r)
                   \<and> cout r = cout st @ [Str ''\<newline>[ERROR] Diferencia en i='', Num (of_nat j),
                                          Str '' C_seq='', Num (C_seq st ! j),
                                          Str '' C_par='', Num (C_par st ! j), Endl,
                                          Str ''\<newline>Verificacion (C_seq == C_par): '', Str ''FALLO'', Endl]"
    by simp
  with j show "\<exists>j<n. C_seq st ! j \<noteq> C_par st ! j \<and> (\<forall>i<j. C_seq st ! i = C_par st ! i)
              \<and> (\<exists>r. verificacion n st = Inr (False, r)
                   \<and> cout r = cout st @ [Str ''\<newline>[ERROR] Diferencia en i='', Num (of_nat j),
                                          Str '' C_seq='', Num (C_seq st ! j),
                                          Str '' C_par='', Num (C_par st ! j), Endl,
                                          Str ''\<newline>Verificacion (C_seq == C_par): '', Str ''FALLO'', Endl])"
    by blast
qed

theorem verifier_reports_first_mismatch_witness:
  "(\<exists>r. verificacion 4 (ejemplo_fallo\<lparr>C_par := C_seq ejemplo_fallo\<rparr>) = Inr (True, r)
       \<and> cout r = [Str ''\<newline>Verificacion (C_seq == C_par): '', Str ''OK'', Endl])
   \<and> (\<exists>r. verificacion 4 ejemplo_fallo = Inr (False, r)
       \<and> cout r = [Str ''\<newline>[ERROR] Diferencia en i='', Num 2,
                    Str '' C_seq='', Num 1030, Str '' C_par='', Num 999, Endl,
                    Str ''\<newline>Verificacion (C_seq == C_par): '', Str ''FALLO'', Endl])
   \<and> (\<exists>r r'. verificacion 4 ejemplo_fallo = Inr (False, r)
         \<and> verificacion 4 (ejemplo_fallo\<lparr>C_seq := [11, 1002, 1030], C_par := [11, 1002, 999]\<rparr>)
             = Inr (False, r')
         \<and> cout r' = cout r
         \<and> cout r = [Str ''\<newline>[ERROR] Diferencia en i='', Num 2,
                      Str '' C_seq='', Num 1030, Str '' C_par='', Num 999, Endl,
                      Str ''\<newline>Verificacion (C_seq == C_par): '', Str ''FALLO'', Endl])
   \<and> (\<exists>j<4. C_seq ejemplo_fallo ! j \<noteq> C_par ejemplo_fallo ! j
         \<and> (\<forall>i<j. C_seq ejemplo_fallo ! i = C_par ejemplo_fallo ! i)
         \<and> (\<exists>r. verificacion 4 ejemplo_fallo = Inr (False, r)
              \<and> cout r = cout ejemplo_fallo
                   @ [Str ''\<newline>[ERROR] Diferencia en i='', Num (of_nat j),
                      Str '' C_seq='', Num (C_seq ejemplo_fallo ! j),
                      Str '' C_par='', Num (C_par ejemplo_fallo ! j), Endl,
                      Str ''\<newline>Verificacion (C_seq == C_par): '', Str ''FALLO'', Endl]))"
proof -
  let ?ok = "ejemplo_fallo\<lparr>C_par := C_seq ejemplo_fallo\<rparr>"
  let ?short = "ejemplo_fallo\<lparr>C_seq := [11, 1002, 1030], C_par := [11, 1002, 999]\<rparr>"
  have h1: "length (C_seq ?ok) = 4 \<and> length (C_par ?ok) = 4 \<and> (\<forall>i<4. C_seq ?ok ! i = C_par ?ok ! i)"
    by (simp add: ejemplo_fallo_def)
  have h2: "2 < (4::nat) \<and> 2 < length (C_seq ejemplo_fallo) \<and> 2 < length (C_par ejemplo_fallo)
        \<and> C_seq ejemplo_fallo ! 2 \<noteq> C_par ejemplo_fallo ! 2
        \<and> (\<forall>i<2. C_seq ejemplo_fallo ! i = C_par ejemplo_fallo ! i)"
    by (simp add: ejemplo_fallo_def nth_Cons' less_2_cases_iff)
  have h3: "take (Suc 2) (C_seq ?short) = take (Suc 2) (C_seq ejemplo_fallo)
        \<and> take (Suc 2) (C_par ?short) = take (Suc 2) (C_par ejemplo_fallo)
        \<and> cout ?short = cout ejemplo_fallo"
    by (simp add: ejemplo_fallo_def)
  have h4: "length (C_seq ejemplo_fallo) = 4 \<and> length (C_par ejemplo_fallo) = 4
        \<and> C_seq ejemplo_fallo \<noteq> C_par ejemplo_fallo"
    by (simp add: ejemplo_fallo_def)
  have v: "of_nat 2 = (2 :: int32)" "C_seq ejemplo_fallo ! 2 = 1030" "C_par ejemplo_fallo ! 2 = 999"
    "cout ejemplo_fallo = []" "cout ?ok = []"
    by (simp_all add: ejemplo_fallo_def)
  note c1 = verifier_reports_first_mismatch [of ?ok 4 0 ?ok, THEN conjunct1, THEN mp, OF h1,
      unfolded v append_Nil]
  note c2 = verifier_reports_first_mismatch [of ejemplo_fallo 4 2 ?short,
      THEN conjunct2, THEN conjunct1, THEN mp, OF h2, unfolded v append_Nil]
  note c3 = verifier_reports_first_mismatch [of ejemplo_fallo 4 2 ?short,
      THEN conjunct2, THEN conjunct2, THEN conjunct1, THEN mp, OF conjI [OF h2 h3, unfolded conj_assoc],
      unfolded v append_Nil]
  note c4 = verifier_reports_first_mismatch [of ejemplo_fallo 4 2 ?short,
      THEN conjunct2, THEN conjunct2, THEN conjunct2, THEN mp, OF h4]
  show ?thesis
    by (intro conjI) (rule c1, rule c2, rule c3, rule c4)
qed

text \<open>
  C4. From the previews on, \<^verbatim>\<open>main.cpp\<close> returns exit code 0 from every state whose
  arrays have \<open>N\<close> elements, whether \<open>C_seq\<close> and \<open>C_par\<close> agree or not: when they agree the
  status line says \<open>OK\<close>; when they differ the mismatch is reported, the status line says
  \<open>FALLO\<close>, the timings are still printed and the exit code is still 0. Both programs, run
  from their entry, return exit code 0.
\<close>

theorem mismatch_keeps_exit_code_zero:
  fixes st st0 :: "('g, 'd) main_state"
  shows
  "(main_entry st \<longrightarrow>
      (\<exists>st'. main_informe ts tp st = Inr (st', 0)
         \<and> (C_seq st = C_par st \<longrightarrow>
              cout st' = cout st @ preview_line ''A'' (A st) @ preview_line ''B'' (B st)
                         @ preview_line ''C (paralelo)'' (C_par st)
                         @ status_line True @ timing_lines ts tp)
         \<and> (C_seq st \<noteq> C_par st \<longrightarrow>
              (\<exists>k<N. C_seq st ! k \<noteq> C_par st ! k
                 \<and> cout st' = cout st @ preview_line ''A'' (A st) @ preview_line ''B'' (B st)
                             @ preview_line ''C (paralelo)'' (C_par st)
                             @ mismatch_report k (C_seq st ! k) (C_par st ! k)
                             @ status_line False @ timing_lines ts tp))))
   \<and> (main_entry st0 \<and> omp_main_for N chunk T order \<longrightarrow>
        (\<exists>st'. main_cpp uid order ts tp st0 = Inr (st', 0)))
   \<and> (omp_sol_for n_sol team order' \<longrightarrow>
        (\<exists>ss'. sol_main uid g0 order' ts tp = Inr (ss', 0)))"
proof (intro conjI impI)
  assume e: "main_entry st"
  show "\<exists>st'. main_informe ts tp st = Inr (st', 0)
         \<and> (C_seq st = C_par st \<longrightarrow>
              cout st' = cout st @ preview_line ''A'' (A st) @ preview_line ''B'' (B st)
                         @ preview_line ''C (paralelo)'' (C_par st)
                         @ status_line True @ timing_lines ts tp)
         \<and> (C_seq st \<noteq> C_par st \<longrightarrow>
              (\<exists>k<N. C_seq st ! k \<noteq> C_par st ! k
                 \<and> cout st' = cout st @ preview_line ''A'' (A st) @ preview_line ''B'' (B st)
                             @ preview_line ''C (paralelo)'' (C_par st)
                             @ mismatch_report k (C_seq st ! k) (C_par st ! k)
                             @ status_line False @ timing_lines ts tp))"
  proof (cases "C_seq st = C_par st")
    case True
    from main_informe_ok [OF e True, of ts tp] True show ?thesis by simp
  next
    case False
    with e have "\<exists>i<N. C_seq st ! i \<noteq> C_par st ! i"
      by (auto simp: list_eq_iff_nth_eq main_entry_def)
    then obtain k where k: "k < N" "C_seq st ! k \<noteq> C_par st ! k" "\<forall>i<k. C_seq st ! i = C_par st ! i"
      using first_mismatch by blast
    from main_informe_fallo [OF e k, of ts tp] False k(1,2) show ?thesis by auto
  qed
next
  assume "main_entry st0 \<and> omp_main_for N chunk T order"
  then show "\<exists>st'. main_cpp uid order ts tp st0 = Inr (st', 0)"
    using main_cpp_eq [of st0 T order uid ts tp] by blast
next
  assume "omp_sol_for n_sol team order'"
  then show "\<exists>ss'. sol_main uid g0 order' ts tp = Inr (ss', 0)"
    using sol_main_eq [of team order' uid g0 ts tp] by blast
qed

theorem mismatch_keeps_exit_code_zero_witness:
  "main_entry ejemplo_N_fallo \<and> C_seq ejemplo_N_fallo \<noteq> C_par ejemplo_N_fallo
   \<and> (\<exists>st'. main_informe 1 2 ejemplo_N_fallo = Inr (st', 0)
         \<and> (\<exists>k<N. C_seq ejemplo_N_fallo ! k \<noteq> C_par ejemplo_N_fallo ! k
                 \<and> cout st' = cout ejemplo_N_fallo @ preview_line ''A'' (A ejemplo_N_fallo)
                             @ preview_line ''B'' (B ejemplo_N_fallo)
                             @ preview_line ''C (paralelo)'' (C_par ejemplo_N_fallo)
                             @ mismatch_report k (C_seq ejemplo_N_fallo ! k) (C_par ejemplo_N_fallo ! k)
                             @ status_line False @ timing_lines 1 2))
   \<and> main_entry ejemplo_N \<and> omp_main_for N chunk 4 (concat (static_schedule N chunk 4))
   \<and> (\<exists>st'. main_cpp ends_uid (concat (static_schedule N chunk 4)) 1 2 ejemplo_N = Inr (st', 0))
   \<and> omp_sol_for n_sol [[0, 1, 2, 3, 4], [5, 6, 7, 8, 9]] [0, 5, 1, 6, 2, 7, 3, 8, 4, 9]
   \<and> (\<exists>ss'. sol_main ends_uid 0 [0, 5, 1, 6, 2, 7, 3, 8, 4, 9] (1 :: nat) 2 = Inr (ss', 0))"
proof -
  have e1: "main_entry ejemplo_N_fallo" and e2: "main_entry ejemplo_N"
    by (simp_all add: main_entry_def ejemplo_N_def ejemplo_N_fallo_def)
  have "C_seq ejemplo_N_fallo ! 5 \<noteq> C_par ejemplo_N_fallo ! 5"
    by (simp add: ejemplo_N_fallo_def ejemplo_N_def N_def)
  then have d: "C_seq ejemplo_N_fallo \<noteq> C_par ejemplo_N_fallo" by metis
  have o1: "omp_main_for N chunk 4 (concat (static_schedule N chunk 4))"
    by (simp add: omp_main_for_def interleaving_concat chunk_def)
  have o2: "omp_sol_for n_sol [[0, 1, 2, 3, 4], [5, 6, 7, 8, 9]] [0, 5, 1, 6, 2, 7, 3, 8, 4, 9]"
    by code_simp
  note t = mismatch_keeps_exit_code_zero [of ejemplo_N_fallo 1 2 ejemplo_N 4
      "concat (static_schedule N chunk 4)" ends_uid
      "[[0, 1, 2, 3, 4], [5, 6, 7, 8, 9]]" "[0, 5, 1, 6, 2, 7, 3, 8, 4, 9]" 0]
  from t [THEN conjunct1, THEN mp, OF e1] d
  have c1: "\<exists>st'. main_informe 1 2 ejemplo_N_fallo = Inr (st', 0)
         \<and> (\<exists>k<N. C_seq ejemplo_N_fallo ! k \<noteq> C_par ejemplo_N_fallo ! k
                 \<and> cout st' = cout ejemplo_N_fallo @ preview_line ''A'' (A ejemplo_N_fallo)
                             @ preview_line ''B'' (B ejemplo_N_fallo)
                             @ preview_line ''C (paralelo)'' (C_par ejemplo_N_fallo)
                             @ mismatch_report k (C_seq ejemplo_N_fallo ! k) (C_par ejemplo_N_fallo ! k)
                             @ status_line False @ timing_lines 1 2)"
    by blast
  note c2 = t [THEN conjunct2, THEN conjunct1, THEN mp, OF conjI [OF e2 o1]]
  note c3 = t [THEN conjunct2, THEN conjunct2, THEN mp, OF o2]
  show ?thesis
    by (intro conjI) (rule e1, rule d, rule c1, rule e2, rule o1, rule c2, rule o2, rule c3)
qed




text \<open>
  C6. When the library distribution keeps its contract, the generation loop returns and
  every element of \<open>A\<close> and of \<open>B\<close> that it leaves, at every index below \<open>n\<close>, lies between
  1 and 1000. Both programs.
\<close>

theorem generated_values_in_range:
  assumes "uid_contract uid"
    and "length (A st) = n" and "length (B st) = n"
    and "length (C_seq st) = n" and "length (C_par st) = n"
    and "length (sol_state.A ss) = m" and "length (sol_state.B ss) = m"
  shows "(\<exists>st'. inicializacion uid n st = Inr st' \<and> length (A st') = n \<and> length (B st') = n
            \<and> (\<forall>i<n. 1 \<le> sint (A st' ! i) \<and> sint (A st' ! i) \<le> 1000
                     \<and> 1 \<le> sint (B st' ! i) \<and> sint (B st' ! i) \<le> 1000))
       \<and> (\<exists>ss'. sol_generacion uid m ss = Inr ss'
            \<and> length (sol_state.A ss') = m \<and> length (sol_state.B ss') = m
            \<and> (\<forall>i<m. 1 \<le> sint (sol_state.A ss' ! i) \<and> sint (sol_state.A ss' ! i) \<le> 1000
                     \<and> 1 \<le> sint (sol_state.B ss' ! i) \<and> sint (sol_state.B ss' ! i) \<le> 1000))"
proof -
  let ?P = "\<lambda>v :: int32. 1 \<le> sint v \<and> sint v \<le> 1000"
  have P: "?P (fst (uid 1 1000 g))" for g
    using assms(1) [unfolded uid_contract_def, rule_format, of 1 1000 g] by simp
  from inicializacion_loop [where P = ?P and dist = "uid 1 1000", OF assms(2-5) P]
  have "\<exists>st'. inicializacion uid n st = Inr st' \<and> length (A st') = n \<and> length (B st') = n
            \<and> (\<forall>i<n. ?P (A st' ! i) \<and> ?P (B st' ! i))"
    unfolding inicializacion_def by blast
  moreover from sol_generacion_loop [where P = ?P and dist = "uid 1 1000", OF assms(6,7) P]
  have "\<exists>ss'. sol_generacion uid m ss = Inr ss'
            \<and> length (sol_state.A ss') = m \<and> length (sol_state.B ss') = m
            \<and> (\<forall>i<m. ?P (sol_state.A ss' ! i) \<and> ?P (sol_state.B ss' ! i))"
    unfolding sol_generacion_def by blast
  ultimately show ?thesis by simp
qed

theorem generated_values_in_range_witness:
  "uid_contract ends_uid
   \<and> (\<exists>st'. inicializacion ends_uid 4 ejemplo_main = Inr st' \<and> length (A st') = 4 \<and> length (B st') = 4
            \<and> (\<forall>i<4. 1 \<le> sint (A st' ! i) \<and> sint (A st' ! i) \<le> 1000
                     \<and> 1 \<le> sint (B st' ! i) \<and> sint (B st' ! i) \<le> 1000))
   \<and> (\<exists>ss'. sol_generacion ends_uid 3 ejemplo_sol = Inr ss'
            \<and> length (sol_state.A ss') = 3 \<and> length (sol_state.B ss') = 3
            \<and> (\<forall>i<3. 1 \<le> sint (sol_state.A ss' ! i) \<and> sint (sol_state.A ss' ! i) \<le> 1000
                     \<and> 1 \<le> sint (sol_state.B ss' ! i) \<and> sint (sol_state.B ss' ! i) \<le> 1000))"
proof -
  have c: "uid_contract ends_uid"
    by (simp add: uid_contract_def ends_uid_def)
  have l1: "length (A ejemplo_main) = 4" "length (B ejemplo_main) = 4"
    "length (C_seq ejemplo_main) = 4" "length (C_par ejemplo_main) = 4"
    by (simp_all add: ejemplo_main_def)
  have l2: "length (sol_state.A ejemplo_sol) = 3" "length (sol_state.B ejemplo_sol) = 3"
    by (simp_all add: ejemplo_sol_def)
  note r = generated_values_in_range [OF c l1 l2]
  show ?thesis
    by (intro conjI) (rule c, rule conjunct1 [OF r], rule conjunct2 [OF r])
qed

text \<open>
  C7. The reporter prints a prefix of each array and the two timings, on standard output.
  \<^verbatim>\<open>imprimeArreglo\<close> appends to the output the label and the first \<open>mostrar\<close> elements of an
  array that has at least that many, each followed by a space, and a line end;
  \<open>mostrar = 10\<close> and \<open>N = 1000\<close>, and \<^verbatim>\<open>main.cpp\<close> calls it for \<open>A\<close>, \<open>B\<close> and \<open>C_par\<close>, in
  this order. The timings are appended after \<^verbatim>\<open>fixed\<close> and \<^verbatim>\<open>setprecision(4)\<close>. The second
  program appends all \<open>n\<close> elements of \<open>A\<close>, \<open>B\<close> and \<open>Rpar\<close>. In a whole run of \<^verbatim>\<open>main.cpp\<close>
  the output is the banner, the three previews of the final arrays, the verification
  lines and the two timings; in a whole run of the second program it is the three array
  lines and the two timings.
\<close>

theorem reporter_prints_prefix_and_timings:
  fixes st :: "('g, 'd, 'z) process_scheme" and ms st0 :: "('g, 'd) main_state"
    and ss :: "('g, 'd) sol_state"
  shows
  "(mostrar \<le> length d \<longrightarrow>
      (\<exists>st'. imprimeArreglo d nombre st = Inr st'
         \<and> cout st' = cout st
              @ [Str ''Arreglo '', Str nombre, Str '' (primeros '', Num 10, Str ''): '']
              @ elements_out (take mostrar d) @ [Endl]))
   \<and> mostrar = 10 \<and> N = 1000 \<and> mostrar \<le> N
   \<and> (main_entry ms \<longrightarrow>
        (\<exists>ms'. vista_previa ms = Inr ms'
           \<and> cout ms' = cout ms
                @ [Str ''Arreglo '', Str ''A'', Str '' (primeros '', Num 10, Str ''): '']
                @ elements_out (take mostrar (A ms)) @ [Endl]
                @ [Str ''Arreglo '', Str ''B'', Str '' (primeros '', Num 10, Str ''): '']
                @ elements_out (take mostrar (B ms)) @ [Endl]
                @ [Str ''Arreglo '', Str ''C (paralelo)'', Str '' (primeros '', Num 10, Str ''): '']
                @ elements_out (take mostrar (C_par ms)) @ [Endl]))
   \<and> cout (reporte_tiempos ts tp st) = cout st
        @ [Fixed, SetPrecision 4, Str ''\<newline>Tiempo secuencial (ms): '', Dbl ts, Endl,
           Str ''Tiempo paralelo   (ms): '', Dbl tp, Endl]
   \<and> (length (sol_state.A ss) = n \<and> length (sol_state.B ss) = n \<and> length (Rpar ss) = n \<longrightarrow>
        (\<exists>ss'. sol_impresion n ss = Inr ss'
           \<and> cout ss' = cout ss
                @ [Str ''Arreglo A: ''] @ elements_out (sol_state.A ss) @ [Endl]
                @ [Str ''Arreglo B: ''] @ elements_out (sol_state.B ss) @ [Endl]
                @ [Str ''Arreglo Resultado (Paralelo): ''] @ elements_out (Rpar ss) @ [Endl]))
   \<and> (main_entry st0 \<and> omp_main_for N chunk T order \<longrightarrow>
        (\<exists>st' mid. main_cpp uid order ts tp st0 = Inr (st', 0)
           \<and> cout st' = cout st0 @ [Str ''Sumando Arreglos en Paralelo (OpenMP)\<newline>'']
                @ [Str ''Arreglo '', Str ''A'', Str '' (primeros '', Num 10, Str ''): '']
                @ elements_out (take mostrar (A st')) @ [Endl]
                @ [Str ''Arreglo '', Str ''B'', Str '' (primeros '', Num 10, Str ''): '']
                @ elements_out (take mostrar (B st')) @ [Endl]
                @ [Str ''Arreglo '', Str ''C (paralelo)'', Str '' (primeros '', Num 10, Str ''): '']
                @ elements_out (take mostrar (C_par st')) @ [Endl]
                @ mid
                @ [Fixed, SetPrecision 4, Str ''\<newline>Tiempo secuencial (ms): '', Dbl ts, Endl,
                   Str ''Tiempo paralelo   (ms): '', Dbl tp, Endl]))
   \<and> (omp_sol_for n_sol team order' \<longrightarrow>
        (\<exists>ss'. sol_main uid g0 order' ts tp = Inr (ss', 0)
           \<and> length (sol_state.A ss') = n_sol \<and> length (sol_state.B ss') = n_sol
           \<and> length (Rpar ss') = n_sol
           \<and> cout ss' =
                [Str ''Arreglo A: ''] @ elements_out (sol_state.A ss') @ [Endl]
                @ [Str ''Arreglo B: ''] @ elements_out (sol_state.B ss') @ [Endl]
                @ [Str ''Arreglo Resultado (Paralelo): ''] @ elements_out (Rpar ss') @ [Endl]
                @ [Fixed, SetPrecision 4, Str ''\<newline>Tiempo secuencial (ms): '', Dbl ts, Endl,
                   Str ''Tiempo paralelo   (ms): '', Dbl tp, Endl]))"
proof (intro conjI impI)
  assume "mostrar \<le> length d"
  then have "imprimeArreglo d nombre st =
        Inr (print ([Str ''Arreglo '', Str nombre, Str '' (primeros '', Num 10, Str ''): '']
                    @ elements_out (take mostrar d) @ [Endl]) st)"
    using imprimeArreglo_eq [of d nombre st] by (simp add: mostrar_def)
  then show "\<exists>st'. imprimeArreglo d nombre st = Inr st'
         \<and> cout st' = cout st
              @ [Str ''Arreglo '', Str nombre, Str '' (primeros '', Num 10, Str ''): '']
              @ elements_out (take mostrar d) @ [Endl]"
    by simp
next
  assume "main_entry ms"
  from main_entry_mostrar [OF this] have "vista_previa ms =
          Inr (print ([Str ''Arreglo '', Str ''A'', Str '' (primeros '', Num 10, Str ''): '']
                      @ elements_out (take mostrar (A ms)) @ [Endl]
                      @ [Str ''Arreglo '', Str ''B'', Str '' (primeros '', Num 10, Str ''): '']
                      @ elements_out (take mostrar (B ms)) @ [Endl]
                      @ [Str ''Arreglo '', Str ''C (paralelo)'', Str '' (primeros '', Num 10, Str ''): '']
                      @ elements_out (take mostrar (C_par ms)) @ [Endl]) ms)"
    using vista_previa_eq [of ms] by (simp add: mostrar_def)
  then show "\<exists>ms'. vista_previa ms = Inr ms'
           \<and> cout ms' = cout ms
                @ [Str ''Arreglo '', Str ''A'', Str '' (primeros '', Num 10, Str ''): '']
                @ elements_out (take mostrar (A ms)) @ [Endl]
                @ [Str ''Arreglo '', Str ''B'', Str '' (primeros '', Num 10, Str ''): '']
                @ elements_out (take mostrar (B ms)) @ [Endl]
                @ [Str ''Arreglo '', Str ''C (paralelo)'', Str '' (primeros '', Num 10, Str ''): '']
                @ elements_out (take mostrar (C_par ms)) @ [Endl]"
    by simp
next
  show "cout (reporte_tiempos ts tp st) = cout st
        @ [Fixed, SetPrecision 4, Str ''\<newline>Tiempo secuencial (ms): '', Dbl ts, Endl,
           Str ''Tiempo paralelo   (ms): '', Dbl tp, Endl]"
    by (simp add: reporte_tiempos_eq)
next
  assume "length (sol_state.A ss) = n \<and> length (sol_state.B ss) = n \<and> length (Rpar ss) = n"
  then have "sol_impresion n ss =
          Inr (print ([Str ''Arreglo A: ''] @ elements_out (sol_state.A ss) @ [Endl]
                      @ [Str ''Arreglo B: ''] @ elements_out (sol_state.B ss) @ [Endl]
                      @ [Str ''Arreglo Resultado (Paralelo): ''] @ elements_out (Rpar ss) @ [Endl]) ss)"
    using sol_impresion_eq [of n ss] by simp
  then show "\<exists>ss'. sol_impresion n ss = Inr ss'
           \<and> cout ss' = cout ss
                @ [Str ''Arreglo A: ''] @ elements_out (sol_state.A ss) @ [Endl]
                @ [Str ''Arreglo B: ''] @ elements_out (sol_state.B ss) @ [Endl]
                @ [Str ''Arreglo Resultado (Paralelo): ''] @ elements_out (Rpar ss) @ [Endl]"
    by simp
next
  assume "main_entry st0 \<and> omp_main_for N chunk T order"
  then obtain st1 where st1: "main_entry st1"
      "cout st1 = cout st0 @ [Str ''Sumando Arreglos en Paralelo (OpenMP)\<newline>'']"
    and run: "main_cpp uid order ts tp st0 =
              Inr (print (preview_line ''A'' (A st1) @ preview_line ''B'' (B st1)
                          @ preview_line ''C (paralelo)'' (spec_sum (A st1) (B st1) N)
                          @ status_line True @ timing_lines ts tp)
                     (st1\<lparr>C_seq := spec_sum (A st1) (B st1) N,
                          C_par := spec_sum (A st1) (B st1) N\<rparr>), 0)"
    using main_cpp_eq [of st0 T order uid ts tp] by blast
  show "\<exists>st' mid. main_cpp uid order ts tp st0 = Inr (st', 0)
           \<and> cout st' = cout st0 @ [Str ''Sumando Arreglos en Paralelo (OpenMP)\<newline>'']
                @ [Str ''Arreglo '', Str ''A'', Str '' (primeros '', Num 10, Str ''): '']
                @ elements_out (take mostrar (A st')) @ [Endl]
                @ [Str ''Arreglo '', Str ''B'', Str '' (primeros '', Num 10, Str ''): '']
                @ elements_out (take mostrar (B st')) @ [Endl]
                @ [Str ''Arreglo '', Str ''C (paralelo)'', Str '' (primeros '', Num 10, Str ''): '']
                @ elements_out (take mostrar (C_par st')) @ [Endl]
                @ mid
                @ [Fixed, SetPrecision 4, Str ''\<newline>Tiempo secuencial (ms): '', Dbl ts, Endl,
                   Str ''Tiempo paralelo   (ms): '', Dbl tp, Endl]"
    unfolding run
    apply (rule exI [of _ "print (preview_line ''A'' (A st1) @ preview_line ''B'' (B st1)
                          @ preview_line ''C (paralelo)'' (spec_sum (A st1) (B st1) N)
                          @ status_line True @ timing_lines ts tp)
                     (st1\<lparr>C_seq := spec_sum (A st1) (B st1) N,
                          C_par := spec_sum (A st1) (B st1) N\<rparr>)"])
    apply (rule exI [of _ "status_line True"])
    apply (simp add: st1(2) preview_line_def timing_lines_def mostrar_def)
    done
next
  assume "omp_sol_for n_sol team order'"
  then obtain ss1 :: "('g, 'd) sol_state" where ss1: "cout ss1 = []"
      "length (sol_state.A ss1) = n_sol" "length (sol_state.B ss1) = n_sol"
    and run: "sol_main uid g0 order' ts tp =
              Inr (print (array_line ''Arreglo A: '' (sol_state.A ss1)
                          @ array_line ''Arreglo B: '' (sol_state.B ss1)
                          @ array_line ''Arreglo Resultado (Paralelo): ''
                              (spec_sum (sol_state.A ss1) (sol_state.B ss1) n_sol)
                          @ timing_lines ts tp)
                     (ss1\<lparr>R := spec_sum (sol_state.A ss1) (sol_state.B ss1) n_sol,
                          Rpar := spec_sum (sol_state.A ss1) (sol_state.B ss1) n_sol\<rparr>), 0)"
    using sol_main_eq [of team order' uid g0 ts tp] by blast
  show "\<exists>ss'. sol_main uid g0 order' ts tp = Inr (ss', 0)
           \<and> length (sol_state.A ss') = n_sol \<and> length (sol_state.B ss') = n_sol
           \<and> length (Rpar ss') = n_sol
           \<and> cout ss' =
                [Str ''Arreglo A: ''] @ elements_out (sol_state.A ss') @ [Endl]
                @ [Str ''Arreglo B: ''] @ elements_out (sol_state.B ss') @ [Endl]
                @ [Str ''Arreglo Resultado (Paralelo): ''] @ elements_out (Rpar ss') @ [Endl]
                @ [Fixed, SetPrecision 4, Str ''\<newline>Tiempo secuencial (ms): '', Dbl ts, Endl,
                   Str ''Tiempo paralelo   (ms): '', Dbl tp, Endl]"
    by (simp add: run ss1 array_line_def timing_lines_def length_spec_sum)
qed (simp_all add: mostrar_def N_def)

theorem reporter_prints_prefix_and_timings_witness:
  "(\<exists>st'. imprimeArreglo [1, 2, 3, 4, 5, 6, 7, 8, 9, 10, 11, 12] ''A'' ejemplo_N = Inr st'
       \<and> cout st' = [Str ''Arreglo '', Str ''A'', Str '' (primeros '', Num 10, Str ''): '',
                     Num 1, Str '' '', Num 2, Str '' '', Num 3, Str '' '', Num 4, Str '' '',
                     Num 5, Str '' '', Num 6, Str '' '', Num 7, Str '' '', Num 8, Str '' '',
                     Num 9, Str '' '', Num 10, Str '' '', Endl])
   \<and> main_entry ejemplo_N
   \<and> (\<exists>ms'. vista_previa ejemplo_N = Inr ms'
         \<and> cout ms' = cout ejemplo_N
                @ [Str ''Arreglo '', Str ''A'', Str '' (primeros '', Num 10, Str ''): '']
                @ elements_out (take mostrar (A ejemplo_N)) @ [Endl]
                @ [Str ''Arreglo '', Str ''B'', Str '' (primeros '', Num 10, Str ''): '']
                @ elements_out (take mostrar (B ejemplo_N)) @ [Endl]
                @ [Str ''Arreglo '', Str ''C (paralelo)'', Str '' (primeros '', Num 10, Str ''): '']
                @ elements_out (take mostrar (C_par ejemplo_N)) @ [Endl])
   \<and> (\<exists>ss'. sol_impresion 3 ejemplo_sol = Inr ss'
         \<and> cout ss' = [Str ''Arreglo A: '', Num 5, Str '' '', Num 6, Str '' '', Num 7, Str '' '', Endl,
                       Str ''Arreglo B: '', Num 1, Str '' '', Num 1, Str '' '', Num 1000, Str '' '', Endl,
                       Str ''Arreglo Resultado (Paralelo): '',
                       Num 0, Str '' '', Num 0, Str '' '', Num 0, Str '' '', Endl])
   \<and> omp_main_for N chunk 4 (concat (static_schedule N chunk 4))
   \<and> (\<exists>st' mid. main_cpp ends_uid (concat (static_schedule N chunk 4)) 1 2 ejemplo_N = Inr (st', 0)
           \<and> cout st' = cout ejemplo_N @ [Str ''Sumando Arreglos en Paralelo (OpenMP)\<newline>'']
                @ [Str ''Arreglo '', Str ''A'', Str '' (primeros '', Num 10, Str ''): '']
                @ elements_out (take mostrar (A st')) @ [Endl]
                @ [Str ''Arreglo '', Str ''B'', Str '' (primeros '', Num 10, Str ''): '']
                @ elements_out (take mostrar (B st')) @ [Endl]
                @ [Str ''Arreglo '', Str ''C (paralelo)'', Str '' (primeros '', Num 10, Str ''): '']
                @ elements_out (take mostrar (C_par st')) @ [Endl]
                @ mid
                @ [Fixed, SetPrecision 4, Str ''\<newline>Tiempo secuencial (ms): '', Dbl 1, Endl,
                   Str ''Tiempo paralelo   (ms): '', Dbl 2, Endl])
   \<and> omp_sol_for n_sol [[0, 1, 2, 3, 4], [5, 6, 7, 8, 9]] [0, 5, 1, 6, 2, 7, 3, 8, 4, 9]
   \<and> (\<exists>ss'. sol_main ends_uid (0 :: nat) [0, 5, 1, 6, 2, 7, 3, 8, 4, 9] (1 :: nat) 2 = Inr (ss', 0)
           \<and> length (sol_state.A ss') = n_sol \<and> length (sol_state.B ss') = n_sol
           \<and> length (Rpar ss') = n_sol
           \<and> cout ss' =
                [Str ''Arreglo A: ''] @ elements_out (sol_state.A ss') @ [Endl]
                @ [Str ''Arreglo B: ''] @ elements_out (sol_state.B ss') @ [Endl]
                @ [Str ''Arreglo Resultado (Paralelo): ''] @ elements_out (Rpar ss') @ [Endl]
                @ [Fixed, SetPrecision 4, Str ''\<newline>Tiempo secuencial (ms): '', Dbl 1, Endl,
                   Str ''Tiempo paralelo   (ms): '', Dbl 2, Endl])"
proof -
  let ?d = "[1, 2, 3, 4, 5, 6, 7, 8, 9, 10, 11, 12] :: int32 list"
  let ?order = "concat (static_schedule N chunk 4)"
  let ?team = "[[0, 1, 2, 3, 4], [5, 6, 7, 8, 9]] :: nat list list"
  let ?order' = "[0, 5, 1, 6, 2, 7, 3, 8, 4, 9] :: nat list"
  have h1: "mostrar \<le> length ?d" by (simp add: mostrar_def)
  have h2: "main_entry ejemplo_N" by (simp add: main_entry_def ejemplo_N_def)
  have h3: "length (sol_state.A ejemplo_sol) = 3 \<and> length (sol_state.B ejemplo_sol) = 3
      \<and> length (Rpar ejemplo_sol) = 3"
    by (simp add: ejemplo_sol_def)
  have o1: "omp_main_for N chunk 4 ?order"
    by (simp add: omp_main_for_def interleaving_concat chunk_def)
  have o2: "omp_sol_for n_sol ?team ?order'" by code_simp
  have v1: "cout ejemplo_N
              @ [Str ''Arreglo '', Str ''A'', Str '' (primeros '', Num 10, Str ''): '']
              @ elements_out (take mostrar ?d) @ [Endl]
            = [Str ''Arreglo '', Str ''A'', Str '' (primeros '', Num 10, Str ''): '',
               Num 1, Str '' '', Num 2, Str '' '', Num 3, Str '' '', Num 4, Str '' '',
               Num 5, Str '' '', Num 6, Str '' '', Num 7, Str '' '', Num 8, Str '' '',
               Num 9, Str '' '', Num 10, Str '' '', Endl :: nat out_item]"
    by (simp add: ejemplo_N_def mostrar_def elements_out_def)
  have v3: "cout ejemplo_sol
                @ [Str ''Arreglo A: ''] @ elements_out (sol_state.A ejemplo_sol) @ [Endl]
                @ [Str ''Arreglo B: ''] @ elements_out (sol_state.B ejemplo_sol) @ [Endl]
                @ [Str ''Arreglo Resultado (Paralelo): ''] @ elements_out (Rpar ejemplo_sol) @ [Endl]
            = [Str ''Arreglo A: '', Num 5, Str '' '', Num 6, Str '' '', Num 7, Str '' '', Endl,
               Str ''Arreglo B: '', Num 1, Str '' '', Num 1, Str '' '', Num 1000, Str '' '', Endl,
               Str ''Arreglo Resultado (Paralelo): '',
               Num 0, Str '' '', Num 0, Str '' '', Num 0, Str '' '', Endl :: nat out_item]"
    by (simp add: ejemplo_sol_def elements_out_def)
  note t = reporter_prints_prefix_and_timings [where d = ?d and nombre = "''A''" and st = ejemplo_N
      and ms = ejemplo_N and ss = ejemplo_sol and n = 3 and ?st0.0 = ejemplo_N and T = 4
      and order = ?order and uid = ends_uid and ts = 1 and tp = 2 and team = ?team
      and order' = ?order' and ?g0.0 = "0 :: nat"]
  note c1 = t [THEN conjunct1, THEN mp, OF h1, unfolded v1]
  note c2 = t [THEN conjunct2, THEN conjunct2, THEN conjunct2, THEN conjunct2, THEN conjunct1,
      THEN mp, OF h2]
  note c3 = t [THEN conjunct2, THEN conjunct2, THEN conjunct2, THEN conjunct2, THEN conjunct2,
      THEN conjunct2, THEN conjunct1, THEN mp, OF h3, unfolded v3]
  note c4 = t [THEN conjunct2, THEN conjunct2, THEN conjunct2, THEN conjunct2, THEN conjunct2,
      THEN conjunct2, THEN conjunct2, THEN conjunct1, THEN mp, OF conjI [OF h2 o1]]
  note c5 = t [THEN conjunct2, THEN conjunct2, THEN conjunct2, THEN conjunct2, THEN conjunct2,
      THEN conjunct2, THEN conjunct2, THEN conjunct2, THEN mp, OF o2]
  show ?thesis
    by (intro conjI) (rule c1, rule h2, rule c2, rule c3, rule o1, rule c4, rule o2, rule c5)
qed

text \<open>
  C8. \<open>A\<close> and \<open>B\<close> are not written after generation. Whenever the sequential pass,
  the parallel pass (in any order of iterations), the previews or the verifier return,
  \<open>A\<close> and \<open>B\<close> are what they were before; the timing report leaves them too. The same
  holds for the passes and the printing of the second program. Run whole, each program
  returns with \<open>A\<close> and \<open>B\<close> exactly as its generation loop left them.
\<close>

theorem inputs_unchanged_after_generation:
  fixes st st' st0 :: "('g, 'd) main_state" and ss ss' :: "('g, 'd) sol_state"
  shows
  "(suma_secuencial n st = Inr st' \<longrightarrow> A st' = A st \<and> B st' = B st)
   \<and> (suma_paralela order st = Inr st' \<longrightarrow> A st' = A st \<and> B st' = B st)
   \<and> (vista_previa st = Inr st' \<longrightarrow> A st' = A st \<and> B st' = B st)
   \<and> (verificacion n st = Inr (c, st') \<longrightarrow> A st' = A st \<and> B st' = B st)
   \<and> A (reporte_tiempos ts tp st) = A st \<and> B (reporte_tiempos ts tp st) = B st
   \<and> (sol_suma_secuencial m ss = Inr ss' \<longrightarrow>
         sol_state.A ss' = sol_state.A ss \<and> sol_state.B ss' = sol_state.B ss)
   \<and> (sol_suma_paralela order' ss = Inr ss' \<longrightarrow>
         sol_state.A ss' = sol_state.A ss \<and> sol_state.B ss' = sol_state.B ss)
   \<and> (sol_impresion m ss = Inr ss' \<longrightarrow>
         sol_state.A ss' = sol_state.A ss \<and> sol_state.B ss' = sol_state.B ss)
   \<and> sol_state.A (reporte_tiempos ts tp ss) = sol_state.A ss
   \<and> sol_state.B (reporte_tiempos ts tp ss) = sol_state.B ss
   \<and> (main_entry st0 \<and> omp_main_for N chunk T order0 \<longrightarrow>
        (\<exists>st1 stf. inicializacion uid N (print [Str ''Sumando Arreglos en Paralelo (OpenMP)\<newline>''] st0) = Inr st1
           \<and> main_cpp uid order0 ts tp st0 = Inr (stf, 0)
           \<and> A stf = A st1 \<and> B stf = B st1))
   \<and> (omp_sol_for n_sol team order1 \<longrightarrow>
        (\<exists>(ss1 :: ('g, 'd) sol_state) ssf. sol_generacion uid n_sol (sol_entry g0 n_sol) = Inr ss1
           \<and> sol_main uid g0 order1 ts tp = Inr (ssf, 0)
           \<and> sol_state.A ssf = sol_state.A ss1 \<and> sol_state.B ssf = sol_state.B ss1))"
proof (intro conjI impI)
  assume "main_entry st0 \<and> omp_main_for N chunk T order0"
  then obtain st1 where "inicializacion uid N (print [Str ''Sumando Arreglos en Paralelo (OpenMP)\<newline>''] st0) = Inr st1"
    and "main_cpp uid order0 ts tp st0 =
              Inr (print (preview_line ''A'' (A st1) @ preview_line ''B'' (B st1)
                          @ preview_line ''C (paralelo)'' (spec_sum (A st1) (B st1) N)
                          @ status_line True @ timing_lines ts tp)
                     (st1\<lparr>C_seq := spec_sum (A st1) (B st1) N,
                          C_par := spec_sum (A st1) (B st1) N\<rparr>), 0)"
    using main_cpp_eq [of st0 T order0 uid ts tp] by blast
  then show "\<exists>st1 stf. inicializacion uid N (print [Str ''Sumando Arreglos en Paralelo (OpenMP)\<newline>''] st0) = Inr st1
           \<and> main_cpp uid order0 ts tp st0 = Inr (stf, 0)
           \<and> A stf = A st1 \<and> B stf = B st1"
    by simp
next
  assume "omp_sol_for n_sol team order1"
  then obtain ss1 where "sol_generacion uid n_sol (sol_entry g0 n_sol) = Inr ss1"
    and "sol_main uid g0 order1 ts tp =
              Inr (print (array_line ''Arreglo A: '' (sol_state.A ss1)
                          @ array_line ''Arreglo B: '' (sol_state.B ss1)
                          @ array_line ''Arreglo Resultado (Paralelo): ''
                              (spec_sum (sol_state.A ss1) (sol_state.B ss1) n_sol)
                          @ timing_lines ts tp)
                     (ss1\<lparr>R := spec_sum (sol_state.A ss1) (sol_state.B ss1) n_sol,
                          Rpar := spec_sum (sol_state.A ss1) (sol_state.B ss1) n_sol\<rparr>), 0)"
    using sol_main_eq [of team order1 uid g0 ts tp] by blast
  then show "\<exists>(ss1 :: ('g, 'd) sol_state) ssf. sol_generacion uid n_sol (sol_entry g0 n_sol) = Inr ss1
           \<and> sol_main uid g0 order1 ts tp = Inr (ssf, 0)
           \<and> sol_state.A ssf = sol_state.A ss1 \<and> sol_state.B ssf = sol_state.B ss1"
    by simp
qed (simp_all add: suma_secuencial_frame suma_paralela_frame vista_previa_frame
    verificacion_frame sol_suma_secuencial_frame sol_suma_paralela_frame sol_impresion_frame
    reporte_tiempos_eq)

theorem inputs_unchanged_after_generation_witness:
  "suma_secuencial 4 ejemplo_main = Inr (ejemplo_main\<lparr>C_seq := [11, 1002, 1030, 44]\<rparr>)
   \<and> A (ejemplo_main\<lparr>C_seq := [11, 1002, 1030, 44]\<rparr>) = A ejemplo_main
   \<and> B (ejemplo_main\<lparr>C_seq := [11, 1002, 1030, 44]\<rparr>) = B ejemplo_main
   \<and> suma_paralela [1, 0, 3, 2] ejemplo_main = Inr (ejemplo_main\<lparr>C_par := [11, 1002, 1030, 44]\<rparr>)
   \<and> A (ejemplo_main\<lparr>C_par := [11, 1002, 1030, 44]\<rparr>) = A ejemplo_main
   \<and> B (ejemplo_main\<lparr>C_par := [11, 1002, 1030, 44]\<rparr>) = B ejemplo_main
   \<and> (\<exists>st'. vista_previa ejemplo_N = Inr st' \<and> A st' = A ejemplo_N \<and> B st' = B ejemplo_N)
   \<and> (\<exists>st'. verificacion 4 ejemplo_fallo = Inr (False, st')
          \<and> A st' = A ejemplo_fallo \<and> B st' = B ejemplo_fallo)
   \<and> sol_suma_secuencial 3 ejemplo_sol = Inr (ejemplo_sol\<lparr>R := [6, 7, 1007]\<rparr>)
   \<and> sol_state.A (ejemplo_sol\<lparr>R := [6, 7, 1007]\<rparr>) = sol_state.A ejemplo_sol
   \<and> sol_state.B (ejemplo_sol\<lparr>R := [6, 7, 1007]\<rparr>) = sol_state.B ejemplo_sol
   \<and> sol_suma_paralela [2, 0, 1] ejemplo_sol = Inr (ejemplo_sol\<lparr>Rpar := [6, 7, 1007]\<rparr>)
   \<and> sol_state.A (ejemplo_sol\<lparr>Rpar := [6, 7, 1007]\<rparr>) = sol_state.A ejemplo_sol
   \<and> sol_state.B (ejemplo_sol\<lparr>Rpar := [6, 7, 1007]\<rparr>) = sol_state.B ejemplo_sol
   \<and> (\<exists>ss'. sol_impresion 3 ejemplo_sol = Inr ss'
          \<and> sol_state.A ss' = sol_state.A ejemplo_sol \<and> sol_state.B ss' = sol_state.B ejemplo_sol)
   \<and> main_entry ejemplo_N \<and> omp_main_for N chunk 4 (concat (static_schedule N chunk 4))
   \<and> (\<exists>st1 stf. inicializacion ends_uid N
                     (print [Str ''Sumando Arreglos en Paralelo (OpenMP)\<newline>''] ejemplo_N) = Inr st1
           \<and> main_cpp ends_uid (concat (static_schedule N chunk 4)) 1 2 ejemplo_N = Inr (stf, 0)
           \<and> A stf = A st1 \<and> B stf = B st1)
   \<and> omp_sol_for n_sol [[0, 1, 2, 3, 4], [5, 6, 7, 8, 9]] [0, 5, 1, 6, 2, 7, 3, 8, 4, 9]
   \<and> (\<exists>(ss1 :: (nat, nat) sol_state) ssf. sol_generacion ends_uid n_sol (sol_entry 0 n_sol) = Inr ss1
           \<and> sol_main ends_uid 0 [0, 5, 1, 6, 2, 7, 3, 8, 4, 9] (1 :: nat) 2 = Inr (ssf, 0)
           \<and> sol_state.A ssf = sol_state.A ss1 \<and> sol_state.B ssf = sol_state.B ss1)"
proof -
  let ?m1 = "ejemplo_main\<lparr>C_seq := [11, 1002, 1030, 44]\<rparr>"
  let ?m2 = "ejemplo_main\<lparr>C_par := [11, 1002, 1030, 44]\<rparr>"
  let ?s1 = "ejemplo_sol\<lparr>R := [6, 7, 1007]\<rparr>"
  let ?s2 = "ejemplo_sol\<lparr>Rpar := [6, 7, 1007]\<rparr>"
  let ?order = "concat (static_schedule N chunk 4)"
  let ?team = "[[0, 1, 2, 3, 4], [5, 6, 7, 8, 9]] :: nat list list"
  let ?order' = "[0, 5, 1, 6, 2, 7, 3, 8, 4, 9] :: nat list"
  have h1: "suma_secuencial 4 ejemplo_main = Inr ?m1" by code_simp
  have h2: "suma_paralela [1, 0, 3, 2] ejemplo_main = Inr ?m2" by code_simp
  have e: "main_entry ejemplo_N" by (simp add: main_entry_def ejemplo_N_def)
  obtain v where h3: "vista_previa ejemplo_N = Inr v"
    using vista_previa_lines [OF e] by blast
  let ?w = "print [Str ''\<newline>[ERROR] Diferencia en i='', Num 2,
                   Str '' C_seq='', Num 1030, Str '' C_par='', Num 999, Endl,
                   Str ''\<newline>Verificacion (C_seq == C_par): '', Str ''FALLO'', Endl] ejemplo_fallo"
  have h4: "verificacion 4 ejemplo_fallo = Inr (False, ?w)" by code_simp
  have h5: "sol_suma_secuencial 3 ejemplo_sol = Inr ?s1" by code_simp
  have h6: "sol_suma_paralela [2, 0, 1] ejemplo_sol = Inr ?s2" by code_simp
  let ?x = "print (array_line ''Arreglo A: '' [5, 6, 7] @ array_line ''Arreglo B: '' [1, 1, 1000]
               @ array_line ''Arreglo Resultado (Paralelo): '' [0, 0, 0]) ejemplo_sol"
  have h7: "sol_impresion 3 ejemplo_sol = Inr ?x" by code_simp
  have o1: "omp_main_for N chunk 4 ?order"
    by (simp add: omp_main_for_def interleaving_concat chunk_def)
  have o2: "omp_sol_for n_sol ?team ?order'" by code_simp
  note t = inputs_unchanged_after_generation
  note c1 = t [where n = 4 and st = ejemplo_main and st' = ?m1, THEN conjunct1, THEN mp, OF h1]
  note c2 = t [where order = "[1, 0, 3, 2]" and st = ejemplo_main and st' = ?m2,
      THEN conjunct2, THEN conjunct1, THEN mp, OF h2]
  note c3 = t [where st = ejemplo_N and st' = v,
      THEN conjunct2, THEN conjunct2, THEN conjunct1, THEN mp, OF h3]
  note c4 = t [where n = 4 and st = ejemplo_fallo and st' = ?w and c = False,
      THEN conjunct2, THEN conjunct2, THEN conjunct2, THEN conjunct1, THEN mp, OF h4]
  note c5 = t [where m = 3 and ss = ejemplo_sol and ss' = ?s1,
      THEN conjunct2, THEN conjunct2, THEN conjunct2, THEN conjunct2, THEN conjunct2,
      THEN conjunct2, THEN conjunct1, THEN mp, OF h5]
  note c6 = t [where order' = "[2, 0, 1]" and ss = ejemplo_sol and ss' = ?s2,
      THEN conjunct2, THEN conjunct2, THEN conjunct2, THEN conjunct2, THEN conjunct2,
      THEN conjunct2, THEN conjunct2, THEN conjunct1, THEN mp, OF h6]
  note c7 = t [where m = 3 and ss = ejemplo_sol and ss' = ?x,
      THEN conjunct2, THEN conjunct2, THEN conjunct2, THEN conjunct2, THEN conjunct2,
      THEN conjunct2, THEN conjunct2, THEN conjunct2, THEN conjunct1, THEN mp, OF h7]
  note c8 = t [where ?st0.0 = ejemplo_N and T = 4 and ?order0.0 = ?order and uid = ends_uid
        and ts = 1 and tp = 2,
      THEN conjunct2, THEN conjunct2, THEN conjunct2, THEN conjunct2, THEN conjunct2,
      THEN conjunct2, THEN conjunct2, THEN conjunct2, THEN conjunct2, THEN conjunct2,
      THEN conjunct2, THEN conjunct1, THEN mp, OF conjI [OF e o1]]
  note c9 = t [where team = ?team and ?order1.0 = ?order' and uid = ends_uid and ?g0.0 = 0
        and ts = "1 :: nat" and tp = 2,
      THEN conjunct2, THEN conjunct2, THEN conjunct2, THEN conjunct2, THEN conjunct2,
      THEN conjunct2, THEN conjunct2, THEN conjunct2, THEN conjunct2, THEN conjunct2,
      THEN conjunct2, THEN conjunct2, THEN mp, OF o2]
  have g3: "\<exists>st'. vista_previa ejemplo_N = Inr st' \<and> A st' = A ejemplo_N \<and> B st' = B ejemplo_N"
    by (rule exI [of _ v], intro conjI, rule h3, rule c3 [THEN conjunct1], rule c3 [THEN conjunct2])
  have g4: "\<exists>st'. verificacion 4 ejemplo_fallo = Inr (False, st')
          \<and> A st' = A ejemplo_fallo \<and> B st' = B ejemplo_fallo"
    by (rule exI [of _ ?w], intro conjI, rule h4, rule c4 [THEN conjunct1], rule c4 [THEN conjunct2])
  have g7: "\<exists>ss'. sol_impresion 3 ejemplo_sol = Inr ss'
          \<and> sol_state.A ss' = sol_state.A ejemplo_sol \<and> sol_state.B ss' = sol_state.B ejemplo_sol"
    by (rule exI [of _ ?x], intro conjI, rule h7, rule c7 [THEN conjunct1], rule c7 [THEN conjunct2])
  show ?thesis
    by (intro conjI)
      (rule h1, rule c1 [THEN conjunct1], rule c1 [THEN conjunct2],
        rule h2, rule c2 [THEN conjunct1], rule c2 [THEN conjunct2], rule g3, rule g4,
        rule h5, rule c5 [THEN conjunct1], rule c5 [THEN conjunct2],
        rule h6, rule c6 [THEN conjunct1], rule c6 [THEN conjunct2], rule g7,
        rule e, rule o1, rule c8, rule o2, rule c9)
qed

text \<open>
  C9. When every element of \<open>A\<close> and \<open>B\<close> lies between 1 and 1000, both passes return and
  every element of both result arrays, read as a signed 32-bit integer, is the exact integer
  sum of its two inputs (no addition wraps around) and lies between 2 and 2000. Both
  programs.
\<close>

theorem sums_within_range:
  assumes "length (A st) = n" and "length (B st) = n"
    and "length (C_seq st) = n" and "length (C_par st) = n"
    and "\<forall>i<n. 1 \<le> sint (A st ! i) \<and> sint (A st ! i) \<le> 1000
              \<and> 1 \<le> sint (B st ! i) \<and> sint (B st ! i) \<le> 1000"
    and "omp_main_for n pedazos T order"
    and "length (sol_state.A ss) = m" and "length (sol_state.B ss) = m"
    and "length (R ss) = m" and "length (Rpar ss) = m"
    and "\<forall>i<m. 1 \<le> sint (sol_state.A ss ! i) \<and> sint (sol_state.A ss ! i) \<le> 1000
              \<and> 1 \<le> sint (sol_state.B ss ! i) \<and> sint (sol_state.B ss ! i) \<le> 1000"
    and "omp_sol_for m team order'"
  shows "(\<exists>st1 st2. suma_secuencial n st = Inr st1 \<and> suma_paralela order st1 = Inr st2
            \<and> (\<forall>i<n. sint (C_seq st2 ! i) = sint (A st ! i) + sint (B st ! i)
                     \<and> 2 \<le> sint (C_seq st2 ! i) \<and> sint (C_seq st2 ! i) \<le> 2000
                     \<and> sint (C_par st2 ! i) = sint (A st ! i) + sint (B st ! i)
                     \<and> 2 \<le> sint (C_par st2 ! i) \<and> sint (C_par st2 ! i) \<le> 2000))
       \<and> (\<exists>ss1 ss2. sol_suma_secuencial m ss = Inr ss1 \<and> sol_suma_paralela order' ss1 = Inr ss2
            \<and> (\<forall>i<m. sint (R ss2 ! i) = sint (sol_state.A ss ! i) + sint (sol_state.B ss ! i)
                     \<and> 2 \<le> sint (R ss2 ! i) \<and> sint (R ss2 ! i) \<le> 2000
                     \<and> sint (Rpar ss2 ! i) = sint (sol_state.A ss ! i) + sint (sol_state.B ss ! i)
                     \<and> 2 \<le> sint (Rpar ss2 ! i) \<and> sint (Rpar ss2 ! i) \<le> 2000))"
proof
  let ?st1 = "st\<lparr>C_seq := spec_sum (A st) (B st) n\<rparr>"
  have "suma_secuencial n st = Inr ?st1"
    using assms(1-3) by (rule suma_secuencial_eq)
  moreover have "suma_paralela order ?st1 = Inr (?st1\<lparr>C_par := spec_sum (A ?st1) (B ?st1) n\<rparr>)"
    using assms(1,2,4) omp_main_for_set [OF assms(6)] by (intro suma_paralela_eq) simp_all
  moreover have "sint (spec_sum (A st) (B st) n ! i) = sint (A st ! i) + sint (B st ! i)
      \<and> 2 \<le> sint (A st ! i) + sint (B st ! i) \<and> sint (A st ! i) + sint (B st ! i) \<le> 2000"
    if "i < n" for i
    using that assms(5) by (intro spec_sum_range) simp_all
  ultimately show "\<exists>st1 st2. suma_secuencial n st = Inr st1 \<and> suma_paralela order st1 = Inr st2
            \<and> (\<forall>i<n. sint (C_seq st2 ! i) = sint (A st ! i) + sint (B st ! i)
                     \<and> 2 \<le> sint (C_seq st2 ! i) \<and> sint (C_seq st2 ! i) \<le> 2000
                     \<and> sint (C_par st2 ! i) = sint (A st ! i) + sint (B st ! i)
                     \<and> 2 \<le> sint (C_par st2 ! i) \<and> sint (C_par st2 ! i) \<le> 2000)"
    by simp
next
  let ?ss1 = "ss\<lparr>R := spec_sum (sol_state.A ss) (sol_state.B ss) m\<rparr>"
  have "sol_suma_secuencial m ss = Inr ?ss1"
    using assms(7-9) by (rule sol_suma_secuencial_eq)
  moreover have "sol_suma_paralela order' ?ss1 =
      Inr (?ss1\<lparr>Rpar := spec_sum (sol_state.A ?ss1) (sol_state.B ?ss1) m\<rparr>)"
    using assms(7,8,10) omp_sol_for_set [OF assms(12)] by (intro sol_suma_paralela_eq) simp_all
  moreover have "sint (spec_sum (sol_state.A ss) (sol_state.B ss) m ! i)
        = sint (sol_state.A ss ! i) + sint (sol_state.B ss ! i)
      \<and> 2 \<le> sint (sol_state.A ss ! i) + sint (sol_state.B ss ! i)
      \<and> sint (sol_state.A ss ! i) + sint (sol_state.B ss ! i) \<le> 2000"
    if "i < m" for i
    using that assms(11) by (intro spec_sum_range) simp_all
  ultimately show "\<exists>ss1 ss2. sol_suma_secuencial m ss = Inr ss1 \<and> sol_suma_paralela order' ss1 = Inr ss2
            \<and> (\<forall>i<m. sint (R ss2 ! i) = sint (sol_state.A ss ! i) + sint (sol_state.B ss ! i)
                     \<and> 2 \<le> sint (R ss2 ! i) \<and> sint (R ss2 ! i) \<le> 2000
                     \<and> sint (Rpar ss2 ! i) = sint (sol_state.A ss ! i) + sint (sol_state.B ss ! i)
                     \<and> 2 \<le> sint (Rpar ss2 ! i) \<and> sint (Rpar ss2 ! i) \<le> 2000)"
    by simp
qed

theorem sums_within_range_witness:
  "omp_main_for 4 1 2 [1, 0, 3, 2] \<and> omp_sol_for 3 [[0, 1], [2]] [2, 0, 1]
   \<and> (\<exists>st1 st2. suma_secuencial 4 ejemplo_main = Inr st1 \<and> suma_paralela [1, 0, 3, 2] st1 = Inr st2
         \<and> (\<forall>i<4. sint (C_seq st2 ! i) = sint (A ejemplo_main ! i) + sint (B ejemplo_main ! i)
                  \<and> 2 \<le> sint (C_seq st2 ! i) \<and> sint (C_seq st2 ! i) \<le> 2000
                  \<and> sint (C_par st2 ! i) = sint (A ejemplo_main ! i) + sint (B ejemplo_main ! i)
                  \<and> 2 \<le> sint (C_par st2 ! i) \<and> sint (C_par st2 ! i) \<le> 2000))
   \<and> (\<exists>ss1 ss2. sol_suma_secuencial 3 ejemplo_sol = Inr ss1 \<and> sol_suma_paralela [2, 0, 1] ss1 = Inr ss2
         \<and> (\<forall>i<3. sint (R ss2 ! i) = sint (sol_state.A ejemplo_sol ! i) + sint (sol_state.B ejemplo_sol ! i)
                  \<and> 2 \<le> sint (R ss2 ! i) \<and> sint (R ss2 ! i) \<le> 2000
                  \<and> sint (Rpar ss2 ! i) = sint (sol_state.A ejemplo_sol ! i) + sint (sol_state.B ejemplo_sol ! i)
                  \<and> 2 \<le> sint (Rpar ss2 ! i) \<and> sint (Rpar ss2 ! i) \<le> 2000))"
proof -
  have h1: "omp_main_for 4 1 2 [1, 0, 3, 2]"
    by (simp add: omp_main_for_def static_schedule_def thread_iters_def num_chunks_def
        chunk_iters_def upt_rec)
  have h2: "omp_sol_for 3 [[0, 1], [2]] [2, 0, 1]"
    by (simp add: omp_sol_for_def assignment_def upt_rec)
  have l1: "length (A ejemplo_main) = 4" "length (B ejemplo_main) = 4"
    "length (C_seq ejemplo_main) = 4" "length (C_par ejemplo_main) = 4"
    by (simp_all add: ejemplo_main_def)
  have l2: "length (sol_state.A ejemplo_sol) = 3" "length (sol_state.B ejemplo_sol) = 3"
    "length (R ejemplo_sol) = 3" "length (Rpar ejemplo_sol) = 3"
    by (simp_all add: ejemplo_sol_def)
  have r1: "\<forall>i<4. 1 \<le> sint (A ejemplo_main ! i) \<and> sint (A ejemplo_main ! i) \<le> 1000
              \<and> 1 \<le> sint (B ejemplo_main ! i) \<and> sint (B ejemplo_main ! i) \<le> 1000"
    by (simp add: ejemplo_main_def nth_Cons' less_Suc_eq eval_nat_numeral)
  have r2: "\<forall>i<3. 1 \<le> sint (sol_state.A ejemplo_sol ! i) \<and> sint (sol_state.A ejemplo_sol ! i) \<le> 1000
              \<and> 1 \<le> sint (sol_state.B ejemplo_sol ! i) \<and> sint (sol_state.B ejemplo_sol ! i) \<le> 1000"
    by (simp add: ejemplo_sol_def nth_Cons' less_Suc_eq eval_nat_numeral)
  note r = sums_within_range [OF l1 r1 h1 l2 r2 h2]
  show ?thesis
    by (intro conjI) (rule h1, rule h2, rule conjunct1 [OF r], rule conjunct2 [OF r])
qed

text \<open>
  C10. No array access of either program leaves its array. With arrays of length \<open>n\<close>,
  the generation loop, both summation passes (the parallel one in every order the pragma
  allows) and the verifier never reach \<open>OutOfBounds\<close>; the same holds for the loops of the
  second program. \<^verbatim>\<open>imprimeArreglo\<close> reads \<open>mostrar \<le> N\<close> elements and stays inside an
  array of \<open>N\<close> elements (on a shorter array it does reach \<open>OutOfBounds\<close>, lemma
  \<open>imprimeArreglo_short\<close>). Run whole, neither program reaches \<open>OutOfBounds\<close>.
\<close>

theorem array_accesses_in_bounds:
  fixes st st0 :: "('g, 'd) main_state" and ss :: "('g, 'd) sol_state"
    and ps :: "('g, 'd, 'z) process_scheme"
  shows
  "(length (A st) = n \<and> length (B st) = n \<and> length (C_seq st) = n \<and> length (C_par st) = n
      \<and> omp_main_for n pedazos T order
     \<longrightarrow> inicializacion uid n st \<noteq> Inl OutOfBounds
         \<and> suma_secuencial n st \<noteq> Inl OutOfBounds
         \<and> suma_paralela order st \<noteq> Inl OutOfBounds
         \<and> verificacion n st \<noteq> Inl OutOfBounds)
   \<and> (length (sol_state.A ss) = m \<and> length (sol_state.B ss) = m
      \<and> length (R ss) = m \<and> length (Rpar ss) = m \<and> omp_sol_for m team order'
     \<longrightarrow> sol_generacion uid m ss \<noteq> Inl OutOfBounds
         \<and> sol_suma_secuencial m ss \<noteq> Inl OutOfBounds
         \<and> sol_suma_paralela order' ss \<noteq> Inl OutOfBounds
         \<and> sol_impresion m ss \<noteq> Inl OutOfBounds)
   \<and> mostrar \<le> N
   \<and> (length d = N \<longrightarrow> imprimeArreglo d nombre ps \<noteq> Inl OutOfBounds)
   \<and> (main_entry st0 \<and> omp_main_for N chunk T0 order0
     \<longrightarrow> main_cpp uid order0 ts tp st0 \<noteq> Inl OutOfBounds)
   \<and> (omp_sol_for n_sol team1 order1
     \<longrightarrow> sol_main uid g0 order1 ts tp \<noteq> Inl OutOfBounds)"
proof (intro conjI impI)
  assume a: "length (A st) = n \<and> length (B st) = n \<and> length (C_seq st) = n \<and> length (C_par st) = n
      \<and> omp_main_for n pedazos T order"
  then have len: "length (A st) = n" "length (B st) = n" "length (C_seq st) = n" "length (C_par st) = n"
    and omp: "omp_main_for n pedazos T order" by simp_all
  from inicializacion_loop [where P = "\<lambda>_. True" and dist = "uid 1 1000", OF len]
  show "inicializacion uid n st \<noteq> Inl OutOfBounds"
    unfolding inicializacion_def by auto
  show "suma_secuencial n st \<noteq> Inl OutOfBounds"
    by (simp add: suma_secuencial_eq [OF len(1-3)])
  show "suma_paralela order st \<noteq> Inl OutOfBounds"
    by (simp add: suma_paralela_eq [OF len(1,2,4) omp_main_for_set [OF omp]])
  from verificacion_total [OF len(3,4)]
  show "verificacion n st \<noteq> Inl OutOfBounds" by auto
next
  assume a: "length (sol_state.A ss) = m \<and> length (sol_state.B ss) = m
      \<and> length (R ss) = m \<and> length (Rpar ss) = m \<and> omp_sol_for m team order'"
  then have len: "length (sol_state.A ss) = m" "length (sol_state.B ss) = m"
      "length (R ss) = m" "length (Rpar ss) = m"
    and omp: "omp_sol_for m team order'" by simp_all
  from sol_generacion_loop [where P = "\<lambda>_. True" and dist = "uid 1 1000", OF len(1,2)]
  show "sol_generacion uid m ss \<noteq> Inl OutOfBounds"
    unfolding sol_generacion_def by auto
  show "sol_suma_secuencial m ss \<noteq> Inl OutOfBounds"
    by (simp add: sol_suma_secuencial_eq [OF len(1-3)])
  show "sol_suma_paralela order' ss \<noteq> Inl OutOfBounds"
    by (simp add: sol_suma_paralela_eq [OF len(1,2,4) omp_sol_for_set [OF omp]])
  show "sol_impresion m ss \<noteq> Inl OutOfBounds"
    using len by (simp add: sol_impresion_eq)
next
  show "mostrar \<le> N" by (simp add: mostrar_def N_def)
next
  assume "length d = N"
  then have "mostrar \<le> length d" by (simp add: mostrar_def N_def)
  then show "imprimeArreglo d nombre ps \<noteq> Inl OutOfBounds"
    by (simp add: imprimeArreglo_eq)
next
  assume "main_entry st0 \<and> omp_main_for N chunk T0 order0"
  then show "main_cpp uid order0 ts tp st0 \<noteq> Inl OutOfBounds"
    using main_cpp_eq [of st0 T0 order0 uid ts tp] by auto
next
  assume "omp_sol_for n_sol team1 order1"
  then show "sol_main uid g0 order1 ts tp \<noteq> Inl OutOfBounds"
    using sol_main_eq [of team1 order1 uid g0 ts tp] by auto
qed

theorem array_accesses_in_bounds_witness:
  "omp_main_for 4 1 2 [1, 0, 3, 2]
   \<and> inicializacion ends_uid 4 ejemplo_main \<noteq> Inl OutOfBounds
   \<and> suma_secuencial 4 ejemplo_main \<noteq> Inl OutOfBounds
   \<and> suma_paralela [1, 0, 3, 2] ejemplo_main \<noteq> Inl OutOfBounds
   \<and> verificacion 4 ejemplo_main \<noteq> Inl OutOfBounds
   \<and> omp_sol_for 3 [[0, 1], [2]] [2, 0, 1]
   \<and> sol_generacion ends_uid 3 ejemplo_sol \<noteq> Inl OutOfBounds
   \<and> sol_suma_secuencial 3 ejemplo_sol \<noteq> Inl OutOfBounds
   \<and> sol_suma_paralela [2, 0, 1] ejemplo_sol \<noteq> Inl OutOfBounds
   \<and> sol_impresion 3 ejemplo_sol \<noteq> Inl OutOfBounds
   \<and> imprimeArreglo (replicate N 7) ''A'' ejemplo_N \<noteq> Inl OutOfBounds
   \<and> main_entry ejemplo_N \<and> omp_main_for N chunk 4 (concat (static_schedule N chunk 4))
   \<and> main_cpp ends_uid (concat (static_schedule N chunk 4)) 1 2 ejemplo_N \<noteq> Inl OutOfBounds
   \<and> omp_sol_for n_sol [[0, 1, 2, 3, 4], [5, 6, 7, 8, 9]] [0, 5, 1, 6, 2, 7, 3, 8, 4, 9]
   \<and> sol_main ends_uid (0 :: nat) [0, 5, 1, 6, 2, 7, 3, 8, 4, 9] (1 :: nat) 2 \<noteq> Inl OutOfBounds"
proof -
  let ?order = "concat (static_schedule N chunk 4)"
  let ?team = "[[0, 1, 2, 3, 4], [5, 6, 7, 8, 9]] :: nat list list"
  let ?order' = "[0, 5, 1, 6, 2, 7, 3, 8, 4, 9] :: nat list"
  have o: "omp_main_for 4 1 2 [1, 0, 3, 2]" by code_simp
  have h1: "length (A ejemplo_main) = 4 \<and> length (B ejemplo_main) = 4
      \<and> length (C_seq ejemplo_main) = 4 \<and> length (C_par ejemplo_main) = 4
      \<and> omp_main_for 4 1 2 [1, 0, 3, 2]"
    using o by (simp add: ejemplo_main_def)
  have o': "omp_sol_for 3 [[0, 1], [2]] [2, 0, 1]" by code_simp
  have h2: "length (sol_state.A ejemplo_sol) = 3 \<and> length (sol_state.B ejemplo_sol) = 3
      \<and> length (R ejemplo_sol) = 3 \<and> length (Rpar ejemplo_sol) = 3
      \<and> omp_sol_for 3 [[0, 1], [2]] [2, 0, 1]"
    using o' by (simp add: ejemplo_sol_def)
  have h3: "length (replicate N (7 :: int32)) = N" by simp
  have e: "main_entry ejemplo_N" by (simp add: main_entry_def ejemplo_N_def)
  have o1: "omp_main_for N chunk 4 ?order"
    by (simp add: omp_main_for_def interleaving_concat chunk_def)
  have o2: "omp_sol_for n_sol ?team ?order'" by code_simp
  note t = array_accesses_in_bounds [where st = ejemplo_main and n = 4 and pedazos = 1 and T = 2
      and order = "[1, 0, 3, 2]" and uid = ends_uid and ss = ejemplo_sol and m = 3
      and team = "[[0, 1], [2]]" and order' = "[2, 0, 1]" and d = "replicate N 7"
      and nombre = "''A''" and ps = ejemplo_N and ?st0.0 = ejemplo_N and ?T0.0 = 4
      and ?order0.0 = ?order and ts = 1 and tp = 2 and ?team1.0 = ?team and ?order1.0 = ?order'
      and ?g0.0 = 0]
  note c1 = t [THEN conjunct1, THEN mp, OF h1]
  note c2 = t [THEN conjunct2, THEN conjunct1, THEN mp, OF h2]
  note c3 = t [THEN conjunct2, THEN conjunct2, THEN conjunct2, THEN conjunct1, THEN mp, OF h3]
  note c4 = t [THEN conjunct2, THEN conjunct2, THEN conjunct2, THEN conjunct2, THEN conjunct1,
      THEN mp, OF conjI [OF e o1]]
  note c5 = t [THEN conjunct2, THEN conjunct2, THEN conjunct2, THEN conjunct2, THEN conjunct2,
      THEN mp, OF o2]
  show ?thesis
    by (intro conjI)
      (rule o, rule c1 [THEN conjunct1], rule c1 [THEN conjunct2, THEN conjunct1],
        rule c1 [THEN conjunct2, THEN conjunct2, THEN conjunct1],
        rule c1 [THEN conjunct2, THEN conjunct2, THEN conjunct2],
        rule o', rule c2 [THEN conjunct1], rule c2 [THEN conjunct2, THEN conjunct1],
        rule c2 [THEN conjunct2, THEN conjunct2, THEN conjunct1],
        rule c2 [THEN conjunct2, THEN conjunct2, THEN conjunct2],
        rule c3, rule e, rule o1, rule c4, rule o2, rule c5)
qed

end
